(* ===== verification/Prelude.thy ===== *)
theory Prelude
  imports Main "HOL-Library.Word"
begin

text \<open>
  Shared vocabulary of the development: bytes and machine integers, faults as values of a
  sum type with the chaining operator \<open>and_then\<close>, bounds-checked reads of C buffers
  (\<open>rd\<close>), little-endian encoding, the text conversions of \<open>printf\<close>, and the generic
  lemmas the component theories share. Nothing here is specific to one program file.
\<close>

unbundle bit_operations_syntax

section \<open>Machine types, faults and sequencing\<close>

type_synonym byte = "8 word"
type_synonym char16 = "16 word"

text \<open>
  A C function of this code base ends in one of four ways: it returns normally, it returns
  the error code \<open>n\<close> (\<open>Fail n\<close>), it aborts in \<open>ASSERT\<close>/\<open>abort\<close> (\<open>Aborted\<close>), or it
  accesses memory outside the object it points into (\<open>OutOfBounds\<close>), which is undefined
  behaviour in C. \<open>Hangs\<close> marks a loop that makes no progress.
\<close>

datatype fault = Fail int | Aborted | OutOfBounds | Hangs

type_synonym 'a res = "fault + 'a"

definition and_then :: "'a res \<Rightarrow> ('a \<Rightarrow> 'b res) \<Rightarrow> 'b res" where
  "and_then m f = (case m of Inl e \<Rightarrow> Inl e | Inr x \<Rightarrow> f x)"

definition check :: "bool \<Rightarrow> fault \<Rightarrow> unit res" where
  "check b e = (if b then Inr () else Inl e)"

named_theorems res_simps "inversion of chained computations"
named_theorems layout_simps "lengths and offsets of serialised structures"

lemma and_then_simps [simp]:
  "and_then (Inl e) f = Inl e"
  "and_then (Inr x) f = f x"
  by (simp_all add: and_then_def)

lemma and_then_Inr_iff [res_simps]:
  "and_then m f = Inr y \<longleftrightarrow> (\<exists>x. m = Inr x \<and> f x = Inr y)"
  by (cases m) auto

lemma and_then_split:
  "P (and_then m f) \<longleftrightarrow> (\<forall>e. m = Inl e \<longrightarrow> P (Inl e)) \<and> (\<forall>x. m = Inr x \<longrightarrow> P (f x))"
  by (cases m) auto

lemma and_then_Inr_id [simp]: "and_then m Inr = m"
  by (cases m) auto

lemma and_then_assoc: "and_then (and_then m f) g = and_then m (\<lambda>x. and_then (f x) g)"
  by (cases m) auto

lemma and_then_cong [fundef_cong]:
  "m = m' \<Longrightarrow> (\<And>x. m' = Inr x \<Longrightarrow> f x = f' x) \<Longrightarrow> and_then m f = and_then m' f'"
  by (cases m') auto

lemma check_simps [simp]:
  "check True e = Inr ()"
  "check False e = Inl e"
  by (simp_all add: check_def)

lemma check_Inr_iff [res_simps]: "check b e = Inr u \<longleftrightarrow> b"
  by (simp add: check_def)

text \<open>A loop over a list whose body can fail, stopping at the first fault.\<close>

fun fold_res :: "('a \<Rightarrow> 's \<Rightarrow> 's res) \<Rightarrow> 'a list \<Rightarrow> 's \<Rightarrow> 's res" where
  "fold_res f [] s = Inr s"
| "fold_res f (x # xs) s = and_then (f x s) (fold_res f xs)"

lemma fold_res_one: "and_then (f x s) (fold_res f []) = f x s" "fold_res f [x] s = f x s"
proof -
  have "fold_res f [] = Inr" by (simp add: fun_eq_iff)
  then show "and_then (f x s) (fold_res f []) = f x s" by simp
  then show "fold_res f [x] s = f x s" by simp
qed

lemma fold_res_append: "fold_res f (xs @ ys) s = and_then (fold_res f xs s) (fold_res f ys)"
  by (induction xs arbitrary: s) (auto simp: and_then_assoc split: and_then_split)

lemma fold_res_invariant:
  assumes step: "\<And>x s t. \<lbrakk>P s; x \<in> set xs; f x s = Inr t\<rbrakk> \<Longrightarrow> P t"
  shows "P s \<Longrightarrow> fold_res f xs s = Inr r \<Longrightarrow> P r"
  using step
proof (induction xs arbitrary: s)
  case (Cons x xs)
  from Cons.prems(2) obtain t where t: "f x s = Inr t" and r: "fold_res f xs t = Inr r"
    by (auto simp: and_then_Inr_iff)
  have "P t" by (rule Cons.prems(3) [OF Cons.prems(1) _ t]) simp
  then show ?case
  proof (rule Cons.IH [OF _ r])
    fix y s t
    assume "P s" "y \<in> set xs" "f y s = Inr t"
    then show "P t" using Cons.prems(3) [of s y t] by simp
  qed
qed simp

text \<open>
  A computation is graceful when it never leaves its buffers, aborts or hangs: it returns a
  value or an error code.
\<close>

definition graceful :: "'a res \<Rightarrow> bool" where
  "graceful m \<longleftrightarrow> (\<forall>e. m = Inl e \<longrightarrow> (\<exists>k. e = Fail k))"

named_theorems graceful_intros "rules that establish graceful computations"

lemma graceful_simps [simp]:
  "graceful (Inr x)"
  "graceful (Inl e) \<longleftrightarrow> (\<exists>k. e = Fail k)"
  by (auto simp: graceful_def)

lemma graceful_and_then [graceful_intros]:
  "\<lbrakk>graceful m; \<And>x. m = Inr x \<Longrightarrow> graceful (f x)\<rbrakk> \<Longrightarrow> graceful (and_then m f)"
  by (cases m) auto

lemma graceful_check [graceful_intros]: "graceful (check b (Fail k))"
  by (cases b) auto

lemma graceful_if [graceful_intros]:
  "\<lbrakk>b \<Longrightarrow> graceful x; \<not> b \<Longrightarrow> graceful y\<rbrakk> \<Longrightarrow> graceful (if b then x else y)"
  by simp

lemma graceful_case_option [graceful_intros]:
  "\<lbrakk>x = None \<Longrightarrow> graceful n; \<And>y. x = Some y \<Longrightarrow> graceful (f y)\<rbrakk>
    \<Longrightarrow> graceful (case x of None \<Rightarrow> n | Some y \<Rightarrow> f y)"
  by (cases x) auto

lemma graceful_case_prod [graceful_intros]:
  "(\<And>a b. x = (a, b) \<Longrightarrow> graceful (f a b)) \<Longrightarrow> graceful (case x of (a, b) \<Rightarrow> f a b)"
  by (cases x) auto

lemma graceful_not_oob: "graceful m \<Longrightarrow> m \<noteq> Inl OutOfBounds"
  by (auto simp: graceful_def)

section \<open>Unsigned arithmetic at a width\<close>

text \<open>
  Sizes and offsets are natural numbers; where the C arithmetic can wrap, the wrap-around
  is written with these operators (\<open>size_t\<close>, \<open>UINTN\<close> and pointers are 64 bits wide).
\<close>

definition u16 :: "nat \<Rightarrow> nat" where "u16 n = n mod 2 ^ 16"
definition u32 :: "nat \<Rightarrow> nat" where "u32 n = n mod 2 ^ 32"
definition u64 :: "nat \<Rightarrow> nat" where "u64 n = n mod 2 ^ 64"

definition sub16 :: "nat \<Rightarrow> nat \<Rightarrow> nat" where "sub16 a b = nat ((int a - int b) mod 2 ^ 16)"
definition sub32 :: "nat \<Rightarrow> nat \<Rightarrow> nat" where "sub32 a b = nat ((int a - int b) mod 2 ^ 32)"
definition sub64 :: "nat \<Rightarrow> nat \<Rightarrow> nat" where "sub64 a b = nat ((int a - int b) mod 2 ^ 64)"

lemma u_small [simp]:
  "n < 2 ^ 16 \<Longrightarrow> u16 n = n"
  "n < 2 ^ 32 \<Longrightarrow> u32 n = n"
  "n < 2 ^ 64 \<Longrightarrow> u64 n = n"
  by (simp_all add: u16_def u32_def u64_def)

lemma u_bound [simp]: "u16 n < 65536" "u32 n < 4294967296" "u64 n < 18446744073709551616"
  by (simp_all add: u16_def u32_def u64_def)

lemma sub_small:
  "b \<le> a \<Longrightarrow> a < 2 ^ 16 \<Longrightarrow> sub16 a b = a - b"
  "b \<le> a \<Longrightarrow> a < 2 ^ 32 \<Longrightarrow> sub32 a b = a - b"
  "b \<le> a \<Longrightarrow> a < 2 ^ 64 \<Longrightarrow> sub64 a b = a - b"
  by (simp_all add: sub16_def sub32_def sub64_def mod_pos_pos_trivial nat_diff_distrib)

lemma sub_bound: "sub16 a b < 2 ^ 16" "sub32 a b < 2 ^ 32" "sub64 a b < 2 ^ 64"
  by (simp_all add: sub16_def sub32_def sub64_def nat_less_iff)

lemma sub64_wraps: "a < b \<Longrightarrow> b \<le> 2 ^ 64 \<Longrightarrow> sub64 a b = 2 ^ 64 + a - b"
proof -
  assume "a < b" "b \<le> 2 ^ 64"
  then have "(int a - int b) mod 2 ^ 64 = (int a - int b + 2 ^ 64) mod 2 ^ 64" by simp
  also have "\<dots> = int a - int b + 2 ^ 64"
    using \<open>a < b\<close> \<open>b \<le> 2 ^ 64\<close> by (intro mod_pos_pos_trivial) auto
  finally show ?thesis using \<open>a < b\<close> \<open>b \<le> 2 ^ 64\<close> by (simp add: sub64_def nat_eq_iff)
qed

section \<open>Bounds-checked reads and writes of buffers\<close>

text \<open>
  A buffer is the list of its bytes. \<open>rd buf off n\<close> is \<open>memcpy(dst, buf + off, n)\<close>; it
  is \<open>OutOfBounds\<close> unless the \<open>n\<close> bytes lie inside the buffer. \<open>wr\<close> is the write.
\<close>

definition rd :: "'a list \<Rightarrow> nat \<Rightarrow> nat \<Rightarrow> 'a list res" where
  "rd buf off n = (if off + n \<le> length buf then Inr (take n (drop off buf)) else Inl OutOfBounds)"

definition wr :: "'a list \<Rightarrow> nat \<Rightarrow> 'a list \<Rightarrow> 'a list res" where
  "wr buf off xs = (if off + length xs \<le> length buf
     then Inr (take off buf @ xs @ drop (off + length xs) buf) else Inl OutOfBounds)"

lemma rd_Inr_iff [res_simps]:
  "rd buf off n = Inr xs \<longleftrightarrow> off + n \<le> length buf \<and> xs = take n (drop off buf)"
  by (auto simp: rd_def)

lemma rd_Inr [simp]: "off + n \<le> length buf \<Longrightarrow> rd buf off n = Inr (take n (drop off buf))"
  by (simp add: rd_def)

lemma rd_Inl [simp]: "length buf < off + n \<Longrightarrow> rd buf off n = Inl OutOfBounds"
  by (simp add: rd_def)

lemma rd_length: "rd buf off n = Inr xs \<Longrightarrow> length xs = n"
  by (auto simp: res_simps)

lemma rd_append:
  "off = length xs \<Longrightarrow> n = length ys \<Longrightarrow> rd (xs @ ys @ zs) off n = Inr ys"
  by (simp add: rd_def)

lemma rd_only: "Inl e = rd buf off n \<Longrightarrow> e = OutOfBounds" "rd buf off n = Inl e \<Longrightarrow> e = OutOfBounds"
  by (auto simp: rd_def split: if_splits)

lemma wr_length: "wr buf off xs = Inr buf' \<Longrightarrow> length buf' = length buf"
  by (auto simp: wr_def split: if_splits)

lemma wr_Inr_iff [res_simps]:
  "wr buf off xs = Inr b \<longleftrightarrow>
     off + length xs \<le> length buf \<and> b = take off buf @ xs @ drop (off + length xs) buf"
  by (auto simp: wr_def)

section \<open>Little-endian integers\<close>

fun le :: "byte list \<Rightarrow> nat" where
  "le [] = 0"
| "le (b # bs) = unat b + 256 * le bs"

fun to_le :: "nat \<Rightarrow> nat \<Rightarrow> byte list" where
  "to_le 0 v = []"
| "to_le (Suc n) v = of_nat (v mod 256) # to_le n (v div 256)"

lemma length_to_le [simp, layout_simps]: "length (to_le n v) = n"
  by (induction n arbitrary: v) auto

text \<open>Evaluation of \<open>to_le\<close> on literals.\<close>

lemma to_le_zero [simp]: "to_le n 0 = replicate n 0"
  by (induction n) auto

lemma to_le_literal [simp]:
  "to_le (numeral k) (numeral v) = of_nat (numeral v mod 256) # to_le (pred_numeral k) (numeral v div 256)"
  "to_le (numeral k) (Suc 0) = 1 # replicate (pred_numeral k) 0"
  "to_le (numeral k) 1 = 1 # replicate (pred_numeral k) 0"
  by (subst numeral_eq_Suc [of k], simp)+

lemma unat_byte [simp]: "unat (b :: byte) < 256"
  using unsigned_less [of b] by simp

lemma le_bound: "le bs < 256 ^ length bs"
proof (induction bs)
  case (Cons b bs)
  then have "le bs + 1 \<le> 256 ^ length bs" by simp
  then have "256 * (le bs + 1) \<le> 256 * 256 ^ length bs" by (rule mult_le_mono2)
  moreover have "unat b < 256" by (rule unat_byte)
  ultimately show ?case by (simp del: unat_byte)
qed simp

lemma le_to_le: "le (to_le n v) = v mod 256 ^ n"
proof (induction n arbitrary: v)
  case (Suc n)
  have "unat (of_nat (v mod 256) :: byte) = v mod 256"
    by (simp add: unat_of_nat)
  then show ?case using Suc by (simp add: mod_mult2_eq add.commute)
qed simp

lemma le_to_le_small: "v < 256 ^ n \<Longrightarrow> le (to_le n v) = v"
  by (simp add: le_to_le)

lemma le_zeros [simp]: "le (replicate n 0) = 0"
  by (induction n) auto

lemma le_take: "le (take n bs) = le bs mod 256 ^ n"
proof (induction bs arbitrary: n)
  case (Cons b bs)
  show ?case
  proof (cases n)
    case (Suc m)
    have "unat b < 256" by (rule unat_byte)
    then have "(unat b + 256 * le bs) mod (256 * 256 ^ m) = unat b + 256 * (le bs mod 256 ^ m)"
      by (simp add: mod_mult2_eq)
    then show ?thesis using Suc Cons.IH [of m] by simp
  qed simp
qed simp

lemma to_le_inj: "to_le n v = to_le n w \<Longrightarrow> v < 256 ^ n \<Longrightarrow> w < 256 ^ n \<Longrightarrow> v = w"
  by (metis le_to_le_small)

lemma unat_width:
  "unat (a :: 16 word) < 65536" "unat (b :: 32 word) < 4294967296"
  "unat (c :: 64 word) < 18446744073709551616"
  using unsigned_less [of a, where 'a = nat] unsigned_less [of b, where 'a = nat]
    unsigned_less [of c, where 'a = nat] by simp_all

lemma unat_mod_width:
  "unat (a :: 16 word) mod 65536 = unat a"
  "unat (b :: 32 word) mod 4294967296 = unat b"
  "unat (c :: 64 word) mod 18446744073709551616 = unat c"
  by (simp_all add: unat_width)

text \<open>Fixed-width fields of a buffer.\<close>

definition rd16 :: "byte list \<Rightarrow> nat \<Rightarrow> nat res" where
  "rd16 buf off = and_then (rd buf off 2) (\<lambda>b. Inr (le b))"
definition rd32 :: "byte list \<Rightarrow> nat \<Rightarrow> nat res" where
  "rd32 buf off = and_then (rd buf off 4) (\<lambda>b. Inr (le b))"
definition rd64 :: "byte list \<Rightarrow> nat \<Rightarrow> nat res" where
  "rd64 buf off = and_then (rd buf off 8) (\<lambda>b. Inr (le b))"
definition rd8 :: "byte list \<Rightarrow> nat \<Rightarrow> nat res" where
  "rd8 buf off = and_then (rd buf off 1) (\<lambda>b. Inr (le b))"

lemma le_take_bound: "le (take n bs) < 256 ^ n"
proof -
  have "le (take n bs) < 256 ^ length (take n bs)" by (rule le_bound)
  also have "\<dots> \<le> 256 ^ n" by (intro power_increasing) auto
  finally show ?thesis .
qed

lemma rdN_Inr_iff [res_simps]:
  "rd8 buf off = Inr v \<longleftrightarrow> off + 1 \<le> length buf \<and> v = le (take 1 (drop off buf))"
  "rd16 buf off = Inr v \<longleftrightarrow> off + 2 \<le> length buf \<and> v = le (take 2 (drop off buf))"
  "rd32 buf off = Inr v \<longleftrightarrow> off + 4 \<le> length buf \<and> v = le (take 4 (drop off buf))"
  "rd64 buf off = Inr v \<longleftrightarrow> off + 8 \<le> length buf \<and> v = le (take 8 (drop off buf))"
  by (auto simp: rd8_def rd16_def rd32_def rd64_def res_simps)

lemma rdN_bound:
  "rd8 buf off = Inr v \<Longrightarrow> v < 2 ^ 8"
  "rd16 buf off = Inr v \<Longrightarrow> v < 2 ^ 16"
  "rd32 buf off = Inr v \<Longrightarrow> v < 2 ^ 32"
  "rd64 buf off = Inr v \<Longrightarrow> v < 2 ^ 64"
  using le_take_bound [of 1 "drop off buf"] le_take_bound [of 2 "drop off buf"]
    le_take_bound [of 4 "drop off buf"] le_take_bound [of 8 "drop off buf"]
  by (auto simp: res_simps)

section \<open>Text\<close>

text \<open>The characters of a byte string, and the conversions of \<open>printf\<close> used by the tools.\<close>

definition chars :: "byte list \<Rightarrow> string" where
  "chars bs = map (\<lambda>b. char_of (unat b)) bs"

definition bytes_of :: "string \<Rightarrow> byte list" where
  "bytes_of s = map (\<lambda>c. of_nat (of_char c)) s"

definition digit :: "nat \<Rightarrow> char" where
  "digit d = ''0123456789abcdef'' ! d"

definition udigit :: "nat \<Rightarrow> char" where
  "udigit d = ''0123456789ABCDEF'' ! d"

fun num_base :: "nat \<Rightarrow> nat \<Rightarrow> string" where
  "num_base b n = (if b < 2 then [] else if n < b then [digit n]
     else num_base b (n div b) @ [digit (n mod b)])"

declare num_base.simps [simp del]

text \<open>\<open>%u\<close>/\<open>%d\<close> of a non-negative value, \<open>%x\<close>, and \<open>%0wx\<close>.\<close>

definition dec :: "nat \<Rightarrow> string" where "dec n = num_base 10 n"
definition hex :: "nat \<Rightarrow> string" where "hex n = num_base 16 n"
definition hex_pad :: "nat \<Rightarrow> nat \<Rightarrow> string" where
  "hex_pad w n = replicate (w - length (hex n)) (CHR ''0'') @ hex n"

text \<open>\<open>%ld\<close> and \<open>%d\<close> of a signed value\<close>

definition ld :: "int \<Rightarrow> string" where
  "ld n = (if n < 0 then ''-'' @ dec (nat (- n)) else dec (nat n))"

text \<open>Conversion to a 32-bit \<open>int\<close>.\<close>

definition int32 :: "int \<Rightarrow> int" where
  "int32 x = (x + 2 ^ 31) mod 2 ^ 32 - 2 ^ 31"

lemma int32_small [simp]: "0 \<le> x \<Longrightarrow> x < 2147483648 \<Longrightarrow> int32 x = x"
  by (simp add: int32_def)

text \<open>\<open>%02x\<close> and \<open>%02X\<close> of one byte.\<close>

definition hex2 :: "byte \<Rightarrow> string" where
  "hex2 b = [digit (unat b div 16), digit (unat b mod 16)]"

definition hex2_upper :: "byte \<Rightarrow> string" where
  "hex2_upper b = [udigit (unat b div 16), udigit (unat b mod 16)]"

definition hex_string :: "byte list \<Rightarrow> string" where
  "hex_string bs = concat (map hex2 bs)"

definition hex_string_upper :: "byte list \<Rightarrow> string" where
  "hex_string_upper bs = concat (map hex2_upper bs)"

text \<open>
  \<open>snprintf\<close> into a buffer of \<open>n\<close> bytes keeps at most \<open>n - 1\<close> characters.
\<close>

definition snprintf :: "nat \<Rightarrow> string \<Rightarrow> string" where
  "snprintf n s = take (n - 1) s"

definition tab :: string where "tab = [CHR 0x09]"
definition nl :: string where "nl = [CHR 0x0A]"

lemma snprintf_short [simp]: "length s < n \<Longrightarrow> snprintf n s = s"
  by (simp add: snprintf_def)

lemma length_chars [simp]: "length (chars bs) = length bs"
  by (simp add: chars_def)

lemma length_bytes_of [simp]: "length (bytes_of s) = length s"
  by (simp add: bytes_of_def)

lemma chars_bytes_of [simp]: "chars (bytes_of s) = s"
proof -
  have "char_of (unat (of_nat (of_char c) :: byte)) = c" for c
    by (simp add: unat_of_nat)
  then show ?thesis by (simp add: chars_def bytes_of_def comp_def)
qed

lemma bytes_of_chars [simp]: "bytes_of (chars bs) = bs"
proof -
  have "of_nat (of_char (char_of (unat b) :: char)) = b" for b :: byte
    using unat_byte [of b] by (simp add: of_char_of)
  then show ?thesis by (simp add: chars_def bytes_of_def comp_def)
qed

lemma length_hex_string [simp, layout_simps]: "length (hex_string bs) = 2 * length bs"
  by (induction bs) (auto simp: hex_string_def hex2_def)

text \<open>The C string that starts a buffer: the bytes before the first zero byte.\<close>

definition cstr :: "byte list \<Rightarrow> byte list" where
  "cstr bs = takeWhile (\<lambda>b. b \<noteq> 0) bs"

lemma bytes_of_no_zero: "CHR 0x00 \<notin> set p \<Longrightarrow> 0 \<notin> set (bytes_of p)"
proof -
  assume p: "CHR 0x00 \<notin> set p"
  have "c = CHR 0x00" if "(of_nat (of_char c) :: byte) = 0" for c
    using that chars_bytes_of [of "[c]"] by (simp add: chars_def bytes_of_def char_of_def)
  with p show ?thesis by (auto simp: bytes_of_def)
qed

lemma cstr_bytes_of [simp]: "CHR 0x00 \<notin> set p \<Longrightarrow> cstr (bytes_of p @ 0 # xs) = bytes_of p"
  using bytes_of_no_zero [of p] by (auto simp: cstr_def takeWhile_append)

lemma cstr_bytes_of_all [simp]: "CHR 0x00 \<notin> set p \<Longrightarrow> cstr (bytes_of p) = bytes_of p"
  using bytes_of_no_zero [of p] by (auto simp: cstr_def takeWhile_eq_all_conv)

text \<open>
  \<open>strtok\<close> splits at runs of delimiters; \<open>strtok_all d s\<close> is the list of tokens that
  repeated calls return.
\<close>

fun strtok_go :: "('a \<Rightarrow> bool) \<Rightarrow> 'a list \<Rightarrow> 'a list \<Rightarrow> 'a list list" where
  "strtok_go d acc [] = (if acc = [] then [] else [rev acc])"
| "strtok_go d acc (c # cs) =
     (if d c then (if acc = [] then strtok_go d [] cs else rev acc # strtok_go d [] cs)
      else strtok_go d (c # acc) cs)"

definition strtok_all :: "('a \<Rightarrow> bool) \<Rightarrow> 'a list \<Rightarrow> 'a list list" where
  "strtok_all d s = strtok_go d [] s"

lemma strtok_go_no_delim:
  "\<lbrakk>\<And>c. c \<in> set acc \<Longrightarrow> \<not> d c; t \<in> set (strtok_go d acc s)\<rbrakk> \<Longrightarrow> t \<noteq> [] \<and> (\<forall>c\<in>set t. \<not> d c)"
proof (induction d acc s rule: strtok_go.induct)
  case (1 d acc)
  then show ?case by (simp split: if_splits)
next
  case (2 d acc c cs)
  show ?case
  proof (cases "d c")
    case True
    show ?thesis
    proof (cases "acc = [] \<or> t \<noteq> rev acc")
      case rest: True
      with True "2.prems"(2) have "t \<in> set (strtok_go d [] cs)" by (auto split: if_splits)
      then show ?thesis using "2.IH"(1,2) True by fastforce
    next
      case False
      with "2.prems"(1) show ?thesis by auto
    qed
  next
    case False
    with "2.prems" show ?thesis by (intro "2.IH"(3)) auto
  qed
qed

lemma strtok_all_tokens: "t \<in> set (strtok_all d s) \<Longrightarrow> t \<noteq> [] \<and> (\<forall>c\<in>set t. \<not> d c)"
  unfolding strtok_all_def by (rule strtok_go_no_delim [of "[]"]) auto

lemma strtok_go_concat: "concat (strtok_go d acc s) = rev acc @ filter (\<lambda>c. \<not> d c) s"
  by (induction d acc s rule: strtok_go.induct) auto

end
