(* ===== verification/Common.thy ===== *)
theory Common
  imports Prelude
begin

text \<open>
  The helpers of \<^verbatim>\<open>src/common/common.c\<close> and \<^verbatim>\<open>src/common/guid.c\<close>: file access, the
  hexadecimal and UTF-16 conversions, the list searches and the GUID comparison. The file
  system is a parameter \<open>fs\<close> from path names to contents. Memory allocation is assumed to
  succeed throughout. \<open>char\<close> is signed and integers are little-endian (x86-64).
\<close>

section \<open>Files\<close>

type_synonym filesys = "string \<Rightarrow> byte list option"

text \<open>
  \<open>read_file\<close> returns the whole contents, or -1 when the file does not exist; the buffer
  and its size are the list and its length.
\<close>

definition read_file :: "filesys \<Rightarrow> string \<Rightarrow> byte list res" where
  "read_file fs filename = (case fs filename of None \<Rightarrow> Inl (Fail (-1)) | Some buf \<Rightarrow> Inr buf)"

text \<open>
  Where files can be written: \<open>disk name\<close> is the number of bytes that the file can take,
  \<open>None\<close> if it cannot be opened. \<open>write_file\<close> returns its return code with the files as it
  leaves them, a truncated file included.
\<close>

type_synonym disk = "string \<Rightarrow> nat option"

definition write_file :: "disk \<Rightarrow> filesys \<Rightarrow> byte list \<Rightarrow> string \<Rightarrow> int \<times> filesys" where
  "write_file disk fs buf filename = (case disk filename of None \<Rightarrow> (-1, fs)
     | Some room \<Rightarrow> (let written = min room (length buf) in
         (if written \<noteq> length buf then -1 else 0, fs(filename \<mapsto> take written buf))))"

text \<open>A dump that was not asked for, or that fits on the disk; and the files with it.\<close>

definition dump_ok :: "disk \<Rightarrow> byte list \<Rightarrow> string option \<Rightarrow> bool" where
  "dump_ok disk buf path = (case path of None \<Rightarrow> True
     | Some p \<Rightarrow> (case disk p of None \<Rightarrow> False | Some room \<Rightarrow> length buf \<le> room))"

definition dumped :: "byte list \<Rightarrow> string option \<Rightarrow> filesys \<Rightarrow> filesys" where
  "dumped buf path fs = (case path of None \<Rightarrow> fs | Some p \<Rightarrow> fs(p \<mapsto> buf))"

lemma dump_ok_None [simp]: "dump_ok disk buf None"
  by (simp add: dump_ok_def)

lemma dumped_None [simp]: "dumped buf None fs = fs"
  by (simp add: dumped_def)

lemma write_file_dumped:
  "dump_ok disk buf (Some p) \<Longrightarrow> write_file disk fs buf p = (0, dumped buf (Some p) fs)"
  by (auto simp: write_file_def dump_ok_def dumped_def Let_def split: option.splits)

lemma write_file_failed:
  "\<not> dump_ok disk buf (Some p) \<Longrightarrow> fst (write_file disk fs buf p) = -1"
  by (auto simp: write_file_def dump_ok_def Let_def min_def split: option.splits)

text \<open>
  \<open>get_file_size\<close> ignores the return value of \<open>stat\<close>, so a missing file has size 0;
  \<open>read_file_new\<close> returns \<open>NULL\<close> (here \<open>None\<close>) for it.
\<close>

definition get_file_size :: "filesys \<Rightarrow> string \<Rightarrow> int" where
  "get_file_size fs filename = (case fs filename of None \<Rightarrow> 0 | Some buf \<Rightarrow> int (length buf))"

definition read_file_new :: "filesys \<Rightarrow> string \<Rightarrow> byte list option" where
  "read_file_new fs filename = fs filename"

text \<open>\<open>basename\<close> of the C library: the last component of a path.\<close>

definition basename :: "string \<Rightarrow> string" where
  "basename s = (let t = rev (dropWhile (\<lambda>c. c = CHR ''/'') (rev s)) in
     if s = [] then ''.'' else if t = [] then ''/'' else rev (takeWhile (\<lambda>c. c \<noteq> CHR ''/'') (rev t)))"

section \<open>Printing of buffers\<close>

text \<open>What the functions print for the \<open>len\<close> bytes at \<open>buf\<close>; \<open>info\<close> is an optional label.\<close>

definition print_data_no_lf :: "byte list \<Rightarrow> nat \<Rightarrow> string option \<Rightarrow> string res" where
  "print_data_no_lf buf len info =
     and_then (rd buf 0 len) (\<lambda>d.
       Inr ((case info of None \<Rightarrow> [] | Some i \<Rightarrow> i @ '': '') @ hex_string d))"

definition print_data :: "byte list \<Rightarrow> nat \<Rightarrow> string option \<Rightarrow> string res" where
  "print_data buf len info =
     and_then (rd buf 0 len) (\<lambda>d.
       Inr ((case info of None \<Rightarrow> [] | Some i \<Rightarrow> i @ '': '') @ hex_string_upper d @ nl))"

definition print_data_ext :: "byte list \<Rightarrow> nat \<Rightarrow> string \<Rightarrow> string res" where
  "print_data_ext buf len lbl =
     and_then (rd buf 0 len) (\<lambda>d.
       Inr (lbl @ concat (map (\<lambda>i. (if i mod 16 = 0 then nl @ ''0x'' @ hex_pad 4 i @ '':'' else [])
              @ '' '' @ hex2_upper (d ! i)) [0..<len]) @ nl))"

text \<open>The stream of a file that cannot be opened is \<open>NULL\<close>, which \<open>fprintf\<close> dereferences.\<close>

definition print_data_file :: "disk \<Rightarrow> filesys \<Rightarrow> byte list \<Rightarrow> nat \<Rightarrow> string \<Rightarrow> filesys res" where
  "print_data_file disk fs buf len file =
     and_then (check (disk file \<noteq> None) OutOfBounds) (\<lambda>_.
     and_then (rd buf 0 len) (\<lambda>d. Inr (snd (write_file disk fs (bytes_of (hex_string_upper d)) file))))"

section \<open>Hexadecimal conversion\<close>

text \<open>The range test of \<open>convert_hex_to_bin\<close> on one character, exactly as written.\<close>

definition rejected_char :: "byte \<Rightarrow> bool" where
  "rejected_char c \<longleftrightarrow>
     c < 0x30 \<or> c > 0x66 \<or> (c > 0x39 \<and> c < 0x40) \<or> (c > 0x46 \<and> c < 0x61)"

definition hex_value :: "byte \<Rightarrow> nat option" where
  "hex_value c = (if 0x30 \<le> c \<and> c \<le> 0x39 then Some (unat c - 0x30)
     else if 0x41 \<le> c \<and> c \<le> 0x46 then Some (unat c - 0x37)
     else if 0x61 \<le> c \<and> c \<le> 0x66 then Some (unat c - 0x57) else None)"

text \<open>
  \<open>sscanf(pos, "%2hhx", &out)\<close> on two characters that passed the range test: it converts
  the longest prefix of at most two hexadecimal digits and stores nothing if there is none.
\<close>

definition sscanf_2hhx :: "byte \<Rightarrow> byte \<Rightarrow> byte option" where
  "sscanf_2hhx c1 c2 = (case hex_value c1 of None \<Rightarrow> None
     | Some h \<Rightarrow> (case hex_value c2 of None \<Rightarrow> Some (of_nat h)
                  | Some l \<Rightarrow> Some (of_nat (16 * h + l))))"

fun hex_loop :: "nat \<Rightarrow> byte list \<Rightarrow> nat \<Rightarrow> byte list \<Rightarrow> (int \<times> byte list) res" where
  "hex_loop i pos 0 out = Inr (0, out)"
| "hex_loop i (c1 # c2 # pos) (Suc n) out =
     (if rejected_char c1 \<or> rejected_char c2 then Inr (-3, out)
      else case sscanf_2hhx c1 c2 of None \<Rightarrow> hex_loop (Suc i) pos n out
           | Some v \<Rightarrow> if i < length out then hex_loop (Suc i) pos n (out[i := v])
                       else Inl OutOfBounds)"
| "hex_loop i [c1] (Suc n) out = (if rejected_char c1 then Inr (-3, out) else Inl OutOfBounds)"
| "hex_loop i [] (Suc n) out = Inl OutOfBounds"

text \<open>
  The result is the return code with the contents of \<open>out\<close>, which the caller reads even
  after an error. \<open>out\<close> holds the caller's (possibly indeterminate) bytes on entry.
\<close>

definition convert_hex_to_bin :: "byte list \<Rightarrow> nat \<Rightarrow> byte list \<Rightarrow> nat \<Rightarrow> (int \<times> byte list) res" where
  "convert_hex_to_bin inp inlen out outlen =
     and_then (check (2 \<le> inlen) Aborted) (\<lambda>_.
     let prefixed = take 2 inp = bytes_of ''0X'';
         pos = (if prefixed then drop 2 inp else inp);
         len = (if prefixed then inlen - 2 else inlen)
     in if len mod 2 \<noteq> 0 then Inr (-1, out)
        else if outlen \<noteq> len div 2 then Inr (-2, out)
        else hex_loop 0 pos outlen out)"

definition convert_bin_to_hex :: "byte list \<Rightarrow> string" where
  "convert_bin_to_hex bin = hex_string bin"

lemma digit_cases:
  assumes "d < 16"
  shows "hex_value (of_nat (of_char (digit d))) = Some d \<and> \<not> rejected_char (of_nat (of_char (digit d)))"
proof -
  from assms have "d \<in> {0, 1, 2, 3, 4, 5, 6, 7, 8, 9, 10, 11, 12, 13, 14, 15}"
    unfolding insert_iff empty_iff by presburger
  then show ?thesis
    by (elim insertE emptyE) (simp_all add: digit_def hex_value_def rejected_char_def)
qed

lemma byte_nibbles: "of_nat (16 * (unat b div 16) + unat b mod 16) = (b :: byte)"
  by simp

lemma hex_loop_hex_string:
  "i + length bs \<le> length out \<Longrightarrow>
   hex_loop i (bytes_of (hex_string bs) @ rest) (length bs) out
     = Inr (0, take i out @ bs @ drop (i + length bs) out)"
proof (induction bs arbitrary: i out)
  case (Cons b bs)
  have nib: "unat b div 16 < 16" "unat b mod 16 < 16"
    using unat_byte [of b] by (simp_all del: unat_byte add: div_less_iff_less_mult)
  have step: "bytes_of (hex_string (b # bs)) @ rest =
      of_nat (of_char (digit (unat b div 16))) # of_nat (of_char (digit (unat b mod 16)))
      # (bytes_of (hex_string bs) @ rest)"
    by (simp add: bytes_of_def hex_string_def hex2_def)
  have upd: "take (Suc i) (out[i := b]) = take i out @ [b]"
    using Cons.prems by (simp add: take_Suc_conv_app_nth)
  show ?case
    using Cons.prems Cons.IH [of "Suc i" "out[i := b]"]
    by (simp only: step list.size add_Suc_right hex_loop.simps)
       (simp add: digit_cases [OF nib(1)] digit_cases [OF nib(2)] sscanf_2hhx_def upd)
qed simp

lemma hex_string_not_prefixed:
  assumes "bs \<noteq> []"
  shows "take 2 (bytes_of (hex_string bs) @ rest) \<noteq> bytes_of ''0X''"
proof -
  obtain b bs' where bs: "bs = b # bs'" using assms by (cases bs) auto
  have "hex_value (of_nat (of_char (digit (unat b mod 16)))) \<noteq> None"
    using digit_cases [of "unat b mod 16"] by simp
  then have "(of_nat (of_char (digit (unat b mod 16))) :: byte) \<noteq> of_nat (of_char (CHR ''X''))"
    by (auto simp: hex_value_def)
  then show ?thesis by (simp add: bs bytes_of_def hex_string_def hex2_def numeral_2_eq_2)
qed

lemma hex_roundtrip_aux:
  assumes "bs \<noteq> []" and "length out = length bs"
  shows "convert_hex_to_bin (bytes_of (convert_bin_to_hex bs) @ [0]) (2 * length bs) out (length bs)
    = Inr (0, bs)"
proof -
  have "1 \<le> length bs" using assms(1) by (cases bs) auto
  then show ?thesis
    using assms hex_string_not_prefixed [OF assms(1), of "[0]"]
      hex_loop_hex_string [of 0 bs out "[0]"]
    by (simp add: convert_hex_to_bin_def convert_bin_to_hex_def)
qed

text \<open>
  Fact. Hexadecimal round trip: for any non-empty byte string, parsing the text that
  \<open>convert_bin_to_hex\<close> prints (terminated by a zero byte) succeeds, and leaves exactly the
  original bytes in the output buffer, whatever that buffer held before.
\<close>

theorem hex_roundtrip:
  assumes "bs \<noteq> []" and "length out = length bs"
  shows "convert_hex_to_bin (bytes_of (convert_bin_to_hex bs) @ [0]) (2 * length bs) out (length bs)
    = Inr (0, bs)"
  using assms by (rule hex_roundtrip_aux)

theorem hex_roundtrip_witness:
  "convert_hex_to_bin (bytes_of (convert_bin_to_hex [0x0a, 0xff]) @ [0]) 4 [1, 1] 2
    = Inr (0, [0x0a, 0xff])"
  using hex_roundtrip [of "[0x0a, 0xff]" "[1, 1]"] by (simp add: eval_nat_numeral)

text \<open>
  Fact. The range test lets the character \<open>@\<close> through: an input with \<open>@\<close> in place of a
  digit is reported as success although the output byte is never written, so the caller
  continues with the previous (indeterminate) contents of its buffer.
\<close>

theorem convert_hex_accepts_at_sign:
  "convert_hex_to_bin (bytes_of ''@0'' @ [0]) 2 [b] 1 = Inr (0, [b])"
  by (simp add: convert_hex_to_bin_def bytes_of_def rejected_char_def sscanf_2hhx_def hex_value_def
      hex_loop.simps(2) [of 0 _ _ _ 0, unfolded One_nat_def [symmetric]])

section \<open>UTF-16 conversion\<close>

text \<open>
  \<open>out[i] = in[i]\<close> widens a signed \<open>char\<close>, so bytes from 0x80 up are sign-extended. The
  result is the code units and the byte length stored in \<open>out_len\<close>.
\<close>

definition convert_to_char16 :: "byte list \<Rightarrow> nat \<Rightarrow> nat \<Rightarrow> (char16 list \<times> nat) res" where
  "convert_to_char16 inp in_len trailing_zeros =
     and_then (rd inp 0 in_len) (\<lambda>cs.
       Inr (map scast cs @ replicate trailing_zeros 0, in_len * 2 + trailing_zeros * 2))"

fun char16_strlen :: "char16 list \<Rightarrow> nat res" where
  "char16_strlen [] = Inl OutOfBounds"
| "char16_strlen (c # cs) = (if c = 0 then Inr 0 else and_then (char16_strlen cs) (\<lambda>n. Inr (Suc n)))"

definition convert_to_char :: "char16 list \<Rightarrow> (byte list \<times> nat) res" where
  "convert_to_char inp = and_then (char16_strlen inp) (\<lambda>len.
     Inr (map (\<lambda>c. ucast (c AND 0xFF)) (take len inp) @ [0], len))"

text \<open>The bytes of a \<open>char16_t\<close> array in memory.\<close>

definition char16_bytes :: "char16 list \<Rightarrow> byte list" where
  "char16_bytes cs = concat (map (\<lambda>c. to_le 2 (unat c)) cs)"

lemma length_char16_bytes [simp, layout_simps]: "length (char16_bytes cs) = 2 * length cs"
  by (induction cs) (auto simp: char16_bytes_def)

lemma char16_strlen_append:
  "0 \<notin> set cs \<Longrightarrow> char16_strlen (cs @ 0 # rest) = Inr (length cs)"
  by (induction cs) auto

lemma char16_strlen_Inr:
  "char16_strlen cs = Inr n \<Longrightarrow> n < length cs \<and> cs ! n = 0 \<and> 0 \<notin> set (take n cs)"
  by (induction cs arbitrary: n) (auto simp: res_simps split: if_splits)

lemma narrow_scast: "ucast ((scast (b :: byte) :: char16) AND 0xFF) = b"
proof -
  have m: "(0xFF :: char16) = mask 8" by (simp add: mask_eq_exp_minus_1)
  show ?thesis
  proof (rule bit_word_eqI)
    fix n assume "n < LENGTH(8)"
    then have "n < 7 \<or> n = 7" by auto
    then show "bit (ucast ((scast b :: char16) AND 0xFF) :: byte) n = bit b n"
      unfolding m by (auto simp: bit_simps)
  qed
qed

lemma scast_zero_iff: "(scast (b :: byte) :: char16) = 0 \<longleftrightarrow> b = 0"
  using narrow_scast [of b] by auto

text \<open>
  Fact. Narrowing undoes widening: converting a zero-free byte string to UTF-16 with at least
  one trailing zero and back gives the same string, terminated, and its length, for every
  byte value, although the widened code units of bytes from 0x80 up are sign-extended.
\<close>

theorem char16_roundtrip:
  assumes "0 \<notin> set bs" and "0 < tz"
  shows "and_then (convert_to_char16 bs (length bs) tz) (\<lambda>(w, _). convert_to_char w)
    = Inr (bs @ [0], length bs)"
proof -
  obtain k where tz: "tz = Suc k" using assms(2) by (cases tz) auto
  have "(0 :: char16) \<notin> set (map scast bs)" using assms(1) by (auto simp: scast_zero_iff)
  then have "char16_strlen (map scast bs @ 0 # replicate k 0) = Inr (length bs)"
    using char16_strlen_append [of "map scast bs"] by simp
  then show ?thesis
    by (simp add: convert_to_char16_def convert_to_char_def tz comp_def narrow_scast)
qed

theorem char16_roundtrip_witness:
  "and_then (convert_to_char16 [0x61, 0xC3] 2 1) (\<lambda>(w, _). convert_to_char w)
    = Inr ([0x61, 0xC3, 0], 2)"
proof -
  have len: "(2 :: nat) = length [0x61 :: byte, 0xC3]" by simp
  show ?thesis unfolding len using char16_roundtrip [of "[0x61, 0xC3]" 1] by simp
qed

section \<open>Searches and GUIDs\<close>

text \<open>The list is the array with its length.\<close>

fun contains :: "nat list \<Rightarrow> nat \<Rightarrow> bool" where
  "contains [] value = False"
| "contains (n # nums) value = (if n = value then True else contains nums value)"

fun contains_str :: "string list \<Rightarrow> string \<Rightarrow> bool" where
  "contains_str [] value = False"
| "contains_str (s # strs) value = (if s = value then True else contains_str strs value)"

lemma contains_iff [simp]: "contains nums v \<longleftrightarrow> v \<in> set nums"
  by (induction nums) auto

lemma contains_str_iff [simp]: "contains_str strs v \<longleftrightarrow> v \<in> set strs"
  by (induction strs) auto

text \<open>The EDK II GUID: three little-endian integers and eight bytes.\<close>

record guid =
  Data1 :: "32 word"
  Data2 :: "16 word"
  Data3 :: "16 word"
  Data4 :: "byte list"

definition compare_guid :: "guid \<Rightarrow> guid \<Rightarrow> bool" where
  "compare_guid g1 g2 \<longleftrightarrow> (if Data4 g1 \<noteq> Data4 g2 then False
     else Data1 g1 = Data1 g2 \<and> Data2 g1 = Data2 g2 \<and> Data3 g1 = Data3 g2)"

definition guid_bytes :: "guid \<Rightarrow> byte list" where
  "guid_bytes g = to_le 4 (unat (Data1 g)) @ to_le 2 (unat (Data2 g)) @ to_le 2 (unat (Data3 g)) @ Data4 g"

definition guid_of_bytes :: "byte list \<Rightarrow> guid" where
  "guid_of_bytes bs = \<lparr>Data1 = of_nat (le (take 4 bs)), Data2 = of_nat (le (take 2 (drop 4 bs))),
     Data3 = of_nat (le (take 2 (drop 6 bs))), Data4 = take 8 (drop 8 bs)\<rparr>"

lemma compare_guid_eq: "compare_guid g1 g2 \<longleftrightarrow> g1 = (g2 :: guid)"
  by (auto simp: compare_guid_def)

lemma guid_of_guid_bytes: "length (Data4 g) = 8 \<Longrightarrow> guid_of_bytes (guid_bytes g) = g"
  by (simp add: guid_of_bytes_def guid_bytes_def le_to_le unat_mod_width)

lemma length_guid_bytes: "length (Data4 g) = 8 \<Longrightarrow> length (guid_bytes g) = 16"
  by (simp add: guid_bytes_def)

text \<open>The canonical lower-case rendering \<^verbatim>\<open>%08x-%04x-%04x-%02x%02x-...\<close>.\<close>

definition guid_text :: "guid \<Rightarrow> string" where
  "guid_text g = hex_pad 8 (unat (Data1 g)) @ ''-'' @ hex_pad 4 (unat (Data2 g)) @ ''-''
     @ hex_pad 4 (unat (Data3 g)) @ ''-'' @ hex_string (take 2 (Data4 g)) @ ''-''
     @ hex_string (take 6 (drop 2 (Data4 g)))"

end
