(* ===== verification/Hash.thy ===== *)
theory Hash
  imports Common
begin

text \<open>
  \<^verbatim>\<open>src/common/hash.c\<close>: hashing a buffer or a file and the TPM extend operation. The digest
  functions are OpenSSL's, so they are a parameter \<open>H\<close> of the model; the only fact used
  about them is \<open>digest_ok H\<close>: a digest has the documented length of its algorithm. The
  streaming interface (init, update, final) is the list of the bytes fed so far.
\<close>

section \<open>Digests\<close>

datatype evp_md = EVP_sha1 | EVP_sha256 | EVP_sha384

fun EVP_MD_size :: "evp_md \<Rightarrow> nat" where
  "EVP_MD_size EVP_sha1 = 20"
| "EVP_MD_size EVP_sha256 = 32"
| "EVP_MD_size EVP_sha384 = 48"

type_synonym digest = "evp_md \<Rightarrow> byte list \<Rightarrow> byte list"

definition digest_ok :: "digest \<Rightarrow> bool" where
  "digest_ok H \<longleftrightarrow> (\<forall>md x. length (H md x) = EVP_MD_size md)"

lemma length_digest [simp]: "digest_ok H \<Longrightarrow> length (H md x) = EVP_MD_size md"
  by (simp add: digest_ok_def)

text \<open>A computable function of the right shape, for concrete instances.\<close>

definition sum_digest :: digest where
  "sum_digest md x = to_le (EVP_MD_size md) (fold (\<lambda>b a. 3 * a + unat b + 1) x 7)"

lemma sum_digest_ok: "digest_ok sum_digest"
  by (simp add: digest_ok_def sum_digest_def)

section \<open>The functions of hash.c\<close>

definition hash_buf :: "digest \<Rightarrow> evp_md \<Rightarrow> byte list \<Rightarrow> nat \<Rightarrow> byte list res" where
  "hash_buf H md data len = and_then (rd data 0 len) (\<lambda>d. Inr (H md d))"

text \<open>
  \<open>hash_extend\<close> digests \<open>len\<close> bytes of the register followed by \<open>len\<close> bytes of the
  extension and overwrites the start of the register with the digest.
\<close>

definition hash_extend :: "digest \<Rightarrow> evp_md \<Rightarrow> byte list \<Rightarrow> byte list \<Rightarrow> nat \<Rightarrow> byte list res" where
  "hash_extend H md pcr_value pcr_extend len =
     and_then (rd pcr_value 0 len) (\<lambda>old. and_then (rd pcr_extend 0 len) (\<lambda>ext.
       wr pcr_value 0 (H md (old @ ext))))"

definition FILE_CHUNK :: nat where "FILE_CHUNK = 1024"

text \<open>The read loop of \<open>hash_file\<close>: chunks are fed to the context until \<open>fread\<close> returns 0.\<close>

function digest_chunks :: "byte list \<Rightarrow> byte list \<Rightarrow> byte list" where
  "digest_chunks ctx f =
     (let data = take FILE_CHUNK f in
      if length data = 0 then ctx else digest_chunks (ctx @ data) (drop FILE_CHUNK f))"
  by pat_completeness auto
termination
  by (relation "measure (\<lambda>(ctx, f). length f)") (auto simp: FILE_CHUNK_def)

declare digest_chunks.simps [simp del]

definition hash_file :: "digest \<Rightarrow> evp_md \<Rightarrow> filesys \<Rightarrow> string \<Rightarrow> byte list res" where
  "hash_file H md fs filename = (case fs filename of None \<Rightarrow> Inl (Fail (-1))
     | Some f \<Rightarrow> Inr (H md (digest_chunks [] f)))"

definition hash_and_dump ::
  "digest \<Rightarrow> disk \<Rightarrow> evp_md \<Rightarrow> byte list \<Rightarrow> nat \<Rightarrow> string option \<Rightarrow> filesys \<Rightarrow> (byte list \<times> filesys) res" where
  "hash_and_dump H disk md data len dump_path fs =
     and_then (hash_buf H md data len) (\<lambda>h.
     case dump_path of None \<Rightarrow> Inr (h, fs)
     | Some p \<Rightarrow> (case write_file disk fs (take len data) p of (ret, fs) \<Rightarrow>
         if ret \<noteq> 0 then Inl (Fail (-1)) else Inr (h, fs)))"

lemma hash_and_dump_ok:
  "\<lbrakk>hash_buf H md data len = Inr h; dump_ok disk (take len data) path\<rbrakk>
    \<Longrightarrow> hash_and_dump H disk md data len path fs = Inr (h, dumped (take len data) path fs)"
  by (cases path) (simp_all add: hash_and_dump_def write_file_dumped)

lemma hash_and_dump_failed:
  "\<lbrakk>hash_buf H md data len = Inr h; \<not> dump_ok disk (take len data) path\<rbrakk>
    \<Longrightarrow> hash_and_dump H disk md data len path fs = Inl (Fail (-1))"
  by (cases path) (simp_all add: hash_and_dump_def write_file_failed split_beta)

text \<open>The wrappers with a fixed algorithm.\<close>

definition sha256_buf :: "digest \<Rightarrow> byte list \<Rightarrow> nat \<Rightarrow> byte list res" where
  "sha256_buf H data len = hash_buf H EVP_sha256 data len"

definition sha384_buf :: "digest \<Rightarrow> byte list \<Rightarrow> nat \<Rightarrow> byte list res" where
  "sha384_buf H data len = hash_buf H EVP_sha384 data len"

definition sha256_extend :: "digest \<Rightarrow> byte list \<Rightarrow> byte list \<Rightarrow> byte list res" where
  "sha256_extend H pcr_value pcr_extend = hash_extend H EVP_sha256 pcr_value pcr_extend 32"

definition sha384_extend :: "digest \<Rightarrow> byte list \<Rightarrow> byte list \<Rightarrow> byte list res" where
  "sha384_extend H pcr_value pcr_extend = hash_extend H EVP_sha384 pcr_value pcr_extend 48"

lemma digest_chunks_all: "digest_chunks ctx f = ctx @ f"
proof (induction ctx f rule: digest_chunks.induct)
  case (1 ctx f)
  show ?case
  proof (cases "f = []")
    case False
    then have "take FILE_CHUNK f \<noteq> []" by (simp add: FILE_CHUNK_def)
    with 1 show ?thesis
      by (subst digest_chunks.simps) (simp add: Let_def)
  qed (simp add: digest_chunks.simps [of ctx "[]"])
qed

lemma hash_file_eq:
  "hash_file H md fs name = (case fs name of None \<Rightarrow> Inl (Fail (-1)) | Some f \<Rightarrow> Inr (H md f))"
  by (simp add: hash_file_def digest_chunks_all split: option.splits)

text \<open>
  Fact. Hashing a file in 1024-byte chunks equals hashing its whole contents as one buffer,
  for every file and digest, and a missing file is the error -1.
\<close>

theorem hash_file_is_hash_buf:
  "hash_file H md fs name = and_then (read_file fs name) (\<lambda>buf. hash_buf H md buf (length buf))"
  by (simp add: hash_file_eq read_file_def hash_buf_def split: option.splits)

section \<open>The extend operation and replay\<close>

definition extend :: "digest \<Rightarrow> evp_md \<Rightarrow> byte list \<Rightarrow> byte list \<Rightarrow> byte list" where
  "extend H md m h = H md (m @ h)"

definition replay :: "digest \<Rightarrow> evp_md \<Rightarrow> byte list \<Rightarrow> byte list list \<Rightarrow> byte list" where
  "replay H md m hs = fold (\<lambda>h m. extend H md m h) hs m"

lemma replay_simps [simp]:
  "replay H md m [] = m"
  "replay H md m (h # hs) = replay H md (extend H md m h) hs"
  "replay H md m (xs @ ys) = replay H md (replay H md m xs) ys"
  by (simp_all add: replay_def)

lemma length_extend [simp]: "digest_ok H \<Longrightarrow> length (extend H md m h) = EVP_MD_size md"
  by (simp add: extend_def)

lemma length_replay:
  "digest_ok H \<Longrightarrow> length m = EVP_MD_size md \<Longrightarrow> length (replay H md m hs) = EVP_MD_size md"
  by (induction hs arbitrary: m) auto

lemma hash_extend_is_extend_aux:
  assumes "digest_ok H" and "length m = EVP_MD_size md" and "length h = EVP_MD_size md"
  shows "hash_extend H md m h (EVP_MD_size md) = Inr (extend H md m h)"
  using assms by (simp add: hash_extend_def wr_def extend_def)

text \<open>
  Fact. The extend operation on a register and a digest of the algorithm's size is memory
  safe and is the TPM extend: the new register value is the digest of the old value followed
  by the extension, with nothing of the old value left over.
\<close>

theorem hash_extend_is_extend:
  assumes "digest_ok H" and "length m = EVP_MD_size md" and "length h = EVP_MD_size md"
  shows "hash_extend H md m h (EVP_MD_size md) = Inr (extend H md m h)"
  using assms by (rule hash_extend_is_extend_aux)

theorem hash_extend_is_extend_witness:
  "hash_extend sum_digest EVP_sha256 (replicate 32 0) (replicate 32 1) 32
    = Inr (extend sum_digest EVP_sha256 (replicate 32 0) (replicate 32 1))"
  using hash_extend_is_extend [OF sum_digest_ok, of "replicate 32 0" EVP_sha256 "replicate 32 1"]
  by simp

text \<open>Helper used by the tools: a register of zero bytes.\<close>

definition zeros :: "nat \<Rightarrow> byte list" where "zeros n = replicate n 0"

lemma length_zeros [simp]: "length (zeros n) = n"
  by (simp add: zeros_def)

end
