(* ===== verification/Measure.thy ===== *)
theory Measure
  imports Hash
begin

text \<open>
  The calling convention shared by the measurement functions of \<^verbatim>\<open>src/common\<close> and of the
  calculation tools: each measured object is appended to an event log with \<open>evlog_add\<close> and
  its digest extended into the register. The common code is compiled against two different
  event logs (TPM and TDX); the interface it relies on is the locale \<open>measurement_log\<close>.
\<close>

section \<open>The state a measurement function updates\<close>

record 'l mstate =
  mr :: "byte list"
  evlog :: 'l

text \<open>\<open>add log index name hash desc\<close> is \<open>evlog_add\<close>.\<close>

type_synonym 'l adder = "'l \<Rightarrow> nat \<Rightarrow> string \<Rightarrow> byte list \<Rightarrow> string \<Rightarrow> 'l res"

text \<open>An event: its type name, its digest and its description.\<close>

type_synonym event = "string \<times> byte list \<times> string"

text \<open>
  The pair of calls that every measurement ends with: \<open>evlog_add(...)\<close>, whose result the
  callers ignore, then \<open>hash_extend(md, mr, hash, EVP_MD_size(md))\<close>.
\<close>

definition log_and_extend ::
  "digest \<Rightarrow> 'l adder \<Rightarrow> evp_md \<Rightarrow> nat \<Rightarrow> string \<Rightarrow> byte list \<Rightarrow> string \<Rightarrow> 'l mstate \<Rightarrow> 'l mstate res" where
  "log_and_extend H add md idx name hash desc s =
     and_then (add (evlog s) idx name hash desc) (\<lambda>l.
     and_then (hash_extend H md (mr s) hash (EVP_MD_size md)) (\<lambda>m.
       Inr \<lparr>mr = m, evlog = l\<rparr>))"

definition log_only ::
  "'l adder \<Rightarrow> nat \<Rightarrow> string \<Rightarrow> byte list \<Rightarrow> string \<Rightarrow> 'l mstate \<Rightarrow> 'l mstate res" where
  "log_only add idx name hash desc s =
     and_then (add (evlog s) idx name hash desc) (\<lambda>l. Inr (s\<lparr>evlog := l\<rparr>))"

definition extend_only ::
  "digest \<Rightarrow> evp_md \<Rightarrow> byte list \<Rightarrow> 'l mstate \<Rightarrow> 'l mstate res" where
  "extend_only H md hash s =
     and_then (hash_extend H md (mr s) hash (EVP_MD_size md)) (\<lambda>m. Inr (s\<lparr>mr := m\<rparr>))"

text \<open>The plainest event log, a list of entries; used in concrete instances.\<close>

definition list_add :: "(nat \<times> string \<times> byte list \<times> string) list adder" where
  "list_add l idx n h d = Inr (l @ [(idx, n, h, d)])"

section \<open>Abstract specification: a list of events\<close>

text \<open>
  What a measurement function promises: it measures a list of events, in order. The log
  grows by those events and the register is the replay of their digests.
\<close>

fun log_events :: "'l adder \<Rightarrow> nat \<Rightarrow> event list \<Rightarrow> 'l \<Rightarrow> 'l res" where
  "log_events add idx [] l = Inr l"
| "log_events add idx ((n, h, d) # evs) l = and_then (add l idx n h d) (log_events add idx evs)"

definition measures ::
  "digest \<Rightarrow> 'l adder \<Rightarrow> evp_md \<Rightarrow> nat \<Rightarrow> event list \<Rightarrow> 'l mstate \<Rightarrow> 'l mstate res" where
  "measures H add md idx evs s =
     and_then (log_events add idx evs (evlog s)) (\<lambda>l.
       Inr \<lparr>mr = replay H md (mr s) (map (fst \<circ> snd) evs), evlog = l\<rparr>)"

lemma log_events_append:
  "log_events add idx (xs @ ys) l = and_then (log_events add idx xs l) (log_events add idx ys)"
  by (induction add idx xs l rule: log_events.induct) (auto simp: and_then_assoc intro!: and_then_cong)

lemma measures_Nil [simp]: "measures H add md idx [] s = Inr s"
  by (simp add: measures_def)

lemma measures_append:
  "measures H add md idx (xs @ ys) s
     = and_then (measures H add md idx xs s) (measures H add md idx ys)"
  by (simp add: measures_def log_events_append split: and_then_split)

lemma measures_mr:
  "measures H add md idx evs s = Inr s' \<Longrightarrow> mr s' = replay H md (mr s) (map (fst \<circ> snd) evs)"
  by (auto simp: measures_def res_simps)

text \<open>
  A well-formed register and event digests of the algorithm's size: then each
  \<open>log_and_extend\<close> is one measured event.
\<close>

lemma log_and_extend_measures:
  assumes "digest_ok H" and "length (mr s) = EVP_MD_size md" and "length h = EVP_MD_size md"
  shows "log_and_extend H add md idx n h d s = measures H add md idx [(n, h, d)] s"
  using assms
  by (simp add: log_and_extend_def measures_def hash_extend_is_extend_aux and_then_assoc)

lemma measures_length:
  "\<lbrakk>measures H add md idx evs s = Inr s'; digest_ok H; length (mr s) = EVP_MD_size md\<rbrakk>
     \<Longrightarrow> length (mr s') = EVP_MD_size md"
  by (auto simp: measures_def res_simps length_replay)

text \<open>Sequencing two measurement functions that follow the specification.\<close>

lemma and_then_measures:
  assumes "digest_ok H" and "length (mr s) = EVP_MD_size md"
    and "\<And>s'. length (mr s') = EVP_MD_size md \<Longrightarrow> g s' = measures H add md idx ys s'"
  shows "and_then (measures H add md idx xs s) g = measures H add md idx (xs @ ys) s"
proof (cases "measures H add md idx xs s")
  case (Inr s')
  with assms show ?thesis by (simp add: measures_append measures_length)
qed (simp add: measures_append)

text \<open>A loop that measures one event per element.\<close>

lemma fold_res_measures:
  assumes "digest_ok H"
    and "\<And>x s. x \<in> set xs \<Longrightarrow> length (mr s) = EVP_MD_size md \<Longrightarrow> step x s = measures H add md idx [ev x] s"
    and "length (mr s) = EVP_MD_size md"
  shows "fold_res step xs s = measures H add md idx (map ev xs) s"
  using assms(2,3)
proof (induction xs arbitrary: s)
  case (Cons x xs)
  have head: "step x s = measures H add md idx [ev x] s" using Cons.prems by simp
  have "and_then (measures H add md idx [ev x] s) (fold_res step xs)
      = measures H add md idx ([ev x] @ map ev xs) s"
    by (rule and_then_measures [OF assms(1) Cons.prems(2)]) (rule Cons.IH, use Cons.prems in auto)
  with head show ?case by simp
qed simp

text \<open>The digests of a list of events have the algorithm's size.\<close>

definition events_ok :: "evp_md \<Rightarrow> event list \<Rightarrow> bool" where
  "events_ok md evs \<longleftrightarrow> (\<forall>(n, h, d)\<in>set evs. length h = EVP_MD_size md)"

lemma events_ok_simps [simp]:
  "events_ok md []"
  "events_ok md ((n, h, d) # evs) \<longleftrightarrow> length h = EVP_MD_size md \<and> events_ok md evs"
  "events_ok md (xs @ ys) \<longleftrightarrow> events_ok md xs \<and> events_ok md ys"
  by (simp_all add: events_ok_def ball_Un)

section \<open>The event-log interface\<close>

text \<open>
  The contract between the measurement functions and an event log: adding an entry to an
  existing slot succeeds, appends exactly the rendered entry to that slot's text, leaves the
  other slots alone, and keeps the log well formed with the same rendering.
\<close>

locale measurement_log =
  fixes add :: "'l adder"
    and log_text :: "'l \<Rightarrow> nat \<Rightarrow> string"
    and entry :: "'l \<Rightarrow> nat \<Rightarrow> string \<Rightarrow> byte list \<Rightarrow> string \<Rightarrow> string"
    and wf :: "'l \<Rightarrow> bool"
    and slots :: nat
    and hash_len :: nat
  assumes add_total: "\<lbrakk>wf l; idx < slots; hash_len \<le> length h\<rbrakk> \<Longrightarrow> \<exists>l'. add l idx n h d = Inr l'"
    and add_wf: "\<lbrakk>wf l; add l idx n h d = Inr l'\<rbrakk> \<Longrightarrow> wf l'"
    and add_text: "\<lbrakk>wf l; add l idx n h d = Inr l'\<rbrakk> \<Longrightarrow> log_text l' idx = log_text l idx @ entry l idx n h d"
    and add_frame: "\<lbrakk>wf l; add l idx n h d = Inr l'; j \<noteq> idx\<rbrakk> \<Longrightarrow> log_text l' j = log_text l j"
    and add_entry: "\<lbrakk>wf l; add l idx n h d = Inr l'\<rbrakk> \<Longrightarrow> entry l' = entry l"
begin

lemma log_events_text:
  assumes "wf l" and "idx < slots" and "\<And>n h d. (n, h, d) \<in> set evs \<Longrightarrow> hash_len \<le> length h"
  shows "\<exists>l'. log_events add idx evs l = Inr l' \<and> wf l' \<and> entry l' = entry l
    \<and> log_text l' idx = log_text l idx @ concat (map (\<lambda>(n, h, d). entry l idx n h d) evs)
    \<and> (\<forall>j. j \<noteq> idx \<longrightarrow> log_text l' j = log_text l j)"
  using assms(1,3)
proof (induction evs arbitrary: l)
  case (Cons ev evs)
  obtain n h d where ev: "ev = (n, h, d)" by (cases ev)
  have "hash_len \<le> length h" using Cons.prems(2) [of n h d] by (simp add: ev)
  then obtain l1 where l1: "add l idx n h d = Inr l1"
    using add_total Cons.prems(1) assms(2) by blast
  note facts = add_wf [OF Cons.prems(1) l1] add_text [OF Cons.prems(1) l1]
    add_frame [OF Cons.prems(1) l1] add_entry [OF Cons.prems(1) l1]
  obtain l' where "log_events add idx evs l1 = Inr l'" "wf l'" "entry l' = entry l1"
    "log_text l' idx = log_text l1 idx @ concat (map (\<lambda>(n, h, d). entry l1 idx n h d) evs)"
    "\<forall>j. j \<noteq> idx \<longrightarrow> log_text l' j = log_text l1 j"
    using Cons.IH [OF facts(1)] Cons.prems(2) by (meson list.set_intros(2))
  with facts l1 show ?case by (simp add: ev)
qed simp

text \<open>
  A list of events measured on a well-formed state always succeeds; the register is the
  replay and the slot's text grows by exactly the rendered events.
\<close>

lemma measures_total:
  assumes "wf (evlog s)" and "idx < slots" and "\<And>n h d. (n, h, d) \<in> set evs \<Longrightarrow> hash_len \<le> length h"
  shows "\<exists>s'. measures H add md idx evs s = Inr s' \<and> wf (evlog s')
    \<and> mr s' = replay H md (mr s) (map (fst \<circ> snd) evs)
    \<and> log_text (evlog s') idx
        = log_text (evlog s) idx @ concat (map (\<lambda>(n, h, d). entry (evlog s) idx n h d) evs)
    \<and> (\<forall>j. j \<noteq> idx \<longrightarrow> log_text (evlog s') j = log_text (evlog s) j)"
proof -
  obtain l' where "log_events add idx evs (evlog s) = Inr l'" "wf l'"
    "log_text l' idx = log_text (evlog s) idx
       @ concat (map (\<lambda>(n, h, d). entry (evlog s) idx n h d) evs)"
    "\<forall>j. j \<noteq> idx \<longrightarrow> log_text l' j = log_text (evlog s) j"
    using log_events_text [OF assms(1,2)] assms(3) by blast
  then show ?thesis by (simp add: measures_def)
qed

end

end
