(* ===== verification/EventLog.thy ===== *)
theory EventLog
  imports Measure
begin

text \<open>
  The two event logs that the calculation tools keep: \<^verbatim>\<open>src/calculate-srtm-pcrs/eventlog.c\<close>
  (24 slots, SHA-256) and \<^verbatim>\<open>src/calculate-tdx-mrs/eventlog.c\<close> (6 slots, SHA-384). Both
  render each entry as JSON or text and append it to the slot's string; both interpret the
  interface \<open>measurement_log\<close> that the common measurement code relies on.
\<close>

datatype format_t = FORMAT_JSON | FORMAT_TEXT

record eventlog_t =
  fmt :: format_t
  log :: "string option list"

section \<open>Appending to a slot\<close>

text \<open>
  The common tail of both \<open>evlog_add\<close> functions: allocate the slot's string on first use,
  otherwise reallocate it and concatenate. The slot index is not checked by the code.
\<close>

definition append_slot :: "eventlog_t \<Rightarrow> nat \<Rightarrow> string \<Rightarrow> eventlog_t res" where
  "append_slot evl idx s =
     (if idx < length (log evl)
      then Inr (case log evl ! idx of
             None \<Rightarrow> evl\<lparr>log := (log evl)[idx := Some s]\<rparr>
           | Some old \<Rightarrow> evl\<lparr>log := (log evl)[idx := Some (old @ s)]\<rparr>)
      else Inl OutOfBounds)"

definition slot_text :: "eventlog_t \<Rightarrow> nat \<Rightarrow> string" where
  "slot_text evl idx = (if idx < length (log evl)
     then (case log evl ! idx of None \<Rightarrow> [] | Some t \<Rightarrow> t) else [])"

lemma append_slot_text:
  "append_slot evl idx s = Inr evl' \<Longrightarrow> slot_text evl' idx = slot_text evl idx @ s"
  by (auto simp: append_slot_def slot_text_def split: if_splits option.splits)

lemma append_slot_frame:
  "append_slot evl idx s = Inr evl' \<Longrightarrow> j \<noteq> idx \<Longrightarrow> slot_text evl' j = slot_text evl j"
  by (auto simp: append_slot_def slot_text_def split: if_splits option.splits)

lemma append_slot_shape:
  "append_slot evl idx s = Inr evl' \<Longrightarrow> fmt evl' = fmt evl \<and> length (log evl') = length (log evl)"
  by (auto simp: append_slot_def split: if_splits option.splits)

lemma append_slot_total: "idx < length (log evl) \<Longrightarrow> \<exists>evl'. append_slot evl idx s = Inr evl'"
  by (simp add: append_slot_def)

section \<open>The TPM event log of calculate-srtm-pcrs\<close>

definition MAX_PCRS :: nat where "MAX_PCRS = 24"

definition srtm_entry :: "format_t \<Rightarrow> nat \<Rightarrow> string \<Rightarrow> string \<Rightarrow> string \<Rightarrow> string" where
  \<open>srtm_entry f pcr_index name hashstr desc = (case f of
     FORMAT_JSON \<Rightarrow>
       ''{'' @ nl @ tab @ ''"type":"TPM Reference Value",''
       @ nl @ tab @ ''"subtype":"'' @ name @ ''",''
       @ nl @ tab @ ''"index":'' @ dec pcr_index @ '',''
       @ nl @ tab @ ''"sha256":"'' @ hashstr @ ''",''
       @ nl @ tab @ ''"description":"PCR'' @ dec pcr_index @ '': '' @ desc @ ''"''
       @ nl @ ''},'' @ nl
   | FORMAT_TEXT \<Rightarrow>
       ''name: '' @ name
       @ nl @ tab @ ''pcr: '' @ dec pcr_index
       @ nl @ tab @ ''sha256: '' @ hashstr
       @ nl @ tab @ ''description: '' @ desc @ nl)\<close>

definition srtm_evlog_add :: "eventlog_t adder" where
  "srtm_evlog_add evl pcr_index name hash desc =
     and_then (rd hash 0 32) (\<lambda>h.
       append_slot evl pcr_index
         (snprintf 4096 (srtm_entry (fmt evl) pcr_index name (hex_string h) desc)))"

definition srtm_wf :: "eventlog_t \<Rightarrow> bool" where
  "srtm_wf evl \<longleftrightarrow> length (log evl) = MAX_PCRS"

definition srtm_log_entry :: "eventlog_t \<Rightarrow> nat \<Rightarrow> string \<Rightarrow> byte list \<Rightarrow> string \<Rightarrow> string" where
  "srtm_log_entry evl idx n h d =
     snprintf 4096 (srtm_entry (fmt evl) idx n (hex_string (take 32 h)) d)"

interpretation srtm: measurement_log srtm_evlog_add slot_text srtm_log_entry srtm_wf MAX_PCRS 32
proof
  fix l l' :: eventlog_t and idx n h d j
  show "\<exists>l'. srtm_evlog_add l idx n h d = Inr l'" if "srtm_wf l" "idx < MAX_PCRS" "32 \<le> length h"
    using that append_slot_total [of idx l] by (simp add: srtm_evlog_add_def srtm_wf_def)
  assume "srtm_wf l" and add: "srtm_evlog_add l idx n h d = Inr l'"
  then have app: "append_slot l idx (srtm_log_entry l idx n h d) = Inr l'"
    by (auto simp: srtm_evlog_add_def srtm_log_entry_def res_simps)
  show "srtm_wf l'" using append_slot_shape [OF app] \<open>srtm_wf l\<close> by (simp add: srtm_wf_def)
  show "slot_text l' idx = slot_text l idx @ srtm_log_entry l idx n h d"
    by (rule append_slot_text [OF app])
  show "slot_text l' j = slot_text l j" if "j \<noteq> idx"
    by (rule append_slot_frame [OF app that])
  show "srtm_log_entry l' = srtm_log_entry l"
    using append_slot_shape [OF app] by (simp add: srtm_log_entry_def fun_eq_iff)
qed

section \<open>The TDX event log of calculate-tdx-mrs\<close>

definition MR_LEN :: nat where "MR_LEN = 6"
definition INDEX_MRTD :: nat where "INDEX_MRTD = 0"
definition INDEX_RTMR0 :: nat where "INDEX_RTMR0 = 1"
definition INDEX_RTMR1 :: nat where "INDEX_RTMR1 = 2"
definition INDEX_RTMR2 :: nat where "INDEX_RTMR2 = 3"
definition INDEX_RTMR3 :: nat where "INDEX_RTMR3 = 4"
definition INDEX_MRSEAM :: nat where "INDEX_MRSEAM = 5"

definition index_to_mr :: "nat \<Rightarrow> string" where
  "index_to_mr index =
     (if index = INDEX_MRTD then ''MRTD''
      else if index = INDEX_RTMR0 then ''RTMR0''
      else if index = INDEX_RTMR1 then ''RTMR1''
      else if index = INDEX_RTMR2 then ''RTMR2''
      else if index = INDEX_RTMR3 then ''RTMR3''
      else if index = INDEX_MRSEAM then ''MRSEAM''
      else ''unknown'')"

definition tdx_entry :: "format_t \<Rightarrow> nat \<Rightarrow> string \<Rightarrow> string \<Rightarrow> string \<Rightarrow> string" where
  \<open>tdx_entry f index name hashstr desc = (case f of
     FORMAT_JSON \<Rightarrow>
       ''{'' @ nl @ tab @ ''"type":"TDX Reference Value",''
       @ nl @ tab @ ''"subtype":"'' @ name @ ''",''
       @ nl @ tab @ ''"index":'' @ dec index @ '',''
       @ nl @ tab @ ''"sha384":"'' @ hashstr @ ''",''
       @ nl @ tab @ ''"description":"'' @ index_to_mr index @ '': '' @ desc @ ''"''
       @ nl @ ''},'' @ nl
   | FORMAT_TEXT \<Rightarrow>
       ''subtype: '' @ name
       @ nl @ tab @ ''index: '' @ dec index
       @ nl @ tab @ ''sha384: '' @ hashstr
       @ nl @ tab @ ''description: '' @ index_to_mr index @ '': '' @ desc @ nl)\<close>

definition tdx_evlog_add :: "eventlog_t adder" where
  "tdx_evlog_add evl index name hash desc =
     and_then (rd hash 0 48) (\<lambda>h.
       append_slot evl index
         (snprintf 1024 (tdx_entry (fmt evl) index name (hex_string h) desc)))"

definition tdx_wf :: "eventlog_t \<Rightarrow> bool" where
  "tdx_wf evl \<longleftrightarrow> length (log evl) = MR_LEN"

definition tdx_log_entry :: "eventlog_t \<Rightarrow> nat \<Rightarrow> string \<Rightarrow> byte list \<Rightarrow> string \<Rightarrow> string" where
  "tdx_log_entry evl idx n h d =
     snprintf 1024 (tdx_entry (fmt evl) idx n (hex_string (take 48 h)) d)"

interpretation tdx: measurement_log tdx_evlog_add slot_text tdx_log_entry tdx_wf MR_LEN 48
proof
  fix l l' :: eventlog_t and idx n h d j
  show "\<exists>l'. tdx_evlog_add l idx n h d = Inr l'" if "tdx_wf l" "idx < MR_LEN" "48 \<le> length h"
    using that append_slot_total [of idx l] by (simp add: tdx_evlog_add_def tdx_wf_def)
  assume "tdx_wf l" and add: "tdx_evlog_add l idx n h d = Inr l'"
  then have app: "append_slot l idx (tdx_log_entry l idx n h d) = Inr l'"
    by (auto simp: tdx_evlog_add_def tdx_log_entry_def res_simps)
  show "tdx_wf l'" using append_slot_shape [OF app] \<open>tdx_wf l\<close> by (simp add: tdx_wf_def)
  show "slot_text l' idx = slot_text l idx @ tdx_log_entry l idx n h d"
    by (rule append_slot_text [OF app])
  show "slot_text l' j = slot_text l j" if "j \<noteq> idx"
    by (rule append_slot_frame [OF app that])
  show "tdx_log_entry l' = tdx_log_entry l"
    using append_slot_shape [OF app] by (simp add: tdx_log_entry_def fun_eq_iff)
qed

section \<open>Entries and JSON arrays\<close>

text \<open>
  Every JSON entry ends in the four characters that \<open>main\<close> relies on when it turns the
  last comma into the closing bracket: newline, brace, comma, newline.
\<close>

lemma srtm_entry_json_end:
  "\<exists>body. srtm_entry FORMAT_JSON i n h d = body @ nl @ ''},'' @ nl"
  by (auto simp: srtm_entry_def intro!: exI [of _ "_ @ _"])

definition empty_log :: "format_t \<Rightarrow> nat \<Rightarrow> eventlog_t" where
  "empty_log f n = \<lparr>fmt = f, log = replicate n None\<rparr>"

lemma empty_log_wf [simp]:
  "srtm_wf (empty_log f MAX_PCRS)" "tdx_wf (empty_log f MR_LEN)"
  by (simp_all add: empty_log_def srtm_wf_def tdx_wf_def)

lemma slot_text_empty [simp]: "slot_text (empty_log f n) i = []"
  by (simp add: empty_log_def slot_text_def)

text \<open>
  JSON arrays. The tools append \<open>,\<close> and a newline behind every object and finally replace
  the last comma by the closing bracket; the result is the array of the objects.
\<close>

fun join :: "string \<Rightarrow> string list \<Rightarrow> string" where
  "join sep [] = []"
| "join sep [x] = x"
| "join sep (x # y # xs) = x @ sep @ join sep (y # xs)"

definition json_array :: "string list \<Rightarrow> string" where
  "json_array objs = ''['' @ join ('','' @ nl) objs @ '']''"

definition with_comma :: "string \<Rightarrow> string" where
  "with_comma obj = obj @ '','' @ nl"

lemma with_comma_join:
  "objs \<noteq> [] \<Longrightarrow> concat (map with_comma objs) = join ('','' @ nl) objs @ '','' @ nl"
  by (induction "'','' @ nl" objs rule: join.induct) (auto simp: with_comma_def)

lemma close_array:
  assumes "objs \<noteq> []" and "l = concat (map with_comma objs)"
  shows "take (length l - 2) l @ '']'' = join ('','' @ nl) objs @ '']''"
  using assms by (simp add: with_comma_join nl_def)

end
