(* ===== verification/Acpi.thy ===== *)
theory Acpi
  imports Measure
begin

text \<open>
  \<^verbatim>\<open>src/common/acpi.c\<close>: the four QEMU configuration blobs measured as
  \<open>EV_PLATFORM_CONFIG_FLAGS\<close>. A blob is measured when its pointer is set and its size is
  positive; the order is table-loader, rsdp, TPM log, tables.
\<close>

record acpi_files_t =
  acpi_tables :: "byte list option"
  acpi_tables_size :: int
  acpi_rsdp :: "byte list option"
  acpi_rsdp_size :: int
  table_loader :: "byte list option"
  table_loader_size :: int
  tpm_log :: "byte list option"
  tpm_log_size :: int

definition calculate_acpi_tables ::
  "digest \<Rightarrow> 'l adder \<Rightarrow> evp_md \<Rightarrow> nat \<Rightarrow> acpi_files_t \<Rightarrow> 'l mstate \<Rightarrow> 'l mstate res" where
  "calculate_acpi_tables H add md mr_index cfg s0 =
     and_then (case table_loader cfg of Some b \<Rightarrow>
         if 0 < table_loader_size cfg then
           and_then (hash_buf H md b (nat (table_loader_size cfg))) (\<lambda>h.
             log_and_extend H add md mr_index ''EV_PLATFORM_CONFIG_FLAGS'' h ''etc/table-loader'' s0)
         else Inr s0 | None \<Rightarrow> Inr s0) (\<lambda>s1.
     and_then (case acpi_rsdp cfg of Some b \<Rightarrow>
         if 0 < acpi_rsdp_size cfg then
           and_then (hash_buf H md b (nat (acpi_rsdp_size cfg))) (\<lambda>h.
             log_and_extend H add md mr_index ''EV_PLATFORM_CONFIG_FLAGS'' h ''etc/acpi/rsdp'' s1)
         else Inr s1 | None \<Rightarrow> Inr s1) (\<lambda>s2.
     and_then (case tpm_log cfg of Some b \<Rightarrow>
         if 0 < tpm_log_size cfg then
           and_then (hash_buf H md b (nat (tpm_log_size cfg))) (\<lambda>h.
             log_and_extend H add md mr_index ''EV_PLATFORM_CONFIG_FLAGS'' h ''etc/tpm/log'' s2)
         else Inr s2 | None \<Rightarrow> Inr s2) (\<lambda>s3.
     (case acpi_tables cfg of Some b \<Rightarrow>
         if 0 < acpi_tables_size cfg then
           and_then (hash_buf H md b (nat (acpi_tables_size cfg))) (\<lambda>h.
             log_and_extend H add md mr_index ''EV_PLATFORM_CONFIG_FLAGS'' h ''etc/acpi/tables'' s3)
         else Inr s3 | None \<Rightarrow> Inr s3))))"

text \<open>Specification: the blobs present, in the firmware's order.\<close>

definition blob_event :: "digest \<Rightarrow> evp_md \<Rightarrow> byte list option \<Rightarrow> string \<Rightarrow> event list" where
  "blob_event H md blob desc = (case blob of None \<Rightarrow> []
     | Some b \<Rightarrow> if b = [] then [] else [(''EV_PLATFORM_CONFIG_FLAGS'', H md b, desc)])"

definition acpi_events :: "digest \<Rightarrow> evp_md \<Rightarrow> acpi_files_t \<Rightarrow> event list" where
  "acpi_events H md cfg =
     blob_event H md (table_loader cfg) ''etc/table-loader''
     @ blob_event H md (acpi_rsdp cfg) ''etc/acpi/rsdp''
     @ blob_event H md (tpm_log cfg) ''etc/tpm/log''
     @ blob_event H md (acpi_tables cfg) ''etc/acpi/tables''"

text \<open>What \<open>main\<close> establishes: the size field of a loaded blob is its length.\<close>

definition acpi_ok :: "acpi_files_t \<Rightarrow> bool" where
  "acpi_ok cfg \<longleftrightarrow>
     (\<forall>b. table_loader cfg = Some b \<longrightarrow> table_loader_size cfg = int (length b)) \<and>
     (\<forall>b. acpi_rsdp cfg = Some b \<longrightarrow> acpi_rsdp_size cfg = int (length b)) \<and>
     (\<forall>b. tpm_log cfg = Some b \<longrightarrow> tpm_log_size cfg = int (length b)) \<and>
     (\<forall>b. acpi_tables cfg = Some b \<longrightarrow> acpi_tables_size cfg = int (length b))"

lemma blob_step:
  assumes "digest_ok H" and "\<And>b. blob = Some b \<Longrightarrow> sz = int (length b)"
    and "length (mr s) = EVP_MD_size md"
  shows "(case blob of Some b \<Rightarrow> if 0 < sz then and_then (hash_buf H md b (nat sz)) (\<lambda>h.
             log_and_extend H add md idx ''EV_PLATFORM_CONFIG_FLAGS'' h desc s) else Inr s
           | None \<Rightarrow> Inr s) = measures H add md idx (blob_event H md blob desc) s"
  using assms
  by (cases blob) (simp_all add: blob_event_def hash_buf_def log_and_extend_measures)

lemma calculate_acpi_tables_measures:
  assumes "digest_ok H" and "acpi_ok cfg" and "length (mr s) = EVP_MD_size md"
  shows "calculate_acpi_tables H add md idx cfg s = measures H add md idx (acpi_events H md cfg) s"
  using assms(2) unfolding calculate_acpi_tables_def acpi_events_def acpi_ok_def
  by (simp add: blob_step [OF assms(1)] assms(3) and_then_measures [OF assms(1)])

lemma acpi_events_ok [simp]: "digest_ok H \<Longrightarrow> events_ok md (acpi_events H md cfg)"
  by (auto simp: acpi_events_def blob_event_def split: option.splits)

end
