(* ===== verification/SecureBoot.thy ===== *)
theory SecureBoot
  imports Measure
begin

text \<open>
  \<^verbatim>\<open>src/common/secureboot.c\<close>: building the \<open>UEFI_VARIABLE_DATA\<close> structure of an EFI
  variable and measuring it, and the five secure-boot variables in their fixed order.
\<close>

record variable_type_t =
  event_type :: string
  variable_name :: "char16 list"   \<comment> \<open>with its terminating zero\<close>
  vendor_guid :: guid
  var_path :: "string option"
  var_data :: "byte list option"
  data_size :: nat

definition gEfiGlobalVariableGuid :: guid where
  "gEfiGlobalVariableGuid = \<lparr>Data1 = 0x8BE4DF61, Data2 = 0x93CA, Data3 = 0x11d2,
     Data4 = [0xAA, 0x0D, 0x00, 0xE0, 0x98, 0x03, 0x2B, 0x8C]\<rparr>"

definition gEfiImageSecurityDatabaseGuid :: guid where
  "gEfiImageSecurityDatabaseGuid = \<lparr>Data1 = 0xd719b2cb, Data2 = 0x3d3a, Data3 = 0x4596,
     Data4 = [0xa3, 0xbc, 0xda, 0xd0, 0xe, 0x67, 0x65, 0x6f]\<rparr>"

text \<open>A \<^verbatim>\<open>u"..."\<close> literal.\<close>

definition u_literal :: "string \<Rightarrow> char16 list" where
  "u_literal s = map (\<lambda>c. of_nat (of_char c)) s @ [0]"

section \<open>The measured structure\<close>

text \<open>
  GUID, name length in characters, data length, name without terminator, data. A variable
  file starts with four attribute bytes that are skipped; for a shorter file the 64-bit size
  wraps and the copy runs out of bounds.
\<close>

definition create_uefi_variable :: "filesys \<Rightarrow> variable_type_t \<Rightarrow> byte list res" where
  "create_uefi_variable fs v =
     and_then (char16_strlen (variable_name v)) (\<lambda>name_len.
     and_then (case var_path v of
         Some p \<Rightarrow> and_then (read_file fs p) (\<lambda>tmpbuf. rd tmpbuf 4 (sub64 (length tmpbuf) 4))
       | None \<Rightarrow> (case var_data v of Some d \<Rightarrow> rd d 0 (data_size v) | None \<Rightarrow> Inr [])) (\<lambda>d.
       Inr (guid_bytes (vendor_guid v) @ to_le 8 name_len @ to_le 8 (length d)
            @ char16_bytes (take name_len (variable_name v)) @ d)))"

definition narrow_name :: "char16 list \<Rightarrow> string" where
  "narrow_name cs = chars (map (\<lambda>c. ucast (c AND 0xFF)) cs)"

definition measure_variable ::
  "digest \<Rightarrow> 'l adder \<Rightarrow> evp_md \<Rightarrow> nat \<Rightarrow> filesys \<Rightarrow> variable_type_t \<Rightarrow> 'l mstate \<Rightarrow> 'l mstate res" where
  "measure_variable H add md mr_index fs v s =
     and_then (char16_strlen (variable_name v)) (\<lambda>name_length.
     (case create_uefi_variable fs v of
        Inl e \<Rightarrow> Inl (case e of Fail _ \<Rightarrow> Fail (-1) | _ \<Rightarrow> e)
      | Inr d \<Rightarrow> and_then (hash_buf H md d (length d)) (\<lambda>h.
          log_and_extend H add md mr_index (event_type v) h
            (narrow_name (take name_length (variable_name v))) s)))"

definition secure_boot_vars ::
  "string option \<Rightarrow> string option \<Rightarrow> string option \<Rightarrow> string option \<Rightarrow> string option \<Rightarrow> variable_type_t list" where
  "secure_boot_vars secure_boot pk kek db dbx =
     [ \<lparr>event_type = ''EV_EFI_VARIABLE_DRIVER_CONFIG'', variable_name = u_literal ''SecureBoot'',
         vendor_guid = gEfiGlobalVariableGuid, var_path = secure_boot, var_data = None, data_size = 0\<rparr>,
       \<lparr>event_type = ''EV_EFI_VARIABLE_DRIVER_CONFIG'', variable_name = u_literal ''PK'',
         vendor_guid = gEfiGlobalVariableGuid, var_path = pk, var_data = None, data_size = 0\<rparr>,
       \<lparr>event_type = ''EV_EFI_VARIABLE_DRIVER_CONFIG'', variable_name = u_literal ''KEK'',
         vendor_guid = gEfiGlobalVariableGuid, var_path = kek, var_data = None, data_size = 0\<rparr>,
       \<lparr>event_type = ''EV_EFI_VARIABLE_DRIVER_CONFIG'', variable_name = u_literal ''db'',
         vendor_guid = gEfiImageSecurityDatabaseGuid, var_path = db, var_data = None, data_size = 0\<rparr>,
       \<lparr>event_type = ''EV_EFI_VARIABLE_DRIVER_CONFIG'', variable_name = u_literal ''dbx'',
         vendor_guid = gEfiImageSecurityDatabaseGuid, var_path = dbx, var_data = None, data_size = 0\<rparr> ]"

definition measure_secure_boot_variables ::
  "digest \<Rightarrow> 'l adder \<Rightarrow> evp_md \<Rightarrow> nat \<Rightarrow> filesys \<Rightarrow> string option \<Rightarrow> string option \<Rightarrow> string option
     \<Rightarrow> string option \<Rightarrow> string option \<Rightarrow> 'l mstate \<Rightarrow> 'l mstate res" where
  "measure_secure_boot_variables H add md mr_index fs secure_boot pk kek db dbx s =
     fold_res (measure_variable H add md mr_index fs) (secure_boot_vars secure_boot pk kek db dbx) s"

section \<open>Specification\<close>

text \<open>
  The data of a variable as the firmware stores it: the file behind its four attribute
  bytes, the given bytes, or nothing.
\<close>

definition variable_contents :: "filesys \<Rightarrow> variable_type_t \<Rightarrow> byte list" where
  "variable_contents fs v = (case var_path v of
     Some p \<Rightarrow> (case fs p of Some f \<Rightarrow> drop 4 f | None \<Rightarrow> [])
   | None \<Rightarrow> (case var_data v of Some d \<Rightarrow> take (data_size v) d | None \<Rightarrow> []))"

definition variable_ok :: "filesys \<Rightarrow> variable_type_t \<Rightarrow> bool" where
  "variable_ok fs v \<longleftrightarrow>
     (\<exists>name. variable_name v = u_literal name \<and> CHR 0x00 \<notin> set name)
     \<and> (case var_path v of
          Some p \<Rightarrow> (case fs p of Some f \<Rightarrow> 4 \<le> length f \<and> length f < 2 ^ 64 | None \<Rightarrow> False)
        | None \<Rightarrow> (case var_data v of Some d \<Rightarrow> data_size v \<le> length d | None \<Rightarrow> True))"

definition variable_structure :: "filesys \<Rightarrow> variable_type_t \<Rightarrow> byte list" where
  "variable_structure fs v =
     (let name = butlast (variable_name v); d = variable_contents fs v
      in guid_bytes (vendor_guid v) @ to_le 8 (length name) @ to_le 8 (length d)
         @ char16_bytes name @ d)"

definition variable_event :: "digest \<Rightarrow> evp_md \<Rightarrow> filesys \<Rightarrow> variable_type_t \<Rightarrow> event" where
  "variable_event H md fs v =
     (event_type v, H md (variable_structure fs v), narrow_name (butlast (variable_name v)))"

lemma u_literal_char16:
  assumes "CHR 0x00 \<notin> set s"
  shows "char16_strlen (u_literal s) = Inr (length s)"
proof -
  have "(of_nat (of_char c) :: char16) \<noteq> 0" if "c \<in> set s" for c
  proof
    assume "(of_nat (of_char c) :: char16) = 0"
    then have "unat (of_nat (of_char c) :: char16) = 0" by simp
    moreover have "unat (of_nat (of_char c) :: char16) = of_char c"
      using nat_of_char_less_256 [of c] by (simp add: unat_of_nat del: nat_of_char_less_256)
    ultimately have "(of_char c :: nat) = of_char (CHR 0x00)" by simp
    then show False using that assms by (metis of_char_eq_iff)
  qed
  then have "(0 :: char16) \<notin> set (map (\<lambda>c. of_nat (of_char c)) s)" by auto
  then show ?thesis unfolding u_literal_def
    using char16_strlen_append [of "map (\<lambda>c. of_nat (of_char c)) s" "[]"] by simp
qed

lemma variable_name_facts:
  assumes "variable_ok fs v"
  shows "char16_strlen (variable_name v) = Inr (length (butlast (variable_name v)))"
    and "take (length (butlast (variable_name v))) (variable_name v) = butlast (variable_name v)"
proof -
  obtain name where name: "variable_name v = u_literal name" "CHR 0x00 \<notin> set name"
    using assms by (auto simp: variable_ok_def)
  have len: "length (u_literal name) = Suc (length name)" by (simp add: u_literal_def)
  show "char16_strlen (variable_name v) = Inr (length (butlast (variable_name v)))"
    using u_literal_char16 [OF name(2)] by (simp add: name(1) len)
  show "take (length (butlast (variable_name v))) (variable_name v) = butlast (variable_name v)"
    by (simp add: butlast_conv_take)
qed

lemma create_uefi_variable_eq:
  assumes "variable_ok fs v"
  shows "create_uefi_variable fs v = Inr (variable_structure fs v)"
  using assms variable_name_facts [OF assms]
  by (auto simp: create_uefi_variable_def variable_structure_def variable_ok_def
      variable_contents_def read_file_def sub_small Let_def split: option.splits)

lemma measure_variable_measures_aux:
  assumes "digest_ok H" and "variable_ok fs v" and "length (mr s) = EVP_MD_size md"
  shows "measure_variable H add md idx fs v s = measures H add md idx [variable_event H md fs v] s"
  using assms create_uefi_variable_eq [OF assms(2)] variable_name_facts [OF assms(2)]
  by (simp add: measure_variable_def hash_buf_def variable_event_def log_and_extend_measures)

text \<open>
  Fact. A variable with a usable file, given data or no data is measured as exactly one
  event: the digest of the GUID, the name length in characters, the data length, the name
  without its terminator and the data, logged under the narrowed name and extended.
\<close>

theorem measure_variable_measures:
  assumes "digest_ok H" and "variable_ok fs v" and "length (mr s) = EVP_MD_size md"
  shows "measure_variable H add md idx fs v s = measures H add md idx [variable_event H md fs v] s"
  using assms by (rule measure_variable_measures_aux)

definition example_variable :: variable_type_t where
  "example_variable = \<lparr>event_type = ''EV_EFI_VARIABLE_DRIVER_CONFIG'', variable_name = u_literal ''db'',
     vendor_guid = gEfiImageSecurityDatabaseGuid, var_path = Some ''db.var'', var_data = None, data_size = 0\<rparr>"

lemma example_variable_ok: "variable_ok [''db.var'' \<mapsto> [7, 0, 0, 0, 1, 2]] example_variable"
  unfolding variable_ok_def example_variable_def by (auto intro!: exI [of _ "''db''"])

theorem measure_variable_measures_witness:
  "measure_variable sum_digest list_add EVP_sha256 7 [''db.var'' \<mapsto> [7, 0, 0, 0, 1, 2]] example_variable
      \<lparr>mr = zeros 32, evlog = []\<rparr>
    = measures sum_digest list_add EVP_sha256 7
      [variable_event sum_digest EVP_sha256 [''db.var'' \<mapsto> [7, 0, 0, 0, 1, 2]] example_variable]
      \<lparr>mr = zeros 32, evlog = []\<rparr>"
  by (rule measure_variable_measures [OF sum_digest_ok example_variable_ok]) simp

text \<open>The five variables together.\<close>

definition secure_boot_events ::
  "digest \<Rightarrow> evp_md \<Rightarrow> filesys \<Rightarrow> string option \<Rightarrow> string option \<Rightarrow> string option
     \<Rightarrow> string option \<Rightarrow> string option \<Rightarrow> event list" where
  "secure_boot_events H md fs secure_boot pk kek db dbx =
     map (variable_event H md fs) (secure_boot_vars secure_boot pk kek db dbx)"

definition var_file_ok :: "filesys \<Rightarrow> string option \<Rightarrow> bool" where
  "var_file_ok fs p = (case p of None \<Rightarrow> True
     | Some n \<Rightarrow> (case fs n of Some f \<Rightarrow> 4 \<le> length f \<and> length f < 2 ^ 64 | None \<Rightarrow> False))"

lemma literal_variable_ok:
  "\<lbrakk>CHR 0x00 \<notin> set nm; var_file_ok fs p\<rbrakk> \<Longrightarrow>
   variable_ok fs \<lparr>event_type = e, variable_name = u_literal nm, vendor_guid = g,
     var_path = p, var_data = None, data_size = 0\<rparr>"
  by (auto simp: variable_ok_def var_file_ok_def split: option.splits)

lemma secure_boot_vars_ok:
  assumes "list_all (var_file_ok fs) [secure_boot, pk, kek, db, dbx]"
    and "v \<in> set (secure_boot_vars secure_boot pk kek db dbx)"
  shows "variable_ok fs v"
proof -
  have files: "var_file_ok fs secure_boot" "var_file_ok fs pk" "var_file_ok fs kek"
    "var_file_ok fs db" "var_file_ok fs dbx" using assms(1) by simp_all
  show ?thesis
    using assms(2) unfolding secure_boot_vars_def list.set
    by (elim insertE emptyE) (simp_all only:, (rule literal_variable_ok, simp, rule files)+)
qed

lemma measure_secure_boot_variables_measures:
  assumes "digest_ok H" and "list_all (var_file_ok fs) [secure_boot, pk, kek, db, dbx]"
    and "length (mr s) = EVP_MD_size md"
  shows "measure_secure_boot_variables H add md idx fs secure_boot pk kek db dbx s
    = measures H add md idx (secure_boot_events H md fs secure_boot pk kek db dbx) s"
  unfolding measure_secure_boot_variables_def secure_boot_events_def
  by (rule fold_res_measures [OF assms(1) _ assms(3)],
      rule measure_variable_measures_aux [OF assms(1) secure_boot_vars_ok [OF assms(2)]])

lemma secure_boot_events_ok [simp]:
  "digest_ok H \<Longrightarrow> events_ok md (secure_boot_events H md fs secure_boot pk kek db dbx)"
  by (simp add: secure_boot_events_def secure_boot_vars_def variable_event_def)

end
