(* ===== verification/EfiBoot.thy ===== *)
theory EfiBoot
  imports Measure
begin

text \<open>
  \<^verbatim>\<open>src/common/efi_boot.c\<close>: the EFI device-path nodes and load option of the built-in
  \<open>Boot0000\<close> variable, and the measurement of \<open>BootOrder\<close> and the \<open>Boot####\<close> variables.
\<close>

definition MEDIA_PROTOCOL_TYPE :: byte where "MEDIA_PROTOCOL_TYPE = 4"
definition PIWG_FIRMWARE_FILE_SUBTYPE :: byte where "PIWG_FIRMWARE_FILE_SUBTYPE = 6"
definition PIWG_FIRMWARE_VOLUME_SUBTYPE :: byte where "PIWG_FIRMWARE_VOLUME_SUBTYPE = 7"
definition END_OF_PATH_TYPE :: byte where "END_OF_PATH_TYPE = 0x7F"

definition LOAD_OPTION_ACTIVE :: "32 word" where "LOAD_OPTION_ACTIVE = push_bit 0 1"
definition LOAD_OPTION_HIDDEN :: "32 word" where "LOAD_OPTION_HIDDEN = push_bit 3 1"
definition LOAD_OPTION_CATEGORY_APP :: "32 word" where "LOAD_OPTION_CATEGORY_APP = push_bit 8 1"

definition gFvNameGuid :: guid where
  "gFvNameGuid = \<lparr>Data1 = 0x7cb8bdc9, Data2 = 0xf8eb, Data3 = 0x4f34,
     Data4 = [0xaa, 0xea, 0x3e, 0xe4, 0xaf, 0x65, 0x16, 0xa1]\<rparr>"

definition gFileGuid :: guid where
  "gFileGuid = \<lparr>Data1 = 0x462caa21, Data2 = 0x7614, Data3 = 0x4503,
     Data4 = [0x83, 0x6e, 0x8a, 0xb6, 0xf4, 0x66, 0x23, 0x31]\<rparr>"

section \<open>Device path nodes and the load option\<close>

text \<open>
  The node length is computed in 16 bits. \<open>dest\<close> is the destination buffer (with its
  length \<open>destlen\<close>), \<open>None\<close> is the \<open>NULL\<close> data pointer.
\<close>

definition create_node ::
  "byte list \<Rightarrow> byte \<Rightarrow> byte \<Rightarrow> byte list option \<Rightarrow> nat \<Rightarrow> byte list res" where
  "create_node dest type subtype data datalen =
     (let len = u16 (datalen + (2 + 1 + 1)) in
      and_then (check (\<not> length dest < len) (Fail (-1))) (\<lambda>_.
      and_then (wr dest 0 [type]) (\<lambda>d.
      and_then (wr d 1 [subtype]) (\<lambda>d.
      and_then (wr d 2 (to_le 2 len)) (\<lambda>d.
      (case data of None \<Rightarrow> Inr d
       | Some x \<Rightarrow> and_then (rd x 0 datalen) (\<lambda>x. wr d 4 x)))))))"

definition create_file_path_list :: "byte list \<Rightarrow> byte list res" where
  "create_file_path_list dest =
     and_then (check (\<not> length dest < 44) (Fail (-1))) (\<lambda>_.
     and_then (create_node (zeros 20) MEDIA_PROTOCOL_TYPE PIWG_FIRMWARE_VOLUME_SUBTYPE
                 (Some (guid_bytes gFvNameGuid)) 16) (\<lambda>piwg_fv.
     and_then (create_node (zeros 20) MEDIA_PROTOCOL_TYPE PIWG_FIRMWARE_FILE_SUBTYPE
                 (Some (guid_bytes gFileGuid)) 16) (\<lambda>piwg_fw_file.
     and_then (create_node (zeros 4) END_OF_PATH_TYPE 0xff None 0) (\<lambda>end_of_path.
     and_then (wr dest 0 piwg_fv) (\<lambda>d.
     and_then (wr d (length piwg_fv) piwg_fw_file) (\<lambda>d.
       wr d (length piwg_fv + length piwg_fw_file) end_of_path))))))"

text \<open>The \<open>buf\<close> argument is the indeterminate contents of the two fresh buffers.\<close>

definition calculate_efi_load_option :: "byte list \<Rightarrow> byte list \<Rightarrow> (byte list \<times> nat) res" where
  "calculate_efi_load_option stack_buf heap_buf =
     (let attributes = LOAD_OPTION_ACTIVE OR LOAD_OPTION_HIDDEN OR LOAD_OPTION_CATEGORY_APP;
          description = map (\<lambda>c. of_nat (of_char c) :: char16) ''UiApp'' @ [0, 0]
      in
      and_then (char16_strlen description) (\<lambda>n.
      let description_size = (n + 1) * 2 in
      and_then (create_file_path_list stack_buf) (\<lambda>file_path_list.
      let len = 4 + 2 + description_size + length file_path_list in
      and_then (check (length heap_buf = len) OutOfBounds) (\<lambda>_.
      and_then (wr heap_buf 0 (to_le 4 (unat attributes))) (\<lambda>b.
      and_then (wr b 4 (to_le 2 (length file_path_list))) (\<lambda>b.
      and_then (rd (char16_bytes description) 0 description_size) (\<lambda>d.
      and_then (wr b (4 + 2) d) (\<lambda>b.
      and_then (wr b (4 + 2 + description_size) file_path_list) (\<lambda>b.
        Inr (b, len))))))))))"

definition load_option_bytes :: "byte list" where
  "load_option_bytes =
     [0x09, 0x01, 0, 0] @ [44, 0]
     @ [0x55, 0, 0x69, 0, 0x41, 0, 0x70, 0, 0x70, 0, 0, 0]
     @ [4, 7, 20, 0] @ guid_bytes gFvNameGuid
     @ [4, 6, 20, 0] @ guid_bytes gFileGuid
     @ [0x7F, 0xff, 4, 0]"

lemma length_guids [simp]:
  "length (guid_bytes gFvNameGuid) = 16" "length (guid_bytes gFileGuid) = 16"
  by (simp_all add: guid_bytes_def gFvNameGuid_def gFileGuid_def)

lemma length_load_option_bytes: "length load_option_bytes = 62"
  by (simp add: load_option_bytes_def)

lemma length_plus_4: "length xs = n + 4 \<Longrightarrow> \<exists>a b c d r. xs = a # b # c # d # r \<and> length r = n"
  by (auto simp: eval_nat_numeral length_Suc_conv)

lemma create_node_eq:
  assumes "length data < 65532" and "length dest = length data + 4"
  shows "create_node dest t st (Some data) (length data)
    = Inr ([t, st] @ to_le 2 (length data + 4) @ data)"
proof -
  obtain a b c d rest where dest: "dest = a # b # c # d # rest" and "length rest = length data"
    using length_plus_4 [OF assms(2)] by blast
  moreover have "Suc (Suc (Suc (Suc (length data)))) = length data + 4" by simp
  ultimately show ?thesis
    using assms(1) by (simp add: create_node_def dest wr_def Let_def)
qed

lemma create_node_guid:
  assumes "length data = 16"
  shows "create_node (zeros 20) t st (Some data) 16 = Inr ([t, st, 20, 0] @ data)"
  using create_node_eq [of data "zeros 20" t st] assms by (simp add: numeral_2_eq_2)

lemma create_node_end: "create_node (zeros 4) t st None 0 = Inr [t, st, 4, 0]"
proof -
  have z: "zeros 4 = [0, 0, 0, 0]" by (simp add: zeros_def eval_nat_numeral)
  show ?thesis by (simp add: create_node_def wr_def z Let_def)
qed

lemma create_file_path_list_eq:
  assumes "length dest = 44"
  shows "create_file_path_list dest = Inr ([4, 7, 20, 0] @ guid_bytes gFvNameGuid
    @ [4, 6, 20, 0] @ guid_bytes gFileGuid @ [0x7F, 0xff, 4, 0])"
  using assms
  by (simp add: create_file_path_list_def create_node_guid create_node_end wr_def
      MEDIA_PROTOCOL_TYPE_def PIWG_FIRMWARE_VOLUME_SUBTYPE_def PIWG_FIRMWARE_FILE_SUBTYPE_def
      END_OF_PATH_TYPE_def)

lemma load_option_attributes:
  "unat (LOAD_OPTION_ACTIVE OR LOAD_OPTION_HIDDEN OR LOAD_OPTION_CATEGORY_APP) = 0x109"
  by (simp add: LOAD_OPTION_ACTIVE_def LOAD_OPTION_HIDDEN_def LOAD_OPTION_CATEGORY_APP_def)

lemma load_option_layout_aux:
  assumes "length stack_buf = 44" and "length heap_buf = 62"
  shows "calculate_efi_load_option stack_buf heap_buf = Inr (load_option_bytes, 62)"
proof -
  have strlen: "char16_strlen (map (\<lambda>c. of_nat (of_char c) :: char16) ''UiApp'' @ [0, 0]) = Inr 5"
    by simp
  have attr: "to_le 4 0x109 = [0x09, 0x01, 0, 0]" by (simp add: numeral_2_eq_2)
  have len: "to_le 2 44 = [44, 0]" by simp
  have z: "replicate 2 (0 :: byte) = [0, 0]" by (simp add: numeral_2_eq_2)
  have desc: "char16_bytes (map (\<lambda>c. of_nat (of_char c) :: char16) ''UiApp'' @ [0, 0])
      = [0x55, 0, 0x69, 0, 0x41, 0, 0x70, 0, 0x70, 0, 0, 0] @ [0, 0]"
    by (simp add: char16_bytes_def z)
  show ?thesis
    using assms
    by (simp add: calculate_efi_load_option_def Let_def strlen create_file_path_list_eq
        load_option_attributes attr len desc z wr_def load_option_bytes_def del: map_map list.map)
qed

text \<open>
  Fact. The default load option never fails and is the EFI structure byte for byte: the
  attributes, the length 44 of the device path, the terminated UTF-16 description, and the
  three device-path nodes, 62 bytes in all, with no byte of the two uninitialised buffers
  left in it.
\<close>

theorem load_option_layout:
  assumes "length stack_buf = 44" and "length heap_buf = 62"
  shows "calculate_efi_load_option stack_buf heap_buf = Inr (load_option_bytes, 62)"
  using assms by (rule load_option_layout_aux)

theorem load_option_layout_witness:
  "calculate_efi_load_option (replicate 44 0xAA) (replicate 62 0xBB) = Inr (load_option_bytes, 62)"
  by (rule load_option_layout) simp_all

section \<open>Measuring the boot variables\<close>

text \<open>
  \<open>boot_order\<close> is the list of 16-bit option numbers, \<open>bootxxxx\<close> the list of variable files
  (\<open>None\<close> for the \<open>NULL\<close> array). Each file starts with four attribute bytes; for a shorter
  file the size wraps and the digest reads out of bounds.
\<close>

definition calculate_efi_boot_vars ::
  "digest \<Rightarrow> 'l adder \<Rightarrow> evp_md \<Rightarrow> nat \<Rightarrow> filesys \<Rightarrow> char16 list \<Rightarrow> string list option \<Rightarrow>
     'l mstate \<Rightarrow> 'l mstate res" where
  "calculate_efi_boot_vars H add md mr_index fs boot_order bootxxxx s =
     and_then (hash_buf H md (char16_bytes boot_order) (length boot_order * 2)) (\<lambda>h.
     and_then (log_and_extend H add md mr_index ''EV_EFI_VARIABLE_BOOT'' h
         ''VariableName - BootOrder, VendorGuid - 8BE4DF61-93CA-11D2-AA0D-00E098032B8C'' s) (\<lambda>s.
     (case bootxxxx of
        None \<Rightarrow> and_then (calculate_efi_load_option (zeros 44) (zeros 62)) (\<lambda>(buf, len).
          and_then (hash_buf H md buf len) (\<lambda>h.
            log_and_extend H add md mr_index ''EV_EFI_VARIABLE_BOOT'' h
              ''VariableName - Boot0000, VendorGuid - 8BE4DF61-93CA-11D2-AA0D-00E098032B8C'' s))
      | Some files \<Rightarrow> fold_res (\<lambda>file s.
          and_then (read_file fs file) (\<lambda>file_buf.
          and_then (rd file_buf 4 (sub64 (length file_buf) 4)) (\<lambda>d.
          and_then (hash_buf H md d (length d)) (\<lambda>h.
            log_and_extend H add md mr_index ''EV_EFI_VARIABLE_BOOT'' h
              ''VariableName - Boot####, VendorGuid - 8BE4DF61-93CA-11D2-AA0D-00E098032B8C'' s))))
          files s)))"

text \<open>
  The load option does not depend on the contents of the uninitialised buffers
  (\<open>load_option_layout\<close>), so the model passes zeros. Specification:
\<close>

definition boot_var_events ::
  "digest \<Rightarrow> evp_md \<Rightarrow> filesys \<Rightarrow> char16 list \<Rightarrow> string list option \<Rightarrow> event list" where
  "boot_var_events H md fs boot_order bootxxxx =
     (''EV_EFI_VARIABLE_BOOT'', H md (char16_bytes boot_order),
        ''VariableName - BootOrder, VendorGuid - 8BE4DF61-93CA-11D2-AA0D-00E098032B8C'')
     # (case bootxxxx of
          None \<Rightarrow> [(''EV_EFI_VARIABLE_BOOT'', H md load_option_bytes,
            ''VariableName - Boot0000, VendorGuid - 8BE4DF61-93CA-11D2-AA0D-00E098032B8C'')]
        | Some files \<Rightarrow> map (\<lambda>f. (''EV_EFI_VARIABLE_BOOT'', H md (drop 4 (the (fs f))),
            ''VariableName - Boot####, VendorGuid - 8BE4DF61-93CA-11D2-AA0D-00E098032B8C'')) files)"

definition boot_files_ok :: "filesys \<Rightarrow> string list option \<Rightarrow> bool" where
  "boot_files_ok fs bootxxxx = (case bootxxxx of None \<Rightarrow> True
     | Some files \<Rightarrow> (\<forall>f\<in>set files. \<exists>b. fs f = Some b \<and> 4 \<le> length b \<and> length b < 2 ^ 64))"

lemma load_option_zeros:
  "calculate_efi_load_option (zeros 44) (zeros 62) = Inr (load_option_bytes, 62)"
  by (rule load_option_layout_aux) simp_all

lemma calculate_efi_boot_vars_measures:
  assumes H: "digest_ok H" and files: "boot_files_ok fs bootxxxx" and mr: "length (mr s) = EVP_MD_size md"
  shows "calculate_efi_boot_vars H add md idx fs boot_order bootxxxx s
    = measures H add md idx (boot_var_events H md fs boot_order bootxxxx) s"
proof -
  let ?order = "(''EV_EFI_VARIABLE_BOOT'', H md (char16_bytes boot_order),
    ''VariableName - BootOrder, VendorGuid - 8BE4DF61-93CA-11D2-AA0D-00E098032B8C'')"
  obtain rest where rest: "boot_var_events H md fs boot_order bootxxxx = [?order] @ rest"
    by (auto simp: boot_var_events_def)
  have order: "hash_buf H md (char16_bytes boot_order) (length boot_order * 2)
      = Inr (H md (char16_bytes boot_order))" by (simp add: hash_buf_def)
  show ?thesis
    unfolding calculate_efi_boot_vars_def order rest and_then_simps
      log_and_extend_measures [OF H mr length_digest [OF H]]
  proof (rule and_then_measures [OF H mr])
    fix s' :: "'a mstate" assume s': "length (mr s') = EVP_MD_size md"
    show "(case bootxxxx of
        None \<Rightarrow> and_then (calculate_efi_load_option (zeros 44) (zeros 62)) (\<lambda>(buf, len).
          and_then (hash_buf H md buf len) (\<lambda>h.
            log_and_extend H add md idx ''EV_EFI_VARIABLE_BOOT'' h
              ''VariableName - Boot0000, VendorGuid - 8BE4DF61-93CA-11D2-AA0D-00E098032B8C'' s'))
      | Some files \<Rightarrow> fold_res (\<lambda>file s.
          and_then (read_file fs file) (\<lambda>file_buf.
          and_then (rd file_buf 4 (sub64 (length file_buf) 4)) (\<lambda>d.
          and_then (hash_buf H md d (length d)) (\<lambda>h.
            log_and_extend H add md idx ''EV_EFI_VARIABLE_BOOT'' h
              ''VariableName - Boot####, VendorGuid - 8BE4DF61-93CA-11D2-AA0D-00E098032B8C'' s))))
          files s') = measures H add md idx rest s'"
    proof (cases bootxxxx)
      case None
      with rest show ?thesis
        by (simp add: boot_var_events_def load_option_zeros hash_buf_def length_load_option_bytes
            log_and_extend_measures [OF H s'] H)
    next
      case (Some fl)
      with rest have r: "rest = map (\<lambda>f. (''EV_EFI_VARIABLE_BOOT'', H md (drop 4 (the (fs f))),
            ''VariableName - Boot####, VendorGuid - 8BE4DF61-93CA-11D2-AA0D-00E098032B8C'')) fl"
        by (simp add: boot_var_events_def)
      have ok: "\<And>f. f \<in> set fl \<Longrightarrow> \<exists>b. fs f = Some b \<and> 4 \<le> length b \<and> length b < 2 ^ 64"
        using files Some by (simp add: boot_files_ok_def)
      show ?thesis unfolding Some option.case r
        by (rule fold_res_measures [OF H _ s'])
           (auto dest!: ok simp: read_file_def sub_small hash_buf_def log_and_extend_measures H)
    qed
  qed
qed

lemma boot_var_events_ok [simp]:
  "digest_ok H \<Longrightarrow> events_ok md (boot_var_events H md fs boot_order bootxxxx)"
  by (auto simp: boot_var_events_def events_ok_def split: option.splits)

text \<open>
  Fact. A boot variable file of fewer than four bytes makes the 64-bit size \<open>file_size - 4\<close>
  wrap to almost 2^64, and the digest reads far outside the file buffer.
\<close>

theorem short_boot_file_out_of_bounds:
  assumes "digest_ok H" and "length (mr s) = EVP_MD_size md" and "fs f = Some b" and "length b < 4"
    and "add (evlog s) idx ''EV_EFI_VARIABLE_BOOT'' (H md (char16_bytes order))
      ''VariableName - BootOrder, VendorGuid - 8BE4DF61-93CA-11D2-AA0D-00E098032B8C'' = Inr l"
  shows "calculate_efi_boot_vars H add md idx fs order (Some (f # files)) s = Inl OutOfBounds"
proof -
  have wrap: "sub64 (length b) 4 = 2 ^ 64 + length b - 4" using assms(4) by (intro sub64_wraps) auto
  have "length b < 4 + sub64 (length b) 4" unfolding wrap by simp
  then have "rd b 4 (sub64 (length b) 4) = Inl OutOfBounds" by simp
  then show ?thesis
    using assms(1,2,3,5)
    by (simp add: calculate_efi_boot_vars_def hash_buf_def log_and_extend_def hash_extend_is_extend_aux
        read_file_def)
qed

theorem short_boot_file_out_of_bounds_witness:
  "calculate_efi_boot_vars sum_digest list_add EVP_sha256 1 [''Boot0000'' \<mapsto> [7, 0]] [0]
     (Some [''Boot0000'']) \<lparr>mr = zeros 32, evlog = []\<rparr> = Inl OutOfBounds"
  by (rule short_boot_file_out_of_bounds [OF sum_digest_ok, of _ _ _ "''Boot0000''" "[7, 0]"])
     (simp_all add: list_add_def)

end
