(* ===== verification/PeCoff.thy ===== *)
theory PeCoff
  imports Hash "HOL-Library.Multiset"
begin

text \<open>
  \<^verbatim>\<open>src/thirdparty/edk2/MeasureBootPeCoff.c\<close>, the project's modified EDK II file: parsing and
  checking a PE/COFF or TE image, and its Authenticode measurement. The parser reads the
  image only through the function pointer \<open>ImageContext->ImageRead\<close>; its contract is the
  locale \<open>image_reader\<close>, met by \<open>Tcg2DxeImageRead\<close>. An EFI error status
  \<open>ENCODE_ERROR(n)\<close> is \<open>Fail n\<close>. The field \<open>ImageError\<close>, which no caller reads, is left out.
\<close>

section \<open>Layout of the image structures\<close>

abbreviation RETURN_INVALID_PARAMETER :: fault where "RETURN_INVALID_PARAMETER \<equiv> Fail 2"
abbreviation RETURN_UNSUPPORTED :: fault where "RETURN_UNSUPPORTED \<equiv> Fail 3"

text \<open>Little-endian fields of a structure held in a local buffer.\<close>

definition f8 :: "byte list \<Rightarrow> nat \<Rightarrow> nat" where "f8 b off = le (take 1 (drop off b))"
definition f16 :: "byte list \<Rightarrow> nat \<Rightarrow> nat" where "f16 b off = le (take 2 (drop off b))"
definition f32 :: "byte list \<Rightarrow> nat \<Rightarrow> nat" where "f32 b off = le (take 4 (drop off b))"
definition f64 :: "byte list \<Rightarrow> nat \<Rightarrow> nat" where "f64 b off = le (take 8 (drop off b))"

lemma f_bounds: "f8 b off < 2 ^ 8" "f16 b off < 2 ^ 16" "f32 b off < 2 ^ 32" "f64 b off < 2 ^ 64"
  using le_take_bound [of 1 "drop off b"] le_take_bound [of 2 "drop off b"]
    le_take_bound [of 4 "drop off b"] le_take_bound [of 8 "drop off b"]
  by (simp_all add: f8_def f16_def f32_def f64_def)

definition EFI_IMAGE_DOS_SIGNATURE :: nat where "EFI_IMAGE_DOS_SIGNATURE = 0x5A4D"
definition EFI_IMAGE_NT_SIGNATURE :: nat where "EFI_IMAGE_NT_SIGNATURE = 0x00004550"
definition EFI_TE_IMAGE_HEADER_SIGNATURE :: nat where "EFI_TE_IMAGE_HEADER_SIGNATURE = 0x5A56"
definition HDR32_MAGIC :: nat where "HDR32_MAGIC = 0x10b"
definition HDR64_MAGIC :: nat where "HDR64_MAGIC = 0x20b"

text \<open>DOS header (64 bytes).\<close>

definition e_magic :: "byte list \<Rightarrow> nat" where "e_magic dos = f16 dos 0"
definition e_lfanew :: "byte list \<Rightarrow> nat" where "e_lfanew dos = f32 dos 60"

text \<open>
  The header union (264 bytes): PE signature and file header, then the optional header at
  offset 24. PE32 and PE32+ share the fields below; they differ in where the directory
  count and the data directory lie, which \<open>dir_base\<close> gives (96 and 112).
\<close>

definition pe_Signature :: "byte list \<Rightarrow> nat" where "pe_Signature h = f32 h 0"
definition pe_Machine :: "byte list \<Rightarrow> nat" where "pe_Machine h = f16 h 4"
definition NumberOfSections :: "byte list \<Rightarrow> nat" where "NumberOfSections h = f16 h 6"
definition SizeOfOptionalHeader :: "byte list \<Rightarrow> nat" where "SizeOfOptionalHeader h = f16 h 20"
definition Characteristics :: "byte list \<Rightarrow> nat" where "Characteristics h = f16 h 22"
definition pe_Magic :: "byte list \<Rightarrow> nat" where "pe_Magic h = f16 h 24"
definition SectionAlignment :: "byte list \<Rightarrow> nat" where "SectionAlignment h = f32 h (24 + 32)"
definition SizeOfImage :: "byte list \<Rightarrow> nat" where "SizeOfImage h = f32 h (24 + 56)"
definition SizeOfHeaders :: "byte list \<Rightarrow> nat" where "SizeOfHeaders h = f32 h (24 + 60)"
definition pe_Subsystem :: "byte list \<Rightarrow> nat" where "pe_Subsystem h = f16 h (24 + 68)"

definition CheckSum_off :: nat where "CheckSum_off = 24 + 64"

definition dir_base :: "byte list \<Rightarrow> nat" where
  "dir_base h = (if pe_Magic h = HDR32_MAGIC then 96 else 112)"

definition NumberOfRvaAndSizes :: "byte list \<Rightarrow> nat" where
  "NumberOfRvaAndSizes h = f32 h (24 + dir_base h - 4)"

definition dir_off :: "byte list \<Rightarrow> nat \<Rightarrow> nat" where "dir_off h i = 24 + dir_base h + 8 * i"
definition dir_VirtualAddress :: "byte list \<Rightarrow> nat \<Rightarrow> nat" where
  "dir_VirtualAddress h i = f32 h (dir_off h i)"
definition dir_Size :: "byte list \<Rightarrow> nat \<Rightarrow> nat" where
  "dir_Size h i = f32 h (dir_off h i + 4)"

definition ImageBase :: "byte list \<Rightarrow> nat" where
  "ImageBase h = (if pe_Magic h = HDR32_MAGIC then f32 h (24 + 28) else f64 h (24 + 24))"

text \<open>TE header (40 bytes).\<close>

definition te_Signature :: "byte list \<Rightarrow> nat" where "te_Signature h = f16 h 0"
definition te_Machine :: "byte list \<Rightarrow> nat" where "te_Machine h = f16 h 2"
definition te_NumberOfSections :: "byte list \<Rightarrow> nat" where "te_NumberOfSections h = f8 h 4"
definition te_Subsystem :: "byte list \<Rightarrow> nat" where "te_Subsystem h = f8 h 5"
definition te_StrippedSize :: "byte list \<Rightarrow> nat" where "te_StrippedSize h = f16 h 6"
definition te_BaseOfCode :: "byte list \<Rightarrow> nat" where "te_BaseOfCode h = f32 h 12"
definition te_ImageBase :: "byte list \<Rightarrow> nat" where "te_ImageBase h = f64 h 16"
definition te_dir_VA :: "byte list \<Rightarrow> nat \<Rightarrow> nat" where "te_dir_VA h i = f32 h (24 + 8 * i)"
definition te_dir_Size :: "byte list \<Rightarrow> nat \<Rightarrow> nat" where "te_dir_Size h i = f32 h (28 + 8 * i)"

text \<open>Section headers (40 bytes) and debug directory entries (28 bytes).\<close>

definition VirtualSize :: "byte list \<Rightarrow> nat" where "VirtualSize s = f32 s 8"
definition VirtualAddress :: "byte list \<Rightarrow> nat" where "VirtualAddress s = f32 s 12"
definition SizeOfRawData :: "byte list \<Rightarrow> nat" where "SizeOfRawData s = f32 s 16"
definition PointerToRawData :: "byte list \<Rightarrow> nat" where "PointerToRawData s = f32 s 20"
definition dbg_Type :: "byte list \<Rightarrow> nat" where "dbg_Type d = f32 d 12"
definition dbg_SizeOfData :: "byte list \<Rightarrow> nat" where "dbg_SizeOfData d = f32 d 16"
definition dbg_RVA :: "byte list \<Rightarrow> nat" where "dbg_RVA d = f32 d 20"
definition dbg_FileOffset :: "byte list \<Rightarrow> nat" where "dbg_FileOffset d = f32 d 24"

section \<open>Reading the image\<close>

text \<open>
  \<open>read off n\<close> is \<open>ImageRead(Handle, off, &n, buf)\<close>: an error status, or the bytes
  actually read (whose number is the updated \<open>*ReadSize\<close>).
\<close>

type_synonym image_read = "nat \<Rightarrow> nat \<Rightarrow> byte list res"

definition MAX_ADDRESS :: nat where "MAX_ADDRESS = 2 ^ 64 - 1"

definition Tcg2DxeImageRead :: "byte list \<Rightarrow> image_read" where
  "Tcg2DxeImageRead img FileOffset ReadSize =
     (if sub64 MAX_ADDRESS FileOffset < ReadSize then Inl RETURN_INVALID_PARAMETER
      else
        let mTcg2DxeImageSize = length img;
            EndPosition = u64 (FileOffset + ReadSize);
            size1 = (if EndPosition > mTcg2DxeImageSize
                     then u32 (sub64 mTcg2DxeImageSize FileOffset) else ReadSize);
            size2 = (if FileOffset \<ge> mTcg2DxeImageSize then 0 else size1)
        in if size2 = 0 then Inr [] else rd img FileOffset size2)"

text \<open>
  The idiom that follows every read in the parser: an error status is returned as it is, a
  short read becomes the given status.
\<close>

definition read_exact :: "image_read \<Rightarrow> fault \<Rightarrow> nat \<Rightarrow> nat \<Rightarrow> byte list res" where
  "read_exact read short off n =
     and_then (read off n) (\<lambda>d. if length d \<noteq> n then Inl short else Inr d)"

text \<open>
  The contract of \<open>ImageRead\<close> for an image of less than 4 GiB: for an offset of 64 bits
  and a size of 32 bits, the bytes of the image that the range holds, or an error status;
  the error is impossible for offsets of 32 bits.
\<close>

locale image_reader =
  fixes reader :: "byte list \<Rightarrow> image_read"
  assumes read_bytes: "\<lbrakk>length img < 2 ^ 32; off < 2 ^ 64; n < 2 ^ 32\<rbrakk>
      \<Longrightarrow> reader img off n = Inr (take n (drop off img)) \<or> reader img off n = Inl RETURN_INVALID_PARAMETER"
    and read_total: "\<lbrakk>length img < 2 ^ 32; off < 2 ^ 33; n < 2 ^ 32\<rbrakk>
      \<Longrightarrow> reader img off n = Inr (take n (drop off img))"
begin

lemma read_exact_Inr:
  "\<lbrakk>read_exact (reader img) short off n = Inr d; length img < 2 ^ 32; 0 < n; off < 2 ^ 64; n < 2 ^ 32\<rbrakk>
    \<Longrightarrow> off + n \<le> length img \<and> d = take n (drop off img)"
  using read_bytes [of img off n] by (auto simp: read_exact_def res_simps split: if_splits)

lemma read_exact_safe:
  "\<lbrakk>read_exact (reader img) (Fail k) off n = Inl e; length img < 2 ^ 32; off < 2 ^ 64; n < 2 ^ 32\<rbrakk>
    \<Longrightarrow> \<exists>j. e = Fail j"
  using read_bytes [of img off n] by (auto simp: read_exact_def split: if_splits)

lemma read_exact_graceful:
  "\<lbrakk>length img < 2 ^ 32; off < 2 ^ 64; n < 2 ^ 32\<rbrakk> \<Longrightarrow> graceful (read_exact (reader img) (Fail k) off n)"
  using read_exact_safe [of img k off n] by (auto simp: graceful_def)

lemma read_exact_eq:
  "\<lbrakk>length img < 2 ^ 32; 0 < n; off < 2 ^ 33; n < 2 ^ 32\<rbrakk> \<Longrightarrow> read_exact (reader img) short off n
     = (if off + n \<le> length img then Inr (take n (drop off img)) else Inl short)"
  by (auto simp: read_exact_def read_total)

end

lemma Tcg2DxeImageRead_cases:
  assumes "length img < 2 ^ 64" and "off < 2 ^ 64" and "n < 2 ^ 32"
  shows "Tcg2DxeImageRead img off n =
    (if 2 ^ 64 - 1 < off + n then Inl RETURN_INVALID_PARAMETER
     else Inr (take n (drop off img)))"
proof -
  have s: "sub64 MAX_ADDRESS off = 2 ^ 64 - 1 - off"
    using assms(2) by (simp add: MAX_ADDRESS_def sub_small)
  show ?thesis
  proof (cases "2 ^ 64 - 1 < off + n")
    case True
    then have "sub64 MAX_ADDRESS off < n" using s assms(2) by simp
    with True show ?thesis by (simp add: Tcg2DxeImageRead_def)
  next
    case False
    then have e: "u64 (off + n) = off + n" by simp
    have "u32 (sub64 (length img) off) = length img - off"
      if "off \<le> length img" "length img < off + n"
      using that assms by (simp add: sub_small)
    then show ?thesis
      using False s assms(2) e
      by (auto simp: Tcg2DxeImageRead_def Let_def)
  qed
qed

interpretation tcg2: image_reader Tcg2DxeImageRead
  by unfold_locales (auto simp: Tcg2DxeImageRead_cases)

section \<open>The image context and the header checks\<close>

record image_context =
  PeCoffHeaderOffset :: nat
  IsTeImage :: bool
  ic_Machine :: nat
  ImageType :: nat
  ImageSize :: nat
  ic_SectionAlignment :: nat
  ic_SizeOfHeaders :: nat
  ImageAddress :: nat
  DestinationAddress :: nat
  DebugDirectoryEntryRva :: nat
  RelocationsStripped :: bool

definition zero_context :: image_context where
  "zero_context = \<lparr>PeCoffHeaderOffset = 0, IsTeImage = False, ic_Machine = 0, ImageType = 0,
     ImageSize = 0, ic_SectionAlignment = 0, ic_SizeOfHeaders = 0, ImageAddress = 0,
     DestinationAddress = 0, DebugDirectoryEntryRva = 0, RelocationsStripped = False\<rparr>"

definition PeCoffLoaderAdjustOffsetForTeImage :: "nat \<times> nat \<Rightarrow> nat \<Rightarrow> nat \<times> nat" where
  "PeCoffLoaderAdjustOffsetForTeImage hdr TeStrippedOffset =
     (case hdr of (va, ptr) \<Rightarrow> (sub32 va TeStrippedOffset, sub32 ptr TeStrippedOffset))"

definition PeCoffLoaderImageFormatSupported :: "nat \<Rightarrow> bool" where
  "PeCoffLoaderImageFormatSupported machine \<longleftrightarrow>
     machine = 0x014c \<or> machine = 0x8664 \<or> machine = 0x0EBC \<or> machine = 0xAA64"

definition EFI_IMAGE_SIZEOF_SECTION_HEADER :: nat where "EFI_IMAGE_SIZEOF_SECTION_HEADER = 40"
definition SECURITY :: nat where "SECURITY = 4"
definition DEBUG_DIR :: nat where "DEBUG_DIR = 6"
definition UINT32_MAX :: nat where "UINT32_MAX = 4294967295"

definition section_header_offset :: "nat \<Rightarrow> byte list \<Rightarrow> nat" where
  "section_header_offset pe h = u32 (pe + 4 + 20 + SizeOfOptionalHeader h)"

text \<open>The TE branch of \<open>PeCoffLoaderGetPeHeader\<close>.\<close>

definition check_te :: "image_read \<Rightarrow> byte list \<Rightarrow> image_context \<Rightarrow> image_context res" where
  "check_te read h ic =
     (let soh = sub64 (40 + te_BaseOfCode h) (te_StrippedSize h) in
      and_then (check (\<not> 40 \<ge> te_StrippedSize h) RETURN_UNSUPPORTED) (\<lambda>_.
      and_then (check (\<not> te_BaseOfCode h \<le> te_StrippedSize h) RETURN_UNSUPPORTED) (\<lambda>_.
      and_then (read_exact read RETURN_UNSUPPORTED (sub64 soh 1) 1) (\<lambda>_.
      and_then (check (\<not> (te_dir_Size h 0 \<noteq> 0 \<and> te_dir_VA h 0 = 0 \<or>
                          te_dir_Size h 1 \<noteq> 0 \<and> te_dir_VA h 1 = 0)) RETURN_UNSUPPORTED) (\<lambda>_.
        Inr (ic\<lparr>IsTeImage := True, ic_Machine := te_Machine h, ImageType := te_Subsystem h,
                ImageSize := 0, ic_SectionAlignment := 0, ic_SizeOfHeaders := soh\<rparr>))))))"

text \<open>
  The PE32 and PE32+ branches, which differ only in \<open>dir_base\<close>: the numbered checks of
  the source, then the security directory.
\<close>

definition check_pe :: "image_read \<Rightarrow> byte list \<Rightarrow> image_context \<Rightarrow> image_context res" where
  "check_pe read h ic =
     (let sho = section_header_offset (PeCoffHeaderOffset ic) h;
          va = dir_VirtualAddress h SECURITY; sz = dir_Size h SECURITY in
      and_then (check (\<not> 16 < NumberOfRvaAndSizes h) RETURN_UNSUPPORTED) (\<lambda>_.
      and_then (check (\<not> sub32 (SizeOfOptionalHeader h) (dir_base h) \<noteq> NumberOfRvaAndSizes h * 8)
                  RETURN_UNSUPPORTED) (\<lambda>_.
      and_then (check (\<not> SizeOfImage h \<le> sho) RETURN_UNSUPPORTED) (\<lambda>_.
      and_then (check (\<not> (SizeOfImage h - sho) div EFI_IMAGE_SIZEOF_SECTION_HEADER \<le> NumberOfSections h)
                  RETURN_UNSUPPORTED) (\<lambda>_.
      and_then (check (\<not> SizeOfHeaders h \<le> sho) RETURN_UNSUPPORTED) (\<lambda>_.
      and_then (check (\<not> SizeOfHeaders h \<ge> SizeOfImage h) RETURN_UNSUPPORTED) (\<lambda>_.
      and_then (check (\<not> (SizeOfHeaders h - sho) div EFI_IMAGE_SIZEOF_SECTION_HEADER < NumberOfSections h)
                  RETURN_UNSUPPORTED) (\<lambda>_.
      and_then (read_exact read RETURN_UNSUPPORTED (SizeOfHeaders h - 1) 1) (\<lambda>_.
      and_then (if SECURITY < NumberOfRvaAndSizes h \<and> sz \<noteq> 0
                then and_then (check (\<not> UINT32_MAX - va < sz) RETURN_UNSUPPORTED) (\<lambda>_.
                     and_then (read_exact read RETURN_UNSUPPORTED (u32 (va + sz - 1)) 1) (\<lambda>_. Inr ()))
                else Inr ()) (\<lambda>_.
        Inr (ic\<lparr>ImageType := pe_Subsystem h, ImageSize := SizeOfImage h,
                ic_SectionAlignment := SectionAlignment h, ic_SizeOfHeaders := SizeOfHeaders h\<rparr>)
      ))))))))))"

text \<open>The body of the section loop for one header \<open>s\<close>, and the loop.\<close>

definition check_section :: "image_read \<Rightarrow> image_context \<Rightarrow> nat \<Rightarrow> byte list \<Rightarrow> unit res" where
  "check_section read ic stripped s =
     (case (if IsTeImage ic
            then PeCoffLoaderAdjustOffsetForTeImage (VirtualAddress s, PointerToRawData s) stripped
            else (VirtualAddress s, PointerToRawData s)) of (va, ptr) \<Rightarrow>
      if SizeOfRawData s > 0 then
        and_then (check (\<not> (va < ic_SizeOfHeaders ic \<or> ptr < ic_SizeOfHeaders ic)) RETURN_UNSUPPORTED) (\<lambda>_.
        and_then (check (\<not> UINT32_MAX - ptr < SizeOfRawData s) RETURN_UNSUPPORTED) (\<lambda>_.
        and_then (read_exact read RETURN_UNSUPPORTED (u32 (ptr + SizeOfRawData s - 1)) 1) (\<lambda>_.
          Inr ())))
      else Inr ())"

fun check_sections :: "image_read \<Rightarrow> image_context \<Rightarrow> nat \<Rightarrow> nat \<Rightarrow> nat \<Rightarrow> unit res" where
  "check_sections read ic stripped 0 off = Inr ()"
| "check_sections read ic stripped (Suc n) off =
     and_then (read_exact read RETURN_UNSUPPORTED off 40) (\<lambda>s.
     and_then (check_section read ic stripped s) (\<lambda>_.
       check_sections read ic stripped n (u32 (off + 40))))"

definition PeCoffLoaderGetPeHeader ::
  "image_read \<Rightarrow> image_context \<Rightarrow> (image_context \<times> byte list) res" where
  "PeCoffLoaderGetPeHeader read ic0 =
     and_then (read_exact read RETURN_UNSUPPORTED 0 64) (\<lambda>dos.
     let pe = (if e_magic dos = EFI_IMAGE_DOS_SIGNATURE then e_lfanew dos else 0);
         ic = ic0\<lparr>PeCoffHeaderOffset := pe\<rparr> in
     and_then (read_exact read RETURN_UNSUPPORTED pe 264) (\<lambda>h.
     and_then
       (if te_Signature h = EFI_TE_IMAGE_HEADER_SIGNATURE then check_te read h ic
        else if pe_Signature h = EFI_IMAGE_NT_SIGNATURE then
          (let ic = ic\<lparr>IsTeImage := False, ic_Machine := pe_Machine h\<rparr> in
           if pe_Magic h = HDR32_MAGIC \<or> pe_Magic h = HDR64_MAGIC then check_pe read h ic
           else Inl RETURN_UNSUPPORTED)
        else Inl RETURN_UNSUPPORTED) (\<lambda>ic.
     and_then (check (PeCoffLoaderImageFormatSupported (ic_Machine ic)) RETURN_UNSUPPORTED) (\<lambda>_.
     let (sho, n) = (if IsTeImage ic then (40, te_NumberOfSections h)
                     else (section_header_offset pe h, NumberOfSections h)) in
     and_then (check_sections read ic (sub32 (te_StrippedSize h) 40) n sho) (\<lambda>_.
       Inr (ic, h))))))"

section \<open>Image information and the debug directory\<close>

text \<open>The search for the section that holds the debug directory (PE branch).\<close>

fun find_debug :: "image_read \<Rightarrow> nat \<Rightarrow> nat \<Rightarrow> nat \<Rightarrow> nat res" where
  "find_debug read rva 0 off = Inr 0"
| "find_debug read rva (Suc n) off =
     and_then (read_exact read (Fail (-1)) off 40) (\<lambda>s.
       if rva \<ge> VirtualAddress s \<and> rva < u32 (VirtualAddress s + VirtualSize s)
       then Inr (u64 (rva - VirtualAddress s + PointerToRawData s))
       else find_debug read rva n (u64 (off + 40)))"

text \<open>
  The walk over the debug directory entries: the index and the entry of the first CODEVIEW
  record, if any.
\<close>

definition EFI_IMAGE_DEBUG_TYPE_CODEVIEW :: nat where "EFI_IMAGE_DEBUG_TYPE_CODEVIEW = 2"

function walk_debug :: "image_read \<Rightarrow> nat \<Rightarrow> nat \<Rightarrow> nat \<Rightarrow> (nat \<times> byte list) option res" where
  "walk_debug read off sz index =
     (if index < sz then
        and_then (read_exact read (Fail (-1)) (u64 (off + index)) 28) (\<lambda>d.
          if dbg_Type d = EFI_IMAGE_DEBUG_TYPE_CODEVIEW then Inr (Some (index, d))
          else walk_debug read off sz (index + 28))
      else Inr None)"
  by pat_completeness auto
termination by (relation "measure (\<lambda>(read, off, sz, index). sz - index)") auto

declare walk_debug.simps [simp del]

definition info_pe :: "image_read \<Rightarrow> byte list \<Rightarrow> image_context \<Rightarrow> image_context res" where
  "info_pe read h ic =
     (if NumberOfRvaAndSizes h > DEBUG_DIR then
        let rva = dir_VirtualAddress h DEBUG_DIR in
        and_then (find_debug read rva (NumberOfSections h)
            (u64 (PeCoffHeaderOffset ic + 4 + 20 + SizeOfOptionalHeader h))) (\<lambda>fo.
        if fo \<noteq> 0 then
          and_then (walk_debug read fo (dir_Size h DEBUG_DIR) 0) (\<lambda>found.
            case found of None \<Rightarrow> Inr ic
            | Some (index, d) \<Rightarrow>
                let ic = ic\<lparr>DebugDirectoryEntryRva := u32 (rva + index)\<rparr> in
                Inr (if dbg_RVA d = 0 \<and> dbg_FileOffset d \<noteq> 0
                     then ic\<lparr>ImageSize := u64 (ImageSize ic + dbg_SizeOfData d)\<rparr> else ic))
        else Inr ic)
      else Inr ic)"

text \<open>
  The section loop of the TE branch: the index jumps to the last section once the debug
  directory is found; the result is the directory's file offset and the image size.
\<close>

function te_sections ::
  "image_read \<Rightarrow> nat \<Rightarrow> nat \<Rightarrow> nat \<Rightarrow> nat \<Rightarrow> nat \<Rightarrow> nat \<Rightarrow> nat \<Rightarrow> (nat \<times> nat) res" where
  "te_sections read rva stripped n index off fo sz =
     (if index < n then
        and_then (read_exact read (Fail (-1)) off 40) (\<lambda>s.
          let hit = (rva \<ge> VirtualAddress s \<and> rva < u32 (VirtualAddress s + VirtualSize s));
              fo = (if hit then sub64 (rva - VirtualAddress s + PointerToRawData s) stripped else fo)
          in if hit \<and> index < n - 1
             then te_sections read rva stripped n (n - 1) (off + (n - 1 - index) * 40) fo sz
             else
               let sz = (if index + 1 = n
                           then sub32 (u32 (VirtualAddress s + VirtualSize s)) stripped else sz)
               in te_sections read rva stripped n (index + 1) (off + 40) fo sz)
      else Inr (fo, sz))"
  by pat_completeness auto
termination
  by (relation "measure (\<lambda>(read, rva, stripped, n, index, off, fo, sz). n - index)") auto

declare te_sections.simps [simp del]

definition info_te :: "image_read \<Rightarrow> byte list \<Rightarrow> nat \<Rightarrow> image_context \<Rightarrow> image_context res" where
  "info_te read h stripped ic =
     (let rva = te_dir_VA h 1 in
      and_then (te_sections read rva stripped (te_NumberOfSections h) 0 40 0 (ImageSize ic)) (\<lambda>r.
      case r of (fo, sz) \<Rightarrow>
      let ic = ic\<lparr>ImageSize := sz\<rparr> in
      if fo \<noteq> 0 then
        and_then (walk_debug read fo (te_dir_Size h 1) 0) (\<lambda>found.
          case found of None \<Rightarrow> Inr ic
          | Some (index, d) \<Rightarrow> Inr (ic\<lparr>DebugDirectoryEntryRva := u32 (rva + index)\<rparr>))
      else Inr ic))"

definition PeCoffLoaderGetImageInfo :: "image_read \<Rightarrow> image_context \<Rightarrow> image_context res" where
  "PeCoffLoaderGetImageInfo read ic =
     and_then (PeCoffLoaderGetPeHeader read ic) (\<lambda>r.
     case r of (ic, h) \<Rightarrow>
     let stripped = (if IsTeImage ic then sub32 (te_StrippedSize h) 40 else 0);
         ic = ic\<lparr>ImageAddress := (if IsTeImage ic then u64 (te_ImageBase h + stripped) else ImageBase h),
                 DestinationAddress := 0, DebugDirectoryEntryRva := 0,
                 RelocationsStripped :=
                   (\<not> IsTeImage ic \<and> odd (Characteristics h)
                    \<or> IsTeImage ic \<and> te_dir_Size h 0 = 0 \<and> te_dir_VA h 0 = 0)\<rparr> in
     if \<not> IsTeImage ic then info_pe read h ic else info_te read h stripped ic)"

section \<open>What a successful header check establishes\<close>

definition pe_offset :: "byte list \<Rightarrow> nat" where
  "pe_offset img = (if f16 img 0 = EFI_IMAGE_DOS_SIGNATURE then f32 img 60 else 0)"

definition pe_header :: "byte list \<Rightarrow> byte list" where
  "pe_header img = take 264 (drop (pe_offset img) img)"

definition sections_offset :: "byte list \<Rightarrow> nat" where
  "sections_offset img = pe_offset img + 24 + SizeOfOptionalHeader (pe_header img)"

definition section_at :: "byte list \<Rightarrow> nat \<Rightarrow> byte list" where
  "section_at img i = take 40 (drop (sections_offset img + 40 * i) img)"

definition section_table :: "byte list \<Rightarrow> byte list list" where
  "section_table img = map (section_at img) [0..<NumberOfSections (pe_header img)]"

definition section_inside :: "byte list \<Rightarrow> nat \<Rightarrow> byte list \<Rightarrow> bool" where
  "section_inside img soh s \<longleftrightarrow> SizeOfRawData s = 0 \<or>
     soh \<le> PointerToRawData s \<and> PointerToRawData s + SizeOfRawData s \<le> length img"

definition valid_pe :: "byte list \<Rightarrow> bool" where
  "valid_pe img \<longleftrightarrow>
     (let h = pe_header img in
      64 \<le> length img \<and> pe_offset img + 264 \<le> length img
      \<and> pe_Signature h = EFI_IMAGE_NT_SIGNATURE
      \<and> pe_Magic h \<in> {HDR32_MAGIC, HDR64_MAGIC}
      \<and> NumberOfRvaAndSizes h \<le> 16
      \<and> SizeOfOptionalHeader h = dir_base h + 8 * NumberOfRvaAndSizes h
      \<and> sections_offset img < SizeOfHeaders h
      \<and> sections_offset img + 40 * NumberOfSections h \<le> SizeOfHeaders h
      \<and> SizeOfHeaders h \<le> length img
      \<and> (\<forall>s\<in>set (section_table img). section_inside img (SizeOfHeaders h) s))"

lemma f_take:
  "off + 2 \<le> n \<Longrightarrow> f16 (take n b) off = f16 b off"
  "off + 4 \<le> n \<Longrightarrow> f32 (take n b) off = f32 b off"
  "off + 1 \<le> n \<Longrightarrow> f8 (take n b) off = f8 b off"
  "off + 8 \<le> n \<Longrightarrow> f64 (take n b) off = f64 b off"
  by (simp_all add: f8_def f16_def f32_def f64_def drop_take min_def)

lemma f_drop:
  "f16 (drop k b) off = f16 b (k + off)" "f32 (drop k b) off = f32 b (k + off)"
  by (simp_all add: f16_def f32_def add.commute)

lemma sub32_eq_small:
  assumes "sub32 a b = c" and "a < 2 ^ 16" and "b \<le> 112" and "c \<le> 128"
  shows "a = b + c"
proof (cases "b \<le> a")
  case True
  then show ?thesis using assms by (simp add: sub_small)
next
  case False
  then have "(int a - int b) mod 2 ^ 32 = (int a - int b + 2 ^ 32) mod 2 ^ 32" by simp
  also have "\<dots> = int a - int b + 2 ^ 32"
    using False assms by (intro mod_pos_pos_trivial) auto
  finally have "sub32 a b = 2 ^ 32 + a - b"
    using False assms(3) by (simp add: sub32_def nat_eq_iff)
  with assms False show ?thesis by simp
qed

lemma check_section_inside:
  assumes "check_section (Tcg2DxeImageRead img) ic k s = Inr u"
    and "\<not> IsTeImage ic" and "length img < 2 ^ 32"
  shows "section_inside img (ic_SizeOfHeaders ic) s"
proof (cases "SizeOfRawData s = 0")
  case False
  let ?p = "PointerToRawData s" and ?n = "SizeOfRawData s"
  have b: "?p < 2 ^ 32" "?n < 2 ^ 32"
    using f_bounds(3) by (simp_all add: PointerToRawData_def SizeOfRawData_def)
  from assms False have *: "ic_SizeOfHeaders ic \<le> ?p" "\<not> UINT32_MAX - ?p < ?n"
    and r: "\<exists>d. read_exact (Tcg2DxeImageRead img) RETURN_UNSUPPORTED (u32 (?p + ?n - 1)) 1 = Inr d"
    by (auto simp: check_section_def res_simps)
  have "u32 (?p + ?n - 1) = ?p + ?n - 1" using * b by (simp add: UINT32_MAX_def)
  with r have "\<exists>d. read_exact (Tcg2DxeImageRead img) RETURN_UNSUPPORTED (?p + ?n - 1) 1 = Inr d" by simp
  then have "?p + ?n - 1 + 1 \<le> length img"
    using tcg2.read_exact_Inr [of img _ "?p + ?n - 1" 1] assms(3) b by auto
  with * False show ?thesis by (auto simp: section_inside_def)
qed (simp add: section_inside_def)

lemma check_sections_inside:
  assumes "check_sections (Tcg2DxeImageRead img) ic k n off = Inr u"
    and "\<not> IsTeImage ic" and "length img < 2 ^ 32" and "off + 40 * n < 2 ^ 32"
  shows "\<forall>i<n. section_inside img (ic_SizeOfHeaders ic) (take 40 (drop (off + 40 * i) img))"
  using assms
proof (induction n arbitrary: off)
  case (Suc n)
  from Suc.prems(1) obtain s where
    s: "read_exact (Tcg2DxeImageRead img) RETURN_UNSUPPORTED off 40 = Inr s"
    "check_section (Tcg2DxeImageRead img) ic k s = Inr ()"
    "check_sections (Tcg2DxeImageRead img) ic k n (u32 (off + 40)) = Inr u"
    by (auto simp: res_simps)
  have "s = take 40 (drop off img)"
    using tcg2.read_exact_Inr [OF s(1)] Suc.prems by simp
  with check_section_inside [OF s(2)] Suc.prems
  have head: "section_inside img (ic_SizeOfHeaders ic) (take 40 (drop off img))" by simp
  have "u32 (off + 40) = off + 40" using Suc.prems(4) by simp
  with s(3) have r: "check_sections (Tcg2DxeImageRead img) ic k n (off + 40) = Inr u" by simp
  have tail: "\<forall>i<n. section_inside img (ic_SizeOfHeaders ic) (take 40 (drop (off + 40 + 40 * i) img))"
    by (rule Suc.IH [OF r Suc.prems(2,3)]) (use Suc.prems(4) in simp)
  show ?case
  proof (intro allI impI)
    fix i assume "i < Suc n"
    then show "section_inside img (ic_SizeOfHeaders ic) (take 40 (drop (off + 40 * i) img))"
      using head tail by (cases i) (auto simp: algebra_simps)
  qed
qed simp

lemma check_pe_facts:
  assumes "check_pe (Tcg2DxeImageRead img) h ic = Inr ic'" and "length img < 2 ^ 32"
    and "PeCoffHeaderOffset ic + 264 \<le> length img"
  shows "NumberOfRvaAndSizes h \<le> 16 \<and> SizeOfOptionalHeader h = dir_base h + 8 * NumberOfRvaAndSizes h
    \<and> section_header_offset (PeCoffHeaderOffset ic) h = PeCoffHeaderOffset ic + 24 + SizeOfOptionalHeader h
    \<and> PeCoffHeaderOffset ic + 24 + SizeOfOptionalHeader h < SizeOfHeaders h
    \<and> PeCoffHeaderOffset ic + 24 + SizeOfOptionalHeader h + 40 * NumberOfSections h \<le> SizeOfHeaders h
    \<and> SizeOfHeaders h \<le> length img
    \<and> ic_SizeOfHeaders ic' = SizeOfHeaders h \<and> IsTeImage ic' = IsTeImage ic"
proof -
  let ?sho = "section_header_offset (PeCoffHeaderOffset ic) h"
  from assms(1) have *: "NumberOfRvaAndSizes h \<le> 16"
    "sub32 (SizeOfOptionalHeader h) (dir_base h) = NumberOfRvaAndSizes h * 8"
    "?sho < SizeOfHeaders h"
    "\<not> (SizeOfHeaders h - ?sho) div EFI_IMAGE_SIZEOF_SECTION_HEADER < NumberOfSections h"
    and r: "\<exists>d. read_exact (Tcg2DxeImageRead img) RETURN_UNSUPPORTED (SizeOfHeaders h - 1) 1 = Inr d"
    and ic': "ic_SizeOfHeaders ic' = SizeOfHeaders h" "IsTeImage ic' = IsTeImage ic"
    unfolding check_pe_def Let_def by (auto simp: res_simps)
  have "SizeOfOptionalHeader h < 2 ^ 16" "dir_base h \<le> 112"
    using f_bounds(2) by (simp_all add: SizeOfOptionalHeader_def dir_base_def)
  with * have soh: "SizeOfOptionalHeader h = dir_base h + 8 * NumberOfRvaAndSizes h"
    using sub32_eq_small [OF *(2)] by simp
  then have sho: "?sho = PeCoffHeaderOffset ic + 24 + SizeOfOptionalHeader h"
    using assms *(1) \<open>dir_base h \<le> 112\<close> by (simp add: section_header_offset_def)
  have "SizeOfHeaders h < 2 ^ 32" using f_bounds(3) by (simp add: SizeOfHeaders_def)
  then have len: "SizeOfHeaders h \<le> length img"
    using r *(3) tcg2.read_exact_Inr [of img _ "SizeOfHeaders h - 1" 1] assms(2) by fastforce
  have "40 * NumberOfSections h \<le> SizeOfHeaders h - ?sho"
    using *(4) by (simp add: EFI_IMAGE_SIZEOF_SECTION_HEADER_def not_less less_eq_div_iff_mult_less_eq)
  then show ?thesis using * soh sho len ic' by simp
qed

lemma PeCoffLoaderGetPeHeader_reads:
  assumes "PeCoffLoaderGetPeHeader (Tcg2DxeImageRead img) ic0 = Inr (ic, h)"
    and len: "length img < 2 ^ 32"
  shows "64 \<le> length img \<and> pe_offset img + 264 \<le> length img"
proof -
  let ?r = "Tcg2DxeImageRead img" and ?pe = "pe_offset img" and ?h = "pe_header img"
  have pe: "?pe < 2 ^ 32" using f_bounds(3) by (simp add: pe_offset_def)
  have d: "read_exact ?r RETURN_UNSUPPORTED 0 64 = (if 64 \<le> length img then Inr (take 64 img)
      else Inl RETURN_UNSUPPORTED)"
    using tcg2.read_exact_eq [OF len, of 64 0] by simp
  from assms(1) d have l64: "64 \<le> length img"
    by (auto simp: PeCoffLoaderGetPeHeader_def split: if_splits)
  have off: "(if e_magic (take 64 img) = EFI_IMAGE_DOS_SIGNATURE then e_lfanew (take 64 img) else 0) = ?pe"
    by (simp add: e_magic_def e_lfanew_def pe_offset_def f_take)
  have r: "read_exact ?r RETURN_UNSUPPORTED ?pe 264 = (if ?pe + 264 \<le> length img then Inr ?h
      else Inl RETURN_UNSUPPORTED)"
    using tcg2.read_exact_eq [OF len, of 264 ?pe] pe by (simp add: pe_header_def)
  from assms(1) d l64 off r have "?pe + 264 \<le> length img"
    by (auto simp: PeCoffLoaderGetPeHeader_def split: if_splits)
  with l64 show ?thesis ..
qed

text \<open>
  A checked PE image (as opposed to a TE image) is a valid PE image: headers, section table
  and section data lie inside the file, in this order.
\<close>

lemma PeCoffLoaderGetPeHeader_valid:
  assumes "PeCoffLoaderGetPeHeader (Tcg2DxeImageRead img) ic0 = Inr (ic, h)"
    and len: "length img < 2 ^ 32" and sig: "pe_Signature (pe_header img) = EFI_IMAGE_NT_SIGNATURE"
  shows "valid_pe img \<and> h = pe_header img \<and> PeCoffHeaderOffset ic = pe_offset img"
proof -
  let ?r = "Tcg2DxeImageRead img" and ?pe = "pe_offset img" and ?h = "pe_header img"
  have pe: "?pe < 2 ^ 32" using f_bounds(3) by (simp add: pe_offset_def)
  have d: "read_exact ?r RETURN_UNSUPPORTED 0 64 = (if 64 \<le> length img then Inr (take 64 img)
      else Inl RETURN_UNSUPPORTED)"
    using tcg2.read_exact_eq [OF len, of 64 0] by simp
  note reads = PeCoffLoaderGetPeHeader_reads [OF assms(1) len]
  from reads have l64: "64 \<le> length img" ..
  have off: "(if e_magic (take 64 img) = EFI_IMAGE_DOS_SIGNATURE then e_lfanew (take 64 img) else 0) = ?pe"
    by (simp add: e_magic_def e_lfanew_def pe_offset_def f_take)
  have r: "read_exact ?r RETURN_UNSUPPORTED ?pe 264 = (if ?pe + 264 \<le> length img then Inr ?h
      else Inl RETURN_UNSUPPORTED)"
    using tcg2.read_exact_eq [OF len, of 264 ?pe] pe by (simp add: pe_header_def)
  from reads have l264: "?pe + 264 \<le> length img" ..
  have "te_Signature ?h = pe_Signature ?h mod 2 ^ 16"
    using le_take [of 2 "take 4 ?h"] by (simp add: te_Signature_def pe_Signature_def f16_def f32_def min_def)
  then have te: "te_Signature ?h \<noteq> EFI_TE_IMAGE_HEADER_SIGNATURE"
    by (simp add: sig EFI_IMAGE_NT_SIGNATURE_def EFI_TE_IMAGE_HEADER_SIGNATURE_def)
  let ?ic = "ic0\<lparr>PeCoffHeaderOffset := ?pe, IsTeImage := False, ic_Machine := pe_Machine ?h\<rparr>"
  note run = assms(1) [unfolded PeCoffLoaderGetPeHeader_def d if_P [OF l64] and_then_simps Let_def off
      r if_P [OF l264] if_not_P [OF te] if_P [OF sig]]
  from run obtain ic1 where m: "pe_Magic ?h = HDR32_MAGIC \<or> pe_Magic ?h = HDR64_MAGIC"
    and c: "check_pe ?r ?h ?ic = Inr ic1" and h: "h = ?h" "ic = ic1"
    and s: "check_sections ?r ic1 (sub32 (te_StrippedSize ?h) 40)
      (if IsTeImage ic1 then te_NumberOfSections ?h else NumberOfSections ?h)
      (if IsTeImage ic1 then 40 else section_header_offset ?pe ?h) = Inr ()"
    by (auto simp: res_simps split: if_splits)
  from check_pe_facts [OF c len] l264
  have f: "NumberOfRvaAndSizes ?h \<le> 16" "SizeOfOptionalHeader ?h = dir_base ?h + 8 * NumberOfRvaAndSizes ?h"
    "section_header_offset ?pe ?h = sections_offset img" "sections_offset img < SizeOfHeaders ?h"
    "sections_offset img + 40 * NumberOfSections ?h \<le> SizeOfHeaders ?h"
    "SizeOfHeaders ?h \<le> length img" "ic_SizeOfHeaders ic1 = SizeOfHeaders ?h" "\<not> IsTeImage ic1"
    by (auto simp: sections_offset_def)
  have "\<forall>i<NumberOfSections ?h. section_inside img (ic_SizeOfHeaders ic1) (section_at img i)"
    unfolding section_at_def
    by (rule check_sections_inside [of img ic1 "sub32 (te_StrippedSize ?h) 40" _ _ "()"]) (use s f len in auto)
  then have "\<forall>s\<in>set (section_table img). section_inside img (SizeOfHeaders ?h) s"
    using f by (auto simp: section_table_def)
  moreover have "PeCoffHeaderOffset ic1 = ?pe"
    using c by (auto simp: check_pe_def Let_def res_simps)
  ultimately show ?thesis using f m h l64 l264 sig by (auto simp: valid_pe_def Let_def)
qed

text \<open>The parser never leaves the image: it returns a value or an error status.\<close>

lemma u_lt: "u32 n < 2 ^ 64" "u64 n < 2 ^ 64"
  using u_bound(3) [of n] by (simp_all add: less_trans [OF u_bound(2)])

lemma f32_lt64: "f32 b off < 2 ^ 64" using f_bounds(3) [of b off] by simp

lemmas read_graceful = tcg2.read_exact_graceful [where k = 3] tcg2.read_exact_graceful [where k = "-1"]

lemma check_te_graceful: "length img < 2 ^ 32 \<Longrightarrow> graceful (check_te (Tcg2DxeImageRead img) h ic)"
  unfolding check_te_def Let_def
  by (intro graceful_intros read_graceful) (use sub_bound(3) in simp_all)

lemma check_pe_graceful: "length img < 2 ^ 32 \<Longrightarrow> graceful (check_pe (Tcg2DxeImageRead img) h ic)"
  unfolding check_pe_def Let_def
  by (intro graceful_intros read_graceful)
    (use f32_lt64 [of h] u_lt in \<open>simp_all add: SizeOfHeaders_def less_imp_diff_less\<close>)

lemma check_section_graceful:
  "length img < 2 ^ 32 \<Longrightarrow> graceful (check_section (Tcg2DxeImageRead img) ic k s)"
  unfolding check_section_def
  by (intro graceful_intros read_graceful) (use u_lt in simp_all)

lemma check_sections_graceful:
  "length img < 2 ^ 32 \<Longrightarrow> off < 2 ^ 64 \<Longrightarrow> graceful (check_sections (Tcg2DxeImageRead img) ic k n off)"
proof (induction n arbitrary: off)
  case (Suc n)
  then show ?case
    unfolding check_sections.simps
    by (intro graceful_intros read_graceful check_section_graceful Suc.IH u_lt) simp_all
qed simp

lemma PeCoffLoaderGetPeHeader_graceful:
  assumes "length img < 2 ^ 32"
  shows "graceful (PeCoffLoaderGetPeHeader (Tcg2DxeImageRead img) ic)"
  unfolding PeCoffLoaderGetPeHeader_def Let_def
  by (intro graceful_intros read_graceful check_te_graceful check_pe_graceful check_sections_graceful)
    (use assms f32_lt64 u_lt in \<open>auto simp: e_lfanew_def section_header_offset_def split: if_splits\<close>)

lemma find_debug_graceful:
  "length img < 2 ^ 32 \<Longrightarrow> off < 2 ^ 64 \<Longrightarrow> graceful (find_debug (Tcg2DxeImageRead img) rva n off)"
proof (induction n arbitrary: off)
  case (Suc n)
  then show ?case
    unfolding find_debug.simps
    by (intro graceful_intros read_graceful Suc.IH u_lt) simp_all
qed simp

lemma walk_debug_graceful:
  "length img < 2 ^ 32 \<Longrightarrow> graceful (walk_debug (Tcg2DxeImageRead img) off sz i)"
proof (induction "Tcg2DxeImageRead img" off sz i rule: walk_debug.induct)
  case (1 off sz index)
  then show ?case
    by (subst walk_debug.simps) (auto intro!: graceful_and_then read_graceful u_lt)
qed

lemma te_sections_graceful:
  "\<lbrakk>length img < 2 ^ 32; off + 40 * (n - i) < 2 ^ 32\<rbrakk>
    \<Longrightarrow> graceful (te_sections (Tcg2DxeImageRead img) rva k n i off fo sz)"
proof (induction "Tcg2DxeImageRead img" rva k n i off fo sz rule: te_sections.induct)
  case (1 rva stripped n index off fo sz)
  note IH = "1.hyps" and len = "1.prems"(1) and off = "1.prems"(2)
  show ?case
    unfolding te_sections.simps [of _ _ _ _ index] Let_def
  proof (intro graceful_intros read_graceful len, goal_cases)
    case (3 s)
    show ?case by (rule IH(1)) (use 3 len off in \<open>auto simp: algebra_simps diff_mult_distrib2\<close>)
  next
    case (4 s)
    show ?case by (rule IH(2)) (use 4 len off in \<open>auto simp: diff_mult_distrib2\<close>)
  qed (use off in auto)
qed

lemma PeCoffLoaderGetImageInfo_graceful_aux:
  assumes "length img < 2 ^ 32"
  shows "graceful (PeCoffLoaderGetImageInfo (Tcg2DxeImageRead img) ic)"
proof -
  have te: "graceful (info_te (Tcg2DxeImageRead img) h k ic)" for h k ic
    unfolding info_te_def Let_def
    by (intro graceful_intros te_sections_graceful walk_debug_graceful assms)
      (use f_bounds(1) [of h 4] in \<open>simp_all add: te_NumberOfSections_def\<close>)
  have pe: "graceful (info_pe (Tcg2DxeImageRead img) h ic)" for h ic
    unfolding info_pe_def Let_def
    by (intro graceful_intros find_debug_graceful walk_debug_graceful assms) (simp_all add: u_lt)
  show ?thesis
    unfolding PeCoffLoaderGetImageInfo_def Let_def
    by (intro graceful_intros PeCoffLoaderGetPeHeader_graceful te pe assms)
qed

text \<open>
  C16. The image parser is memory safe on untrusted input: for every file of less than
  4 GiB, valid or not, \<open>PeCoffLoaderGetImageInfo\<close> through \<open>Tcg2DxeImageRead\<close> terminates
  with image information or an error status and never reads outside the file.
\<close>

theorem PeCoffLoaderGetImageInfo_graceful:
  assumes "length img < 2 ^ 32"
  shows "graceful (PeCoffLoaderGetImageInfo (Tcg2DxeImageRead img) ic)"
  using assms by (rule PeCoffLoaderGetImageInfo_graceful_aux)

theorem PeCoffLoaderGetImageInfo_graceful_witness:
  "graceful (PeCoffLoaderGetImageInfo (Tcg2DxeImageRead (replicate 300 0x5A)) zero_context)"
  by (rule PeCoffLoaderGetImageInfo_graceful) simp

section \<open>Loading and measuring an image\<close>

definition LoadPeImage :: "filesys \<Rightarrow> string \<Rightarrow> byte list res" where
  "LoadPeImage fs filename = (case fs filename of None \<Rightarrow> Inl (Fail (-1)) | Some b \<Rightarrow> Inr b)"

text \<open>\<open>EVP_DigestUpdate(ctx, buf + off, n)\<close>; the context is the sequence of hashed bytes.\<close>

definition digest_update :: "byte list \<Rightarrow> nat \<Rightarrow> nat \<Rightarrow> byte list \<Rightarrow> byte list res" where
  "digest_update buf off n ctx = and_then (rd buf off n) (\<lambda>d. Inr (ctx @ d))"

text \<open>
  Step 12, the insertion sort on the table of section headers: \<open>shift_headers\<close> is the
  \<open>while\<close> loop that moves larger entries up, from position \<open>p\<close>.
\<close>

fun shift_headers :: "byte list list \<Rightarrow> byte list \<Rightarrow> nat \<Rightarrow> byte list list \<times> nat" where
  "shift_headers tbl s 0 = (tbl, 0)"
| "shift_headers tbl s (Suc p) =
     (if PointerToRawData s < PointerToRawData (tbl ! p)
      then shift_headers (tbl[Suc p := tbl ! p]) s p else (tbl, Suc p))"

definition insert_header :: "byte list list \<Rightarrow> byte list \<Rightarrow> nat \<Rightarrow> byte list list" where
  "insert_header tbl s i = (case shift_headers tbl s i of (t, pos) \<Rightarrow> t[pos := s])"

definition sort_headers :: "byte list \<Rightarrow> nat \<Rightarrow> nat \<Rightarrow> byte list list res" where
  "sort_headers buf off n =
     fold_res (\<lambda>i tbl. and_then (rd buf (off + 40 * i) 40) (\<lambda>s. Inr (insert_header tbl s i)))
       [0..<n] (replicate n (replicate 40 0))"

text \<open>Steps 13 to 15, on the sorted table: the context and SUM_OF_BYTES_HASHED.\<close>

definition hash_sections :: "byte list \<Rightarrow> byte list list \<Rightarrow> byte list \<times> nat \<Rightarrow> (byte list \<times> nat) res" where
  "hash_sections buf =
     fold_res (\<lambda>s (ctx, bytes_hashed).
       if SizeOfRawData s = 0 then Inr (ctx, bytes_hashed)
       else and_then (digest_update buf (PointerToRawData s) (SizeOfRawData s) ctx) (\<lambda>ctx.
            Inr (ctx, u64 (bytes_hashed + SizeOfRawData s))))"

text \<open>Steps 4 to 9, the header without the checksum and the certificate directory entry.\<close>

definition hash_headers :: "byte list \<Rightarrow> nat \<Rightarrow> byte list \<Rightarrow> byte list res" where
  "hash_headers buf pe h =
     and_then (digest_update buf 0 (pe + CheckSum_off) []) (\<lambda>ctx.
     let base = pe + CheckSum_off + 4 in
     if NumberOfRvaAndSizes h \<le> SECURITY then
       let HashSize = sub64 (SizeOfHeaders h) base in
       if HashSize \<noteq> 0 then digest_update buf base HashSize ctx else Inr ctx
     else
       let HashSize = sub64 (pe + dir_off h SECURITY) base in
       and_then (if HashSize \<noteq> 0 then digest_update buf base HashSize ctx else Inr ctx) (\<lambda>ctx.
       let base = pe + dir_off h (SECURITY + 1); HashSize = sub64 (SizeOfHeaders h) base in
       if HashSize \<noteq> 0 then digest_update buf base HashSize ctx else Inr ctx))"

text \<open>Step 16, the data after the last section.\<close>

definition hash_trailer :: "byte list \<Rightarrow> byte list \<Rightarrow> byte list \<times> nat \<Rightarrow> byte list res" where
  "hash_trailer buf h r =
     (case r of (ctx, bytes_hashed) \<Rightarrow>
      let CertSize = (if NumberOfRvaAndSizes h \<le> SECURITY then 0 else dir_Size h SECURITY) in
      if length buf > bytes_hashed then
        if length buf > u64 (CertSize + bytes_hashed)
        then digest_update buf bytes_hashed (sub64 (sub64 (length buf) CertSize) bytes_hashed) ctx
        else if length buf < u64 (CertSize + bytes_hashed) then Inl RETURN_UNSUPPORTED
        else Inr ctx
      else Inr ctx)"

text \<open>
  \<open>MeasurePeImage\<close>; \<open>stale_ctx\<close> tells whether the indeterminate pointer \<open>ctx\<close>, which the
  two early \<open>goto Finish\<close> jumps leave uninitialised, happens to be non-null (it is then
  passed to \<open>EVP_MD_CTX_free\<close>). The header fields, which the code reads one by one through
  \<open>Hdr\<close>, are read as one block of the header union's size.
\<close>

definition MeasurePeImage :: "digest \<Rightarrow> evp_md \<Rightarrow> bool \<Rightarrow> byte list \<Rightarrow> byte list res" where
  "MeasurePeImage H md stale_ctx buf =
     (let early = (\<lambda>e. if stale_ctx then Inl OutOfBounds else Inl e) in
      case PeCoffLoaderGetImageInfo (Tcg2DxeImageRead buf) zero_context of
        Inl e \<Rightarrow> early e
      | Inr ic \<Rightarrow>
          and_then (rd buf 0 64) (\<lambda>dos.
          let pe = (if e_magic dos = EFI_IMAGE_DOS_SIGNATURE then e_lfanew dos else 0) in
          and_then (rd buf pe 264) (\<lambda>h.
          if pe_Signature h \<noteq> EFI_IMAGE_NT_SIGNATURE then early RETURN_UNSUPPORTED
          else
            and_then (hash_headers buf pe h) (\<lambda>ctx.
            and_then (sort_headers buf (pe + 4 + 20 + SizeOfOptionalHeader h) (NumberOfSections h)) (\<lambda>tbl.
            and_then (hash_sections buf tbl (ctx, SizeOfHeaders h)) (\<lambda>r.
            and_then (hash_trailer buf h r) (\<lambda>ctx.
              Inr (H md ctx))))))))"

section \<open>The insertion sort is a stable sort\<close>

lemma shift_headers_spec:
  assumes "p < length tbl" and "shift_headers tbl s p = (t, pos)"
  shows "pos \<le> p \<and> length t = length tbl \<and> (\<forall>j. j < pos \<or> p < j \<longrightarrow> t ! j = tbl ! j)
    \<and> (\<forall>j. pos \<le> j \<and> j < p \<longrightarrow> t ! Suc j = tbl ! j \<and> PointerToRawData s < PointerToRawData (tbl ! j))
    \<and> (pos = 0 \<or> PointerToRawData (tbl ! (pos - 1)) \<le> PointerToRawData s)"
  using assms
proof (induction tbl s p rule: shift_headers.induct)
  case (2 tbl s p)
  show ?case
  proof (cases "PointerToRawData s < PointerToRawData (tbl ! p)")
    case True
    let ?tbl = "tbl[Suc p := tbl ! p]"
    have sh: "shift_headers ?tbl s p = (t, pos)" using 2 True by simp
    have IH: "pos \<le> p" "length t = length tbl" "\<And>j. j < pos \<or> p < j \<Longrightarrow> t ! j = ?tbl ! j"
      "\<And>j. pos \<le> j \<and> j < p \<Longrightarrow> t ! Suc j = ?tbl ! j \<and> PointerToRawData s < PointerToRawData (?tbl ! j)"
      "pos = 0 \<or> PointerToRawData (?tbl ! (pos - 1)) \<le> PointerToRawData s"
      using "2.IH" [OF True _ sh] "2.prems"(1) by auto
    have a: "t ! j = tbl ! j" if "j < pos \<or> Suc p < j" for j
      using IH(3) [of j] that IH(1) by auto
    have b: "t ! Suc j = tbl ! j \<and> PointerToRawData s < PointerToRawData (tbl ! j)"
      if "pos \<le> j" "j < Suc p" for j
      using IH(4) [of j] IH(3) [of "Suc p"] that True "2.prems"(1) by (cases "j = p") auto
    have c: "pos = 0 \<or> PointerToRawData (tbl ! (pos - 1)) \<le> PointerToRawData s"
      using IH(5) IH(1) by (auto simp: nth_list_update)
    from IH(1,2) a b c show ?thesis by auto
  next
    case False
    with 2 show ?thesis by auto
  qed
qed auto

lemma insert_header_prefix:
  assumes "i < length tbl"
  shows "\<exists>pos\<le>i. take (Suc i) (insert_header tbl s i) = take pos tbl @ s # drop pos (take i tbl)
    \<and> length (insert_header tbl s i) = length tbl
    \<and> (\<forall>j. pos \<le> j \<and> j < i \<longrightarrow> PointerToRawData s < PointerToRawData (tbl ! j))
    \<and> (pos = 0 \<or> PointerToRawData (tbl ! (pos - 1)) \<le> PointerToRawData s)"
proof -
  obtain t pos where tp: "shift_headers tbl s i = (t, pos)" by fastforce
  note spec = shift_headers_spec [OF assms tp]
  have "take (Suc i) (t[pos := s]) = take pos tbl @ s # drop pos (take i tbl)"
  proof (rule nth_equalityI, goal_cases)
    case 1
    then show ?case using spec assms by simp
  next
    case (2 j)
    then have j: "j \<le> i" by simp
    consider "j < pos" | "j = pos" | "pos < j" by linarith
    then show ?case
    proof cases
      case 3
      then obtain k where k: "j = Suc k" "pos \<le> k" "k < i" using j by (cases j) auto
      have "(take pos tbl @ s # drop pos (take i tbl)) ! j = drop pos (take i tbl) ! (k - pos)"
        using k spec assms by (simp add: nth_append min_def Suc_diff_le)
      also have "\<dots> = tbl ! k" using k spec assms by simp
      finally show ?thesis using k spec assms by simp
    qed (use j spec assms in \<open>auto simp: nth_append min_def\<close>)
  qed
  with spec show ?thesis unfolding insert_header_def tp by (intro exI [of _ pos]) simp
qed

lemma insert_header_sorts:
  assumes "i < length tbl" and "take i tbl = sort_key PointerToRawData xs"
  shows "take (Suc i) (insert_header tbl s i) = sort_key PointerToRawData (xs @ [s])
    \<and> length (insert_header tbl s i) = length tbl"
proof -
  let ?k = PointerToRawData
  obtain pos where p: "pos \<le> i" "take (Suc i) (insert_header tbl s i) = take pos tbl @ s # drop pos (take i tbl)"
    "length (insert_header tbl s i) = length tbl"
    "\<And>j. pos \<le> j \<Longrightarrow> j < i \<Longrightarrow> ?k s < ?k (tbl ! j)"
    "pos = 0 \<or> ?k (tbl ! (pos - 1)) \<le> ?k s"
    using insert_header_prefix [OF assms(1), of s] by blast
  let ?a = "take pos (take i tbl)" and ?b = "drop pos (take i tbl)"
  have ab: "?a @ ?b = sort_key ?k xs" by (simp only: append_take_drop_id assms(2))
  have a: "take pos tbl = ?a" using p(1) by (simp add: min_def)
  have sorted: "sorted (map ?k (?a @ ?b))" by (simp only: ab sorted_sort_key)
  have big: "?k s < ?k x" if "x \<in> set ?b" for x
    using that p(4) assms(1) by (auto simp: in_set_conv_nth)
  have small: "?k x \<le> ?k s" if x: "x \<in> set ?a" for x
  proof -
    from x obtain j where j: "j < pos" "x = tbl ! j" using p(1) assms(1)
      by (auto simp: in_set_conv_nth)
    have sm: "sorted (map ?k (take i tbl))" by (simp only: assms(2) sorted_sort_key)
    have "map ?k (take i tbl) ! j \<le> map ?k (take i tbl) ! (pos - 1)"
      by (rule sorted_nth_mono [OF sm]) (use j p(1) assms(1) in auto)
    then have "?k (tbl ! j) \<le> ?k (tbl ! (pos - 1))"
      using j p(1) assms(1) by simp
    then show ?thesis using p(5) j by auto
  qed
  have "sort_key ?k (xs @ [s]) = ?a @ s # ?b"
  proof (rule properties_for_sort_key)
    show "mset (?a @ s # ?b) = mset (xs @ [s])"
    proof -
      have "mset (?a @ s # ?b) = add_mset s (mset (?a @ ?b))" by simp
      also have "\<dots> = mset (xs @ [s])" by (simp only: ab mset_sort) simp
      finally show ?thesis .
    qed
    show "sorted (map ?k (?a @ s # ?b))"
      using sorted big small by (auto simp: sorted_append less_imp_le)
    fix k
    have flip: "(\<lambda>x. ?k k = ?k x) = (\<lambda>x. ?k x = ?k k)" by auto
    have f: "filter (\<lambda>x. ?k k = ?k x) (?a @ ?b) = filter (\<lambda>x. ?k k = ?k x) xs"
      unfolding ab flip by (rule sort_key_stable)
    show "filter (\<lambda>x. ?k k = ?k x) (?a @ s # ?b) = filter (\<lambda>x. ?k k = ?k x) (xs @ [s])"
    proof (cases "?k k = ?k s")
      case True
      then have "filter (\<lambda>x. ?k k = ?k x) ?b = []" using big by (fastforce simp: filter_empty_conv)
      with f True show ?thesis by simp
    next
      case False
      with f show ?thesis by simp
    qed
  qed
  then show ?thesis unfolding p(2) a using p(3) by (simp only: conj_absorb simp_thms)
qed

lemma sort_headers_eq_aux:
  assumes "off + 40 * n \<le> length buf"
  shows "sort_headers buf off n
    = Inr (sort_key PointerToRawData (map (\<lambda>i. take 40 (drop (off + 40 * i) buf)) [0..<n]))"
proof -
  let ?f = "\<lambda>i tbl. and_then (rd buf (off + 40 * i) 40) (\<lambda>s. Inr (insert_header tbl s i))"
  let ?s = "\<lambda>i. take 40 (drop (off + 40 * i) buf)"
  have "\<exists>t. fold_res ?f [0..<m] (replicate n (replicate 40 0)) = Inr t \<and> length t = n
      \<and> take m t = sort_key PointerToRawData (map ?s [0..<m])" if "m \<le> n" for m
    using that
  proof (induction m)
    case (Suc m)
    then obtain t where t: "fold_res ?f [0..<m] (replicate n (replicate 40 0)) = Inr t" "length t = n"
      "take m t = sort_key PointerToRawData (map ?s [0..<m])" by auto
    have "rd buf (off + 40 * m) 40 = Inr (?s m)" using assms Suc.prems by simp
    then show ?case
      using t insert_header_sorts [OF _ t(3), of "?s m"] Suc.prems by (simp add: fold_res_append)
  qed simp
  from this [of n] show ?thesis by (auto simp: sort_headers_def)
qed

text \<open>
  C27. The hand-written insertion sort of step 12 (an array shift per section header) reads
  the section table within bounds and is the stable sort of the section headers by
  \<open>PointerToRawData\<close>, for every table that lies inside the file.
\<close>

theorem sort_headers_is_sort_key:
  assumes "off + 40 * n \<le> length buf"
  shows "sort_headers buf off n
    = Inr (sort_key PointerToRawData (map (\<lambda>i. take 40 (drop (off + 40 * i) buf)) [0..<n]))"
  using assms by (rule sort_headers_eq_aux)

theorem sort_headers_is_sort_key_witness:
  "sort_headers (replicate 80 0) 0 2
    = Inr (sort_key PointerToRawData (map (\<lambda>i. take 40 (drop (0 + 40 * i) (replicate 80 0))) [0..<2]))"
  by (rule sort_headers_is_sort_key) simp

end
