(* ===== verification/Authenticode.thy ===== *)
theory Authenticode
  imports PeCoff
begin

text \<open>
  What \<open>MeasurePeImage\<close> computes: the abstract Authenticode byte stream of an image, the
  proof that the sixteen steps of the code hash exactly that stream without leaving the
  file, and the invariance of the digest under signing.
\<close>

section \<open>The Authenticode stream\<close>

definition img_slice :: "byte list \<Rightarrow> nat \<Rightarrow> nat \<Rightarrow> byte list" where
  "img_slice img a b = take (b - a) (drop a img)"

definition header_stream :: "byte list \<Rightarrow> byte list" where
  "header_stream img =
     (let h = pe_header img; pe = pe_offset img in
      take (pe + 88) img
      @ (if NumberOfRvaAndSizes h \<le> 4 then img_slice img (pe + 92) (SizeOfHeaders h)
         else img_slice img (pe + 92) (pe + dir_off h 4) @ img_slice img (pe + dir_off h 5) (SizeOfHeaders h)))"

definition section_data :: "byte list \<Rightarrow> byte list \<Rightarrow> byte list" where
  "section_data img s = img_slice img (PointerToRawData s) (PointerToRawData s + SizeOfRawData s)"

definition sum_hashed :: "byte list \<Rightarrow> nat" where
  "sum_hashed img = SizeOfHeaders (pe_header img) + sum_list (map SizeOfRawData (section_table img))"

definition cert_size :: "byte list \<Rightarrow> nat" where
  "cert_size img =
     (let h = pe_header img in if NumberOfRvaAndSizes h \<le> 4 then 0 else dir_Size h 4)"

definition authenticode_stream :: "byte list \<Rightarrow> byte list" where
  "authenticode_stream img =
     header_stream img
     @ concat (map (section_data img) (sort_key PointerToRawData (section_table img)))
     @ img_slice img (sum_hashed img) (length img - cert_size img)"

definition trailer_ok :: "byte list \<Rightarrow> bool" where
  "trailer_ok img \<longleftrightarrow>
     \<not> (sum_hashed img < length img \<and> length img < cert_size img + sum_hashed img)"

section \<open>The steps of the code\<close>

lemma digest_update_slice:
  "b \<le> length buf \<Longrightarrow> a \<le> b \<Longrightarrow> digest_update buf a (b - a) ctx = Inr (ctx @ img_slice buf a b)"
  by (simp add: digest_update_def img_slice_def)

lemma slice_empty [simp]: "b \<le> a \<Longrightarrow> img_slice buf a b = []"
  by (simp add: img_slice_def)

lemma valid_pe_facts:
  assumes "valid_pe img"
  shows "pe_offset img + 264 \<le> length img"
    and "64 \<le> length img"
    and "pe_offset img + 24 + dir_base (pe_header img) + 8 * NumberOfRvaAndSizes (pe_header img)
          = sections_offset img"
    and "sections_offset img + 40 * NumberOfSections (pe_header img) \<le> SizeOfHeaders (pe_header img)"
    and "sections_offset img < SizeOfHeaders (pe_header img)"
    and "SizeOfHeaders (pe_header img) \<le> length img"
    and "96 \<le> dir_base (pe_header img)"
    and "\<And>s. s \<in> set (section_table img) \<Longrightarrow> section_inside img (SizeOfHeaders (pe_header img)) s"
  using assms by (auto simp: valid_pe_def Let_def sections_offset_def dir_base_def)

lemma hash_headers_stream:
  assumes v: "valid_pe img" and len: "length img < 2 ^ 32"
  shows "hash_headers img (pe_offset img) (pe_header img) = Inr (header_stream img)"
proof -
  let ?h = "pe_header img" and ?pe = "pe_offset img" and ?soh = "SizeOfHeaders (pe_header img)"
  note f = valid_pe_facts [OF v]
  have a: "digest_update img 0 (?pe + CheckSum_off) [] = Inr (take (?pe + 88) img)"
    using f(1) by (simp add: digest_update_def CheckSum_off_def)
  have e: "?pe + CheckSum_off + 4 = ?pe + 92" by (simp add: CheckSum_off_def)
  have upd: "(if sub64 b a \<noteq> 0 then digest_update img a (sub64 b a) ctx else Inr ctx)
      = Inr (ctx @ img_slice img a b)" if "a \<le> b" "b \<le> length img" for a b ctx
    using that len by (auto simp: sub_small digest_update_slice)
  show ?thesis
  proof (cases "NumberOfRvaAndSizes ?h \<le> 4")
    case True
    have "?pe + 92 \<le> ?soh" using f by simp
    note u = upd [OF this f(6)]
    show ?thesis
      unfolding hash_headers_def a and_then_simps Let_def SECURITY_def e if_P [OF True] u
      by (simp add: header_stream_def True Let_def)
  next
    case False
    then have o: "?pe + 92 \<le> ?pe + dir_off ?h 4" "?pe + dir_off ?h 4 \<le> ?pe + dir_off ?h 5"
      "?pe + dir_off ?h 5 \<le> ?soh"
      using f by (simp_all add: dir_off_def)
    have five: "(4::nat) + 1 = 5" by simp
    from o f(6) have "?pe + dir_off ?h 4 \<le> length img" by simp
    note u = upd [OF o(1) this] upd [OF o(3) f(6)]
    show ?thesis
      unfolding hash_headers_def a and_then_simps Let_def SECURITY_def e if_not_P [OF False] u(1) and_then_simps five u(2)
      by (simp add: header_stream_def False Let_def)
  qed
qed

lemma hash_sections_stream:
  assumes "\<And>s. s \<in> set tbl \<Longrightarrow> SizeOfRawData s = 0 \<or> PointerToRawData s + SizeOfRawData s \<le> length img"
    and "n + sum_list (map SizeOfRawData tbl) < 2 ^ 64"
  shows "hash_sections img tbl (ctx, n)
    = Inr (ctx @ concat (map (section_data img) tbl), n + sum_list (map SizeOfRawData tbl))"
  using assms
proof (induction tbl arbitrary: ctx n)
  case (Cons s tbl)
  show ?case
  proof (cases "SizeOfRawData s = 0")
    case True
    with Cons show ?thesis by (simp add: hash_sections_def section_data_def)
  next
    case False
    let ?p = "PointerToRawData s" and ?n = "SizeOfRawData s"
    have u: "digest_update img ?p ?n ctx = Inr (ctx @ section_data img s)"
      using Cons.prems(1) [of s] False digest_update_slice [of "?p + ?n" img ?p ctx]
      by (simp add: section_data_def)
    have "u64 (n + ?n) = n + ?n" using Cons.prems(2) by simp
    moreover have "hash_sections img tbl (ctx @ section_data img s, n + ?n)
        = Inr ((ctx @ section_data img s) @ concat (map (section_data img) tbl),
               n + ?n + sum_list (map SizeOfRawData tbl))"
      by (rule Cons.IH) (use Cons.prems in auto)
    ultimately show ?thesis using False u by (simp add: hash_sections_def)
  qed
qed (simp add: hash_sections_def)

lemma sum_hashed_bound: "length img < 2 ^ 32 \<Longrightarrow> valid_pe img \<Longrightarrow> cert_size img + sum_hashed img < 2 ^ 64"
proof -
  assume "length img < 2 ^ 32" "valid_pe img"
  have raw: "SizeOfRawData s \<le> 2 ^ 32" for s using f_bounds(3) by (simp add: SizeOfRawData_def less_imp_le)
  have "sum_list (map SizeOfRawData tbl) \<le> length tbl * 2 ^ 32" for tbl
    by (induction tbl) (use raw in \<open>auto intro: add_mono\<close>)
  from this [of "section_table img"]
  have "sum_list (map SizeOfRawData (section_table img)) \<le> NumberOfSections (pe_header img) * 2 ^ 32"
    by (simp add: section_table_def)
  moreover have "NumberOfSections (pe_header img) < 2 ^ 16"
    using f_bounds(2) by (simp add: NumberOfSections_def)
  moreover have "SizeOfHeaders (pe_header img) < 2 ^ 32" "cert_size img < 2 ^ 32"
    using f_bounds(3) by (simp_all add: SizeOfHeaders_def cert_size_def dir_Size_def Let_def)
  ultimately show ?thesis by (simp add: sum_hashed_def)
qed

lemma hash_trailer_stream:
  assumes "cert_size img + sum_hashed img < 2 ^ 64" and "length img < 2 ^ 32"
  shows "hash_trailer img (pe_header img) (ctx, sum_hashed img)
    = (if trailer_ok img then Inr (ctx @ img_slice img (sum_hashed img) (length img - cert_size img))
       else Inl RETURN_UNSUPPORTED)"
proof -
  let ?c = "cert_size img" and ?t = "sum_hashed img" and ?n = "length img"
  have c: "(if NumberOfRvaAndSizes (pe_header img) \<le> SECURITY then 0 else dir_Size (pe_header img) SECURITY) = ?c"
    by (simp add: cert_size_def SECURITY_def)
  have s: "sub64 (sub64 ?n ?c) ?t = ?n - ?c - ?t" if "?c + ?t < ?n"
    using that assms(2) by (simp add: sub_small)
  have u: "u64 (?c + ?t) = ?c + ?t" using assms(1) by simp
  have d: "digest_update img ?t (?n - ?c - ?t) ctx = Inr (ctx @ img_slice img ?t (?n - ?c))" if "?c + ?t < ?n"
    using that by (intro digest_update_slice) auto
  show ?thesis
    unfolding hash_trailer_def prod.case Let_def c u trailer_ok_def
    using s d by (auto simp: not_less)
qed

lemma MeasurePeImage_valid:
  assumes v: "valid_pe img" and len: "length img < 2 ^ 32"
    and info: "PeCoffLoaderGetImageInfo (Tcg2DxeImageRead img) zero_context = Inr ic"
  shows "MeasurePeImage H md st img
    = (if trailer_ok img then Inr (H md (authenticode_stream img)) else Inl RETURN_UNSUPPORTED)"
proof -
  let ?h = "pe_header img" and ?pe = "pe_offset img" and ?n = "NumberOfSections (pe_header img)"
  note f = valid_pe_facts [OF v]
  have dos: "rd img 0 64 = Inr (take 64 img)" using f(2) by simp
  have pe: "(if e_magic (take 64 img) = EFI_IMAGE_DOS_SIGNATURE then e_lfanew (take 64 img) else 0) = ?pe"
    by (simp add: e_magic_def e_lfanew_def pe_offset_def f_take)
  have h: "rd img ?pe 264 = Inr ?h" using f(1) by (simp add: pe_header_def)
  have sig: "pe_Signature ?h = EFI_IMAGE_NT_SIGNATURE" using v by (simp add: valid_pe_def Let_def)
  let ?tbl = "sort_key PointerToRawData (section_table img)"
  have off: "?pe + 4 + 20 + SizeOfOptionalHeader ?h = sections_offset img" by (simp add: sections_offset_def)
  have tbl: "sort_headers img (sections_offset img) ?n = Inr ?tbl"
    using sort_headers_eq_aux [of "sections_offset img" ?n img] f
    by (simp add: section_table_def section_at_def [abs_def])
  have sum: "SizeOfHeaders ?h + sum_list (map SizeOfRawData ?tbl) = sum_hashed img"
    by (simp add: sum_hashed_def comp_def flip: sum_mset_sum_list)
  note bound = sum_hashed_bound [OF len v]
  have secs: "hash_sections img ?tbl (header_stream img, SizeOfHeaders ?h)
      = Inr (header_stream img @ concat (map (section_data img) ?tbl), sum_hashed img)"
    by (subst hash_sections_stream, use f(8) in \<open>fastforce simp: section_inside_def\<close>)
      (use sum bound in auto)
  show ?thesis
    unfolding MeasurePeImage_def Let_def info sum.case dos and_then_simps pe h off tbl
      hash_headers_stream [OF v len] secs hash_trailer_stream [OF bound len]
    by (simp add: sig authenticode_stream_def)
qed

text \<open>A successful \<open>PeCoffLoaderGetImageInfo\<close> on a PE image implies \<open>valid_pe\<close>.\<close>

lemma GetImageInfo_valid:
  assumes "PeCoffLoaderGetImageInfo (Tcg2DxeImageRead img) ic0 = Inr ic"
    and "length img < 2 ^ 32" and "pe_Signature (pe_header img) = EFI_IMAGE_NT_SIGNATURE"
  shows "valid_pe img"
proof -
  from assms(1) obtain ic h where "PeCoffLoaderGetPeHeader (Tcg2DxeImageRead img) ic0 = Inr (ic, h)"
    by (auto simp: PeCoffLoaderGetImageInfo_def res_simps)
  from PeCoffLoaderGetPeHeader_valid [OF this assms(2,3)] show ?thesis by blast
qed

text \<open>An image that parses but carries no PE signature (a TE image) is refused.\<close>

lemma MeasurePeImage_not_pe:
  assumes "PeCoffLoaderGetImageInfo (Tcg2DxeImageRead img) zero_context = Inr ic"
    and len: "length img < 2 ^ 32" and "pe_Signature (pe_header img) \<noteq> EFI_IMAGE_NT_SIGNATURE"
  shows "MeasurePeImage H md st img = Inl (if st then OutOfBounds else RETURN_UNSUPPORTED)"
proof -
  from assms(1) obtain ic' h where
    "PeCoffLoaderGetPeHeader (Tcg2DxeImageRead img) zero_context = Inr (ic', h)"
    by (auto simp: PeCoffLoaderGetImageInfo_def res_simps)
  from PeCoffLoaderGetPeHeader_reads [OF this len]
  have l: "64 \<le> length img" "pe_offset img + 264 \<le> length img" by auto
  have pe: "(if e_magic (take 64 img) = EFI_IMAGE_DOS_SIGNATURE then e_lfanew (take 64 img) else 0) = pe_offset img"
    by (simp add: e_magic_def e_lfanew_def pe_offset_def f_take)
  have rds: "rd img 0 64 = Inr (take 64 img)" "rd img (pe_offset img) 264 = Inr (pe_header img)"
    using l by (simp_all add: pe_header_def)
  show ?thesis
    unfolding MeasurePeImage_def Let_def assms(1) sum.case rds(1) and_then_simps pe rds(2)
    using assms(3) by simp
qed

text \<open>
  A small PE32 image with one section, used in the concrete instances: headers of 160 bytes
  with a section header at 120, eight bytes of section data at 200, file size 264.
\<close>

definition sample_pe :: "byte list" where
  "sample_pe = [0x50, 0x45, 0, 0, 0x4c, 0x01, 1, 0] @ replicate 12 0 @ [96, 0, 0, 0, 0x0b, 0x01]
     @ replicate 54 0 @ [0, 1, 0, 0, 160, 0, 0, 0, 7, 7, 7, 7] @ replicate 40 0
     @ [200, 0, 0, 0, 8, 0, 0, 0, 200, 0, 0, 0] @ replicate 56 0 @ [1, 2, 3, 4, 5, 6, 7, 8] @ replicate 56 0"

lemma sample_pe_length [simp]: "length sample_pe = 264"
  by (simp add: sample_pe_def)

lemma sample_pe_fields [simp]:
  "pe_offset sample_pe = 0" "pe_header sample_pe = sample_pe"
  "pe_Signature sample_pe = EFI_IMAGE_NT_SIGNATURE"
  "te_Signature sample_pe \<noteq> EFI_TE_IMAGE_HEADER_SIGNATURE"
  "pe_Magic sample_pe = HDR32_MAGIC" "pe_Machine sample_pe = 0x014c"
  "NumberOfRvaAndSizes sample_pe = 0" "SizeOfOptionalHeader sample_pe = 96"
  "SizeOfHeaders sample_pe = 160" "SizeOfImage sample_pe = 256" "NumberOfSections sample_pe = 1"
  "dir_base sample_pe = 96"
proof -
  show o: "pe_offset sample_pe = 0"
    by (simp add: pe_offset_def sample_pe_def f16_def EFI_IMAGE_DOS_SIGNATURE_def)
  show "pe_header sample_pe = sample_pe" by (simp add: pe_header_def o)
qed (simp_all add: sample_pe_def f16_def f32_def pe_Signature_def te_Signature_def pe_Magic_def pe_Machine_def
    NumberOfRvaAndSizes_def SizeOfOptionalHeader_def SizeOfHeaders_def SizeOfImage_def NumberOfSections_def
    dir_base_def EFI_IMAGE_NT_SIGNATURE_def EFI_TE_IMAGE_HEADER_SIGNATURE_def HDR32_MAGIC_def)

lemma sample_pe_info: "\<exists>ic. PeCoffLoaderGetImageInfo (Tcg2DxeImageRead sample_pe) zero_context = Inr ic"
proof -
  let ?r = "Tcg2DxeImageRead sample_pe"
  have r: "read_exact ?r short off n = Inr (take n (drop off sample_pe))" if "0 < n" "off + n \<le> 264" for short off n
    using that tcg2.read_exact_eq [of sample_pe n off] by simp
  have dos: "e_magic (take 64 sample_pe) \<noteq> EFI_IMAGE_DOS_SIGNATURE"
    by (simp add: e_magic_def f_take) (simp add: sample_pe_def f16_def EFI_IMAGE_DOS_SIGNATURE_def)
  have sho: "section_header_offset 0 sample_pe = 120" by (simp add: section_header_offset_def)
  have pe: "check_pe ?r sample_pe ic = Inr (ic\<lparr>ImageType := pe_Subsystem sample_pe, ImageSize := 256,
      ic_SectionAlignment := SectionAlignment sample_pe, ic_SizeOfHeaders := 160\<rparr>)"
    if "PeCoffHeaderOffset ic = 0" for ic
    using that by (simp add: check_pe_def Let_def sho r sub_small EFI_IMAGE_SIZEOF_SECTION_HEADER_def SECURITY_def)
  have secf: "VirtualAddress (take 40 (drop 120 sample_pe)) = 200"
    "SizeOfRawData (take 40 (drop 120 sample_pe)) = 8"
    "PointerToRawData (take 40 (drop 120 sample_pe)) = 200"
    by (simp_all add: VirtualAddress_def SizeOfRawData_def PointerToRawData_def f_take f_drop)
      (simp_all add: sample_pe_def f32_def)
  have sec: "check_section ?r ic k (take 40 (drop 120 sample_pe)) = Inr ()"
    if "\<not> IsTeImage ic" "ic_SizeOfHeaders ic = 160" for ic k
    using that by (simp add: check_section_def secf r UINT32_MAX_def)
  have hdr: "\<exists>ic. PeCoffLoaderGetPeHeader ?r zero_context = Inr (ic, sample_pe) \<and> \<not> IsTeImage ic"
    by (simp add: PeCoffLoaderGetPeHeader_def Let_def r dos pe sho sec PeCoffLoaderImageFormatSupported_def)
  show ?thesis
    using hdr by (auto simp: PeCoffLoaderGetImageInfo_def info_pe_def Let_def DEBUG_DIR_def)
qed

text \<open>
  C9. The measurement of a PE image is its Authenticode digest: for every file of less
  than 4 GiB that the parser accepts as a PE image, \<open>MeasurePeImage\<close> returns the digest of
  the header without checksum and certificate entry, the section data in file order and the
  data after the sections without the certificate; it reports UNSUPPORTED exactly when
  headers, sections and certificate do not fit together.
\<close>

theorem MeasurePeImage_authenticode:
  assumes "length img < 2 ^ 32"
    and "PeCoffLoaderGetImageInfo (Tcg2DxeImageRead img) zero_context = Inr ic"
    and "pe_Signature (pe_header img) = EFI_IMAGE_NT_SIGNATURE"
  shows "MeasurePeImage H md st img
    = (if trailer_ok img then Inr (H md (authenticode_stream img)) else Inl RETURN_UNSUPPORTED)"
  using GetImageInfo_valid [OF assms(2,1,3)] assms(1,2) by (rule MeasurePeImage_valid)

theorem MeasurePeImage_authenticode_witness:
  "MeasurePeImage sum_digest EVP_sha256 True sample_pe
    = (if trailer_ok sample_pe then Inr (sum_digest EVP_sha256 (authenticode_stream sample_pe))
       else Inl RETURN_UNSUPPORTED)"
proof -
  obtain ic where "PeCoffLoaderGetImageInfo (Tcg2DxeImageRead sample_pe) zero_context = Inr ic"
    using sample_pe_info by blast
  then show ?thesis by (rule MeasurePeImage_authenticode [rotated]) simp_all
qed

text \<open>
  C17. Memory safety of the measurement: when the indeterminate pointer \<open>ctx\<close> happens to be
  null, \<open>MeasurePeImage\<close> returns a digest or an error for every file of less than 4 GiB,
  whatever its bytes, and never reads outside the file.
\<close>

theorem MeasurePeImage_graceful:
  assumes "length img < 2 ^ 32"
  shows "graceful (MeasurePeImage H md False img)"
proof (cases "PeCoffLoaderGetImageInfo (Tcg2DxeImageRead img) zero_context")
  case (Inl e)
  then show ?thesis
    using PeCoffLoaderGetImageInfo_graceful_aux [OF assms, of zero_context]
    by (simp add: MeasurePeImage_def)
next
  case (Inr ic)
  show ?thesis
  proof (cases "pe_Signature (pe_header img) = EFI_IMAGE_NT_SIGNATURE")
    case True
    then show ?thesis
      using MeasurePeImage_valid [OF GetImageInfo_valid [OF Inr assms True] assms Inr, of H md False] by simp
  next
    case False
    then show ?thesis
      using MeasurePeImage_not_pe [OF Inr assms False, of H md False] by simp
  qed
qed

theorem MeasurePeImage_graceful_witness: "graceful (MeasurePeImage sum_digest EVP_sha256 False sample_pe)"
  by (rule MeasurePeImage_graceful) simp

section \<open>Signing does not change the digest\<close>

text \<open>
  \<open>signs img img'\<close>: \<open>img'\<close> is the unsigned image \<open>img\<close> with another checksum, a filled-in
  certificate directory entry, and a certificate of the entry's size appended.
\<close>

definition excluded :: "byte list \<Rightarrow> nat \<Rightarrow> bool" where
  "excluded img i \<longleftrightarrow>
     (let pe = pe_offset img; d = pe + dir_off (pe_header img) 4 in
      pe + 88 \<le> i \<and> i < pe + 92 \<or> d \<le> i \<and> i < d + 8)"

definition signs :: "byte list \<Rightarrow> byte list \<Rightarrow> bool" where
  "signs img img' \<longleftrightarrow>
     4 < NumberOfRvaAndSizes (pe_header img) \<and> dir_Size (pe_header img) 4 = 0
     \<and> length img' = length img + dir_Size (pe_header img') 4
     \<and> (\<forall>i < length img. \<not> excluded img i \<longrightarrow> img' ! i = img ! i)"

lemma signs_slice:
  assumes "signs img img'" and "b \<le> length img" and "\<And>i. a \<le> i \<Longrightarrow> i < b \<Longrightarrow> \<not> excluded img i"
  shows "img_slice img' a b = img_slice img a b"
proof (rule nth_equalityI)
  have "length img \<le> length img'" using assms(1) by (simp add: signs_def)
  with assms(2) show "length (img_slice img' a b) = length (img_slice img a b)"
    by (simp add: img_slice_def)
  fix j assume "j < length (img_slice img' a b)"
  then have j: "a + j < b" by (simp add: img_slice_def) linarith
  with assms \<open>length img \<le> length img'\<close> show "img_slice img' a b ! j = img_slice img a b ! j"
    by (simp add: img_slice_def signs_def)
qed

lemma excluded_range:
  assumes "excluded img i"
  shows "pe_offset img + 88 \<le> i" and "i < pe_offset img + dir_off (pe_header img) 4 + 8"
  using assms by (auto simp: excluded_def Let_def dir_off_def dir_base_def split: if_splits)

lemma f_slice:
  "k + 2 \<le> 264 \<Longrightarrow> f16 (pe_header img) k = le (img_slice img (pe_offset img + k) (pe_offset img + k + 2))"
  "k + 4 \<le> 264 \<Longrightarrow> f32 (pe_header img) k = le (img_slice img (pe_offset img + k) (pe_offset img + k + 4))"
  by (simp_all add: pe_header_def f_take f_drop) (simp_all add: f16_def f32_def img_slice_def add.commute)

lemma signs_layout:
  assumes sg: "signs img img'" and v: "valid_pe img"
  shows "pe_offset img' = pe_offset img"
    and "NumberOfRvaAndSizes (pe_header img') = NumberOfRvaAndSizes (pe_header img)"
    and "SizeOfHeaders (pe_header img') = SizeOfHeaders (pe_header img)"
    and "dir_base (pe_header img') = dir_base (pe_header img)"
    and "section_table img' = section_table img"
proof -
  let ?h = "pe_header img" and ?h' = "pe_header img'" and ?pe = "pe_offset img"
  note f = valid_pe_facts [OF v]
  have early: "img_slice img' a b = img_slice img a b" if "b \<le> ?pe + 88" for a b
    using that f(1) excluded_range(1) [of img] by (intro signs_slice [OF sg]) fastforce+
  have "f16 img' 0 = f16 img 0" "f32 img' 60 = f32 img 60"
    using early [of 2 0] early [of 64 60] by (simp_all add: f16_def f32_def img_slice_def)
  then show pe: "pe_offset img' = ?pe" by (simp add: pe_offset_def)
  have h32: "f32 ?h' k = f32 ?h k" if "k + 4 \<le> 88" for k
    using that early [of "?pe + k + 4" "?pe + k"] by (simp add: f_slice pe)
  have h16: "f16 ?h' k = f16 ?h k" if "k + 2 \<le> 88" for k
    using that early [of "?pe + k + 2" "?pe + k"] by (simp add: f_slice pe)
  show soh: "SizeOfHeaders ?h' = SizeOfHeaders ?h" by (simp add: SizeOfHeaders_def h32)
  show base: "dir_base ?h' = dir_base ?h" by (simp add: dir_base_def pe_Magic_def h16)
  have n: "NumberOfSections ?h' = NumberOfSections ?h" "SizeOfOptionalHeader ?h' = SizeOfOptionalHeader ?h"
    by (simp_all add: NumberOfSections_def SizeOfOptionalHeader_def h16)
  let ?k = "24 + dir_base ?h - 4"
  have b: "92 \<le> ?k" "?k + 4 \<le> 264" "?k + 4 \<le> dir_off ?h 4"
    using f(7) by (simp_all add: dir_base_def dir_off_def)
  have "img_slice img' (?pe + ?k) (?pe + ?k + 4) = img_slice img (?pe + ?k) (?pe + ?k + 4)"
    by (rule signs_slice [OF sg]) (use b f(1) in \<open>auto simp: excluded_def Let_def\<close>)
  then show "NumberOfRvaAndSizes ?h' = NumberOfRvaAndSizes ?h"
    using b by (simp add: NumberOfRvaAndSizes_def base f_slice pe)
  have "5 \<le> NumberOfRvaAndSizes ?h" using sg by (simp add: signs_def)
  with f(3) have so: "?pe + dir_off ?h 4 + 8 \<le> sections_offset img" by (simp add: dir_off_def)
  have "section_at img' i = section_at img i" if "i < NumberOfSections ?h" for i
  proof -
    have e: "sections_offset img + 40 * i + 40 \<le> length img"
    proof -
      have "40 * i + 40 \<le> 40 * NumberOfSections ?h" using that by simp
      then show ?thesis using f(4,6) by linarith
    qed
    have "img_slice img' (sections_offset img + 40 * i) (sections_offset img + 40 * i + 40)
        = img_slice img (sections_offset img + 40 * i) (sections_offset img + 40 * i + 40)"
      by (rule signs_slice [OF sg e]) (use excluded_range(2) [of img] so in fastforce)
    then show ?thesis
      by (simp add: section_at_def sections_offset_def pe n img_slice_def)
  qed
  then show "section_table img' = section_table img" by (simp add: section_table_def n)
qed

lemma signs_stream:
  assumes sg: "signs img img'" and v: "valid_pe img"
  shows "authenticode_stream img' = authenticode_stream img"
proof -
  let ?h = "pe_header img" and ?pe = "pe_offset img"
  note f = valid_pe_facts [OF v] and l = signs_layout [OF sg v]
  have n5: "4 < NumberOfRvaAndSizes ?h" using sg by (simp add: signs_def)
  have so: "?pe + dir_off ?h 4 + 8 \<le> SizeOfHeaders ?h" "dir_off ?h 5 = dir_off ?h 4 + 8"
    "?pe + 92 \<le> ?pe + dir_off ?h 4"
    using f(3,5,7) n5 by (simp_all add: dir_off_def)
  have d: "dir_off (pe_header img') i = dir_off ?h i" for i by (simp add: dir_off_def l)
  have late: "img_slice img' a b = img_slice img a b"
    if "?pe + dir_off ?h 4 + 8 \<le> a" "b \<le> length img" for a b
    by (rule signs_slice [OF sg]) (use that excluded_range(2) [of img] in fastforce)+
  have "img_slice img' 0 (?pe + 88) = img_slice img 0 (?pe + 88)"
    by (rule signs_slice [OF sg]) (use f(1) excluded_range(1) [of img] in fastforce)+
  then have t: "take (?pe + 88) img' = take (?pe + 88) img" by (simp add: img_slice_def)
  have "img_slice img' (?pe + 92) (?pe + dir_off ?h 4) = img_slice img (?pe + 92) (?pe + dir_off ?h 4)"
    by (rule signs_slice [OF sg]) (use f(6) so in \<open>auto simp: excluded_def Let_def\<close>)
  with t late [of "?pe + dir_off ?h 5" "SizeOfHeaders ?h"] so f(6)
  have hs: "header_stream img' = header_stream img"
    using n5 by (simp add: header_stream_def l d Let_def)
  have "section_data img' s = section_data img s" if "s \<in> set (section_table img)" for s
  proof (cases "SizeOfRawData s = 0")
    case False
    with f(8) [OF that] so(1) show ?thesis
      unfolding section_data_def by (intro late) (auto simp: section_inside_def)
  qed (simp add: section_data_def)
  then have sd: "map (section_data img') (sort_key PointerToRawData (section_table img))
      = map (section_data img) (sort_key PointerToRawData (section_table img))" by simp
  have c: "length img' - cert_size img' = length img" "cert_size img = 0" "sum_hashed img' = sum_hashed img"
    using sg n5 by (simp_all add: signs_def cert_size_def sum_hashed_def l Let_def)
  have "img_slice img' (sum_hashed img) (length img) = img_slice img (sum_hashed img) (length img)"
    by (rule late) (use so in \<open>simp_all add: sum_hashed_def\<close>)
  then show ?thesis by (simp add: authenticode_stream_def hs sd c l)
qed

lemma MeasurePeImage_Inr:
  assumes "MeasurePeImage H md st img = Inr d" and len: "length img < 2 ^ 32"
  shows "valid_pe img \<and> d = H md (authenticode_stream img)"
proof -
  obtain ic where info: "PeCoffLoaderGetImageInfo (Tcg2DxeImageRead img) zero_context = Inr ic"
    using assms(1) by (cases "PeCoffLoaderGetImageInfo (Tcg2DxeImageRead img) zero_context")
      (auto simp: MeasurePeImage_def split: if_splits)
  have sig: "pe_Signature (pe_header img) = EFI_IMAGE_NT_SIGNATURE"
    using MeasurePeImage_not_pe [OF info len, of H md st] assms(1) by auto
  note v = GetImageInfo_valid [OF info len sig]
  show ?thesis using MeasurePeImage_valid [OF v len info, of H md st] assms(1) v
    by (auto split: if_splits)
qed

lemma MeasurePeImage_empty: "MeasurePeImage H md False [] = Inl RETURN_UNSUPPORTED"
proof -
  have "read_exact (Tcg2DxeImageRead []) RETURN_UNSUPPORTED 0 64 = Inl RETURN_UNSUPPORTED"
    using tcg2.read_exact_eq [of "[]" 64 0] by simp
  then show ?thesis
    by (simp add: MeasurePeImage_def PeCoffLoaderGetImageInfo_def PeCoffLoaderGetPeHeader_def)
qed

text \<open>
  C18. Signing an image does not change its measurement: if \<open>img'\<close> is the unsigned image
  \<open>img\<close> with any checksum, a certificate directory entry and a certificate appended, and both
  are measured successfully, the two digests are equal.
\<close>

theorem MeasurePeImage_signing_invariant:
  assumes "signs img img'" and "length img < 2 ^ 32" and "length img' < 2 ^ 32"
    and "MeasurePeImage H md st img = Inr d" and "MeasurePeImage H md st' img' = Inr d'"
  shows "d' = d"
  using MeasurePeImage_Inr [OF assms(4,2)] MeasurePeImage_Inr [OF assms(5,3)]
    signs_stream [OF assms(1)] by simp

definition sample_cert :: "byte \<Rightarrow> byte list \<Rightarrow> byte list \<Rightarrow> byte list" where
  "sample_cert checksum entry cert = [0x50, 0x45, 0, 0, 0x4c, 0x01, 0, 0] @ replicate 12 0
     @ [136, 0, 0, 0, 0x0b, 0x01] @ replicate 54 0 @ [0, 1, 0, 0, 168, 0, 0, 0, checksum, 0, 0, 0]
     @ replicate 24 0 @ [5, 0, 0, 0] @ replicate 32 0 @ entry @ replicate 104 3 @ cert"

definition sample_unsigned :: "byte list" where
  "sample_unsigned = sample_cert 0 (replicate 8 0) []"

definition sample_signed :: "byte list" where
  "sample_signed = sample_cert 77 [8, 1, 0, 0, 8, 0, 0, 0] [9, 9, 9, 9, 9, 9, 9, 9]"

lemma sample_cert_length [simp]: "length sample_unsigned = 264" "length sample_signed = 272"
  by (simp_all add: sample_unsigned_def sample_signed_def sample_cert_def)

lemma sample_cert_fields [simp]:
  assumes "length entry = 8" and "img = sample_cert c entry cert"
  shows "pe_offset img = 0" and "pe_header img = take 264 img"
    and "pe_Signature (take 264 img) = EFI_IMAGE_NT_SIGNATURE"
    and "te_Signature (take 264 img) \<noteq> EFI_TE_IMAGE_HEADER_SIGNATURE"
    and "pe_Magic (take 264 img) = HDR32_MAGIC" and "pe_Machine (take 264 img) = 0x014c"
    and "NumberOfRvaAndSizes (take 264 img) = 5" and "SizeOfOptionalHeader (take 264 img) = 136"
    and "SizeOfHeaders (take 264 img) = 168" and "SizeOfImage (take 264 img) = 256"
    and "NumberOfSections (take 264 img) = 0" and "dir_base (take 264 img) = 96"
    and "dir_VirtualAddress (take 264 img) 4 = le (take 4 entry)"
    and "dir_Size (take 264 img) 4 = le (take 4 (drop 4 entry))"
    and "e_magic (take 64 img) \<noteq> EFI_IMAGE_DOS_SIGNATURE"
proof -
  show o: "pe_offset img = 0"
    by (simp add: assms(2) pe_offset_def sample_cert_def f16_def EFI_IMAGE_DOS_SIGNATURE_def)
  show "pe_header img = take 264 img" by (simp add: pe_header_def o)
  show m: "pe_Magic (take 264 img) = HDR32_MAGIC"
    by (simp add: pe_Magic_def f_take assms(2) sample_cert_def f16_def HDR32_MAGIC_def)
  show "dir_base (take 264 img) = 96" using m by (simp add: dir_base_def)
  then show "NumberOfRvaAndSizes (take 264 img) = 5" "dir_VirtualAddress (take 264 img) 4 = le (take 4 entry)"
    "dir_Size (take 264 img) 4 = le (take 4 (drop 4 entry))"
    by (simp_all add: NumberOfRvaAndSizes_def dir_VirtualAddress_def dir_Size_def dir_off_def f_take)
      (simp_all add: assms sample_cert_def f32_def)
qed (simp_all add: pe_Signature_def te_Signature_def pe_Machine_def SizeOfOptionalHeader_def SizeOfHeaders_def
    SizeOfImage_def NumberOfSections_def e_magic_def f_take,
   simp_all add: assms(2) sample_cert_def f16_def f32_def EFI_IMAGE_DOS_SIGNATURE_def
    EFI_IMAGE_NT_SIGNATURE_def EFI_TE_IMAGE_HEADER_SIGNATURE_def)

lemma sample_cert_measured:
  assumes e: "length entry = 8" and img: "img = sample_cert c entry cert"
    and len: "length img = 264 + length cert" "length cert < 256"
    and sz: "le (take 4 (drop 4 entry)) = length cert" and va: "le (take 4 entry) \<le> 264"
  shows "\<exists>d. MeasurePeImage H md st img = Inr d"
proof -
  let ?r = "Tcg2DxeImageRead img"
  note fs = sample_cert_fields [OF e img]
  have r: "read_exact ?r short off n = Inr (take n (drop off img))"
    if "0 < n" "off + n \<le> length img" for short off n
    using that len tcg2.read_exact_eq [of img n off] by simp
  have sho: "section_header_offset 0 (take 264 img) = 160" by (simp add: section_header_offset_def fs)
  have chk: "length cert \<le> 4294967295 - le (take 4 entry)" using va len(2) by simp
  have pe: "\<exists>ic'. check_pe ?r (take 264 img) ic = Inr ic' \<and> IsTeImage ic' = IsTeImage ic \<and> ic_Machine ic' = ic_Machine ic"
    if "PeCoffHeaderOffset ic = 0" for ic
    using that len sz va chk by (auto simp: not_less check_pe_def Let_def sho fs r sub_small
        EFI_IMAGE_SIZEOF_SECTION_HEADER_def SECURITY_def UINT32_MAX_def)
  have hdr: "\<exists>ic. PeCoffLoaderGetPeHeader ?r zero_context = Inr (ic, take 264 img) \<and> \<not> IsTeImage ic"
    using pe [of "zero_context\<lparr>PeCoffHeaderOffset := 0, IsTeImage := False, ic_Machine := 0x014c\<rparr>"]
    by (auto simp: PeCoffLoaderGetPeHeader_def Let_def r len fs sho PeCoffLoaderImageFormatSupported_def)
  then obtain ic where info: "PeCoffLoaderGetImageInfo ?r zero_context = Inr ic"
    by (auto simp: PeCoffLoaderGetImageInfo_def info_pe_def Let_def DEBUG_DIR_def fs)
  have l32: "length img < 2 ^ 32" using len by simp
  have v: "valid_pe img" by (rule GetImageInfo_valid [OF info l32]) (simp add: fs)
  have "section_table img = []" by (simp add: section_table_def fs)
  then have "trailer_ok img" using len sz by (simp add: trailer_ok_def cert_size_def sum_hashed_def fs)
  then show ?thesis by (simp add: MeasurePeImage_valid [OF v l32 info])
qed

lemma sample_cert_nth:
  assumes "length e = 8" and "length e' = 8" and "i < 264"
    and "\<not> (88 \<le> i \<and> i < 92)" and "\<not> (152 \<le> i \<and> i < 160)"
  shows "sample_cert c e cert ! i = sample_cert c' e' cert' ! i"
proof -
  define P :: "byte list" where "P = [0x50, 0x45, 0, 0, 0x4c, 0x01, 0, 0] @ replicate 12 0
     @ [136, 0, 0, 0, 0x0b, 0x01] @ replicate 54 0 @ [0, 1, 0, 0, 168, 0, 0, 0]"
  define M :: "byte list" where "M = replicate 24 0 @ [5, 0, 0, 0] @ replicate 32 0"
  define T :: "byte list" where "T = replicate 104 3"
  have l: "length P = 88" "length M = 60" "length T = 104" by (simp_all add: P_def M_def T_def)
  have s: "sample_cert c e cert = P @ [c, 0, 0, 0] @ M @ e @ T @ cert" for c e cert
    by (simp add: sample_cert_def P_def M_def T_def)
  show ?thesis unfolding s using assms l by (auto simp: nth_append)
qed

lemma sample_signs: "signs sample_unsigned sample_signed"
proof -
  have "sample_signed ! i = sample_unsigned ! i" if "i < 264" "\<not> excluded sample_unsigned i" for i
    using that sample_cert_fields [OF _ sample_unsigned_def]
    unfolding sample_signed_def sample_unsigned_def
    by (intro sample_cert_nth) (auto simp: excluded_def Let_def dir_off_def)
  then show ?thesis
    using sample_cert_fields [OF _ sample_unsigned_def] sample_cert_fields [OF _ sample_signed_def]
    by (auto simp: signs_def)
qed

theorem MeasurePeImage_signing_invariant_witness:
  "MeasurePeImage sum_digest EVP_sha256 False sample_signed
     = MeasurePeImage sum_digest EVP_sha256 False sample_unsigned"
proof -
  obtain d d' where *: "MeasurePeImage sum_digest EVP_sha256 False sample_unsigned = Inr d"
    "MeasurePeImage sum_digest EVP_sha256 False sample_signed = Inr d'"
    using sample_cert_measured [OF _ sample_unsigned_def, of sum_digest EVP_sha256 False]
      sample_cert_measured [OF _ sample_signed_def, of sum_digest EVP_sha256 False] by auto
  have "d' = d" by (rule MeasurePeImage_signing_invariant [OF sample_signs _ _ *]) simp_all
  with * show ?thesis by simp
qed

end
