(* ===== verification/KernelConfig.thy ===== *)
theory KernelConfig
  imports Common
begin

text \<open>
  \<^verbatim>\<open>src/common/kernel_config.c\<close>: the boot loader's settings, read from a text file of
  \<open>Name=value\<close> lines, and their insertion into the setup header of a kernel image; with the
  C library functions it uses on text (\<open>isspace\<close>, \<open>strtol\<close>, \<open>getline\<close>).
\<close>

section \<open>Text helpers\<close>

definition isspace :: "char \<Rightarrow> bool" where
  "isspace c \<longleftrightarrow> c = CHR '' '' \<or> (9 \<le> (of_char c :: nat) \<and> (of_char c :: nat) \<le> 13)"

definition trim :: "string \<Rightarrow> string" where
  "trim s = rev (dropWhile isspace (rev (dropWhile isspace s)))"

definition digit_value :: "char \<Rightarrow> nat option" where
  "digit_value c = (let n = of_char c :: nat in
     if 48 \<le> n \<and> n \<le> 57 then Some (n - 48)
     else if 65 \<le> n \<and> n \<le> 90 then Some (n - 55)
     else if 97 \<le> n \<and> n \<le> 122 then Some (n - 87) else None)"

definition is_digit :: "nat \<Rightarrow> char \<Rightarrow> bool" where
  "is_digit base c = (case digit_value c of None \<Rightarrow> False | Some d \<Rightarrow> d < base)"

fun digits_value :: "nat \<Rightarrow> nat \<Rightarrow> string \<Rightarrow> nat" where
  "digits_value base acc [] = acc"
| "digits_value base acc (c # cs) =
     (if is_digit base c then digits_value base (acc * base + the (digit_value c)) cs else acc)"

definition hex_prefix :: "string \<Rightarrow> bool" where
  "hex_prefix s = (case s of a # b # c # _ \<Rightarrow>
       a = CHR ''0'' \<and> (b = CHR ''x'' \<or> b = CHR ''X'') \<and> is_digit 16 c | _ \<Rightarrow> False)"

text \<open>
  \<open>strtol(s, NULL, base)\<close> for base 0, 8, 10 and 16: optional white space, sign and prefix,
  then the longest run of digits; the value saturates at the ends of \<open>long\<close>.
\<close>

definition strtol :: "nat \<Rightarrow> string \<Rightarrow> int" where
  "strtol base s =
     (let s = dropWhile isspace s;
          neg = (case s of c # _ \<Rightarrow> c = CHR ''-'' | [] \<Rightarrow> False);
          s = (case s of c # cs \<Rightarrow> if c = CHR ''-'' \<or> c = CHR ''+'' then cs else s | [] \<Rightarrow> []);
          pre = (base = 0 \<or> base = 16) \<and> hex_prefix s;
          b = (if pre then 16 else if base = 0 then (case s of c # _ \<Rightarrow> if c = CHR ''0'' then 8 else 10 | [] \<Rightarrow> 10)
               else base);
          v = int (digits_value b 0 (if pre then drop 2 s else s))
      in max (- (2 ^ 63)) (min (2 ^ 63 - 1) (if neg then - v else v)))"

text \<open>The lines that successive calls of \<open>getline\<close> return, each with its newline.\<close>

fun getlines_go :: "byte list \<Rightarrow> byte list \<Rightarrow> byte list list" where
  "getlines_go acc [] = (if acc = [] then [] else [rev acc])"
| "getlines_go acc (b # bs) =
     (if b = 0x0A then rev (b # acc) # getlines_go [] bs else getlines_go (b # acc) bs)"

definition getlines :: "byte list \<Rightarrow> byte list list" where
  "getlines bs = getlines_go [] bs"

section \<open>The configuration\<close>

text \<open>
  \<open>config_t\<close>: the fields of \<open>kernel_setup_hdr_t\<close> that can be set (\<open>not_implemented\<close> and
  \<open>ramdisk_max\<close> are never read).
\<close>

record config_t =
  type_of_loader :: "8 word"
  loadflags :: "8 word"
  setup_move_size :: "16 word"
  code32_start :: "32 word"
  ramdisk_image :: "32 word"
  ramdisk_size :: "32 word"
  bootsect_kludge :: "32 word"
  heap_end_ptr :: "16 word"
  ext_loader_ver :: "8 word"
  ext_loader_type :: "8 word"
  cmd_line_ptr :: "32 word"

definition set_val :: "config_t \<Rightarrow> string \<Rightarrow> string \<Rightarrow> config_t res" where
  "set_val c var val =
     (if var = ''PeCoffTypeOfLoader'' then Inr (c\<lparr>type_of_loader := word_of_int (strtol 16 val)\<rparr>)
      else if var = ''PeCoffLoadFlags'' then Inr (c\<lparr>loadflags := word_of_int (strtol 16 val)\<rparr>)
      else if var = ''PeCoffSetupMoveSize'' then Inr (c\<lparr>setup_move_size := word_of_int (strtol 16 val)\<rparr>)
      else if var = ''PeCoffCode32Start'' then Inr (c\<lparr>code32_start := word_of_int (strtol 16 val)\<rparr>)
      else if var = ''PeCoffRamdiskImage'' then Inr (c\<lparr>ramdisk_image := word_of_int (strtol 16 val)\<rparr>)
      else if var = ''PeCoffRamdiskSize'' then Inr (c\<lparr>ramdisk_size := word_of_int (strtol 16 val)\<rparr>)
      else if var = ''PeCoffBootsectKludge'' then Inr (c\<lparr>bootsect_kludge := word_of_int (strtol 16 val)\<rparr>)
      else if var = ''PeCoffHeapEndPtr'' then Inr (c\<lparr>heap_end_ptr := word_of_int (strtol 16 val)\<rparr>)
      else if var = ''PeCoffExtLoaderVer'' then Inr (c\<lparr>ext_loader_ver := word_of_int (strtol 16 val)\<rparr>)
      else if var = ''PeCoffExtLoaderType'' then Inr (c\<lparr>ext_loader_type := word_of_int (strtol 16 val)\<rparr>)
      else if var = ''PeCoffCmdLinePtr'' then Inr (c\<lparr>cmd_line_ptr := word_of_int (strtol 16 val)\<rparr>)
      else Inl (Fail (-1)))"

text \<open>The body of the loop of \<open>config_load\<close>: lines without a name or a value are skipped.\<close>

definition config_line :: "byte list \<Rightarrow> config_t \<Rightarrow> config_t res" where
  "config_line line c =
     (case strtok_all (\<lambda>ch. ch = CHR ''='') (chars (cstr line)) of
        var # val # _ \<Rightarrow> set_val c (trim var) (trim val)
      | _ \<Rightarrow> Inr c)"

definition config_load :: "filesys \<Rightarrow> config_t \<Rightarrow> string \<Rightarrow> config_t res" where
  "config_load fs config config_file =
     (case fs config_file of None \<Rightarrow> Inl (Fail (-1))
      | Some b \<Rightarrow> fold_res config_line (getlines b) config)"

section \<open>Preparing the kernel\<close>

definition SETUP_OFFSET :: nat where "SETUP_OFFSET = 0x210"
definition sizeof_kernel_setup_hdr :: nat where "sizeof_kernel_setup_hdr = 0x230"

definition setup_bytes :: "config_t \<Rightarrow> byte list" where
  "setup_bytes c =
     [type_of_loader c, loadflags c] @ to_le 2 (unat (setup_move_size c))
     @ to_le 4 (unat (code32_start c)) @ to_le 4 (unat (ramdisk_image c))
     @ to_le 4 (unat (ramdisk_size c)) @ to_le 4 (unat (bootsect_kludge c))
     @ to_le 2 (unat (heap_end_ptr c)) @ [ext_loader_ver c, ext_loader_type c]
     @ to_le 4 (unat (cmd_line_ptr c))"

definition config_prepare_kernel_pecoff :: "byte list \<Rightarrow> config_t \<Rightarrow> byte list res" where
  "config_prepare_kernel_pecoff buf config =
     and_then (check (\<not> length buf < sizeof_kernel_setup_hdr) (Fail (-1))) (\<lambda>_.
       wr buf SETUP_OFFSET (setup_bytes config))"

lemma length_setup_bytes [simp]: "length (setup_bytes c) = 28"
  by (simp add: setup_bytes_def)

text \<open>The setup header of an image, read back field by field.\<close>

definition read_setup :: "byte list \<Rightarrow> config_t" where
  "read_setup buf = (let f = (\<lambda>n off. le (take n (drop (SETUP_OFFSET + off) buf))) in
     \<lparr>type_of_loader = of_nat (f 1 0), loadflags = of_nat (f 1 1), setup_move_size = of_nat (f 2 2),
      code32_start = of_nat (f 4 4), ramdisk_image = of_nat (f 4 8), ramdisk_size = of_nat (f 4 12),
      bootsect_kludge = of_nat (f 4 16), heap_end_ptr = of_nat (f 2 20), ext_loader_ver = of_nat (f 1 22),
      ext_loader_type = of_nat (f 1 23), cmd_line_ptr = of_nat (f 4 24)\<rparr>)"

lemma le_to_le_word:
  "of_nat (le (to_le 2 (unat (a :: 16 word)))) = a" "of_nat (le (to_le 4 (unat (b :: 32 word)))) = b"
  by (simp_all add: le_to_le unat_mod_width)

lemma read_setup_bytes:
  assumes "length pre = SETUP_OFFSET"
  shows "read_setup (pre @ setup_bytes c @ rest) = c"
  using assms by (simp add: read_setup_def setup_bytes_def le_to_le_word Let_def)

text \<open>
  C29. Preparing a kernel image with the boot loader's settings never leaves the image: an
  image of at least the setup header's size keeps its length and every byte outside the 28
  bytes at 0x210, which then hold exactly the settings; a shorter image is the error -1.
\<close>

theorem config_prepare_kernel_pecoff_effect:
  "case config_prepare_kernel_pecoff buf c of
     Inl e \<Rightarrow> length buf < 0x230 \<and> e = Fail (-1)
   | Inr out \<Rightarrow> 0x230 \<le> length buf \<and> length out = length buf \<and> read_setup out = c
       \<and> take 0x210 out = take 0x210 buf \<and> drop 0x22C out = drop 0x22C buf"
proof (cases "length buf < 0x230")
  case True
  then show ?thesis by (simp add: config_prepare_kernel_pecoff_def sizeof_kernel_setup_hdr_def)
next
  case False
  let ?out = "take 0x210 buf @ setup_bytes c @ drop (0x210 + 28) buf"
  have "config_prepare_kernel_pecoff buf c = Inr ?out"
    using False by (simp add: config_prepare_kernel_pecoff_def sizeof_kernel_setup_hdr_def wr_def SETUP_OFFSET_def)
  moreover have "read_setup ?out = c"
    by (rule read_setup_bytes) (use False in \<open>simp add: SETUP_OFFSET_def\<close>)
  ultimately show ?thesis using False by simp
qed

section \<open>A rendered configuration is read back\<close>

lemma digit_facts:
  assumes "d < 16"
  shows "digit_value (digit d) = Some d \<and> \<not> isspace (digit d) \<and> digit d \<noteq> CHR ''=''
    \<and> digit d \<noteq> CHR 0x00 \<and> digit d \<noteq> CHR 0x0A"
proof -
  from assms have "d \<in> {0, 1, 2, 3, 4, 5, 6, 7, 8, 9, 10, 11, 12, 13, 14, 15}"
    unfolding insert_iff empty_iff by presburger
  then show ?thesis
    by (elim insertE emptyE) (simp_all add: digit_def digit_value_def isspace_def Let_def)
qed

lemma set_hex: "c \<in> set (hex n) \<Longrightarrow> \<exists>d<16. c = digit d"
proof (induction n rule: less_induct)
  case (less n)
  show ?case
  proof (cases "n < 16")
    case True
    then show ?thesis using less.prems by (auto simp: hex_def num_base.simps [of 16 n])
  next
    case False
    then have "c \<in> set (hex (n div 16)) \<or> c = digit (n mod 16)"
      using less.prems by (auto simp: hex_def num_base.simps [of 16 n])
    then show ?thesis
    proof
      assume "c \<in> set (hex (n div 16))"
      then show ?thesis using less.IH [of "n div 16"] False by simp
    next
      assume "c = digit (n mod 16)"
      then show ?thesis by (intro exI [of _ "n mod 16"]) simp
    qed
  qed
qed

lemma hex_nonempty [simp]: "hex n \<noteq> []"
  by (simp add: hex_def num_base.simps [of 16 n])

lemma digits_value_snoc:
  "(\<forall>c\<in>set cs. is_digit b c) \<Longrightarrow> is_digit b c
    \<Longrightarrow> digits_value b acc (cs @ [c]) = digits_value b acc cs * b + the (digit_value c)"
  by (induction b acc cs rule: digits_value.induct) auto

lemma is_digit_hex: "\<forall>c\<in>set (hex n). is_digit 16 c"
  using set_hex digit_facts by (fastforce simp: is_digit_def)

lemma digits_value_hex: "digits_value 16 0 (hex n) = n"
proof (induction n rule: less_induct)
  case (less n)
  have d: "is_digit 16 (digit (n mod 16))" "digit_value (digit (n mod 16)) = Some (n mod 16)"
    using digit_facts [of "n mod 16"] by (auto simp: is_digit_def)
  show ?case
  proof (cases "n < 16")
    case True
    then show ?thesis using d by (simp add: hex_def num_base.simps [of 16 n])
  next
    case False
    then have "hex n = hex (n div 16) @ [digit (n mod 16)]"
      by (simp add: hex_def num_base.simps [of 16 n])
    then show ?thesis
      using digits_value_snoc [OF is_digit_hex d(1)] less.IH [of "n div 16"] False d(2) by simp
  qed
qed

lemma strtol_hex:
  assumes "n < 2 ^ 63"
  shows "strtol 16 (''0x'' @ hex n) = int n"
proof -
  obtain c cs where h: "hex n = c # cs" using hex_nonempty [of n] by (cases "hex n") auto
  have "hex_prefix (''0x'' @ hex n)" using is_digit_hex [of n] by (simp add: h hex_prefix_def)
  moreover have "dropWhile isspace (''0x'' @ hex n) = ''0x'' @ hex n" by (simp add: isspace_def)
  ultimately show ?thesis using assms by (simp add: strtol_def Let_def digits_value_hex)
qed

lemma strtok_go_prefix:
  "(\<forall>c\<in>set xs. \<not> d c) \<Longrightarrow> strtok_go d acc (xs @ ys) = strtok_go d (rev xs @ acc) ys"
  by (induction xs arbitrary: acc) auto

lemma strtok_two:
  assumes "\<forall>c\<in>set xs. \<not> d c" and "\<forall>c\<in>set ys. \<not> d c" and "d c" and "xs \<noteq> []" and "ys \<noteq> []"
  shows "strtok_all d (xs @ c # ys) = [xs, ys]"
  using assms strtok_go_prefix [OF assms(2), of "[]" "[]"]
  by (simp add: strtok_all_def strtok_go_prefix)

lemma trim_pad:
  assumes "\<forall>c\<in>set l. isspace c" and "\<forall>c\<in>set r. isspace c" and "s \<noteq> []" and "\<forall>c\<in>set s. \<not> isspace c"
  shows "trim (l @ s @ r) = s"
proof -
  have a: "dropWhile isspace (l @ s @ r) = s @ r"
    using assms by (cases s) (auto simp: dropWhile_append)
  have "dropWhile isspace (rev r @ rev s) = rev s"
    using assms by (cases "rev s") (auto simp: dropWhile_append)
  then show ?thesis by (simp add: trim_def a)
qed

lemma getlines_go_line:
  "0x0A \<notin> set l \<Longrightarrow> getlines_go acc (l @ 0x0A # rest) = (rev acc @ l @ [0x0A]) # getlines_go [] rest"
  by (induction l arbitrary: acc) auto

lemma getlines_concat:
  "\<forall>l\<in>set ls. 0x0A \<notin> set l \<Longrightarrow> getlines (concat (map (\<lambda>l. l @ [0x0A]) ls)) = map (\<lambda>l. l @ [0x0A]) ls"
  by (induction ls) (auto simp: getlines_def getlines_go_line)

text \<open>The shape of the files under \<^verbatim>\<open>configs/\<close>: one line per setting.\<close>

definition config_text_line :: "string \<times> nat \<Rightarrow> byte list" where
  "config_text_line nv = bytes_of (fst nv @ '' = 0x'' @ hex (snd nv))"

definition config_settings :: "config_t \<Rightarrow> (string \<times> nat) list" where
  "config_settings c =
     [(''PeCoffTypeOfLoader'', unat (type_of_loader c)), (''PeCoffLoadFlags'', unat (loadflags c)),
      (''PeCoffSetupMoveSize'', unat (setup_move_size c)), (''PeCoffCode32Start'', unat (code32_start c)),
      (''PeCoffRamdiskImage'', unat (ramdisk_image c)), (''PeCoffRamdiskSize'', unat (ramdisk_size c)),
      (''PeCoffBootsectKludge'', unat (bootsect_kludge c)), (''PeCoffHeapEndPtr'', unat (heap_end_ptr c)),
      (''PeCoffExtLoaderVer'', unat (ext_loader_ver c)), (''PeCoffExtLoaderType'', unat (ext_loader_type c)),
      (''PeCoffCmdLinePtr'', unat (cmd_line_ptr c))]"

definition config_text :: "config_t \<Rightarrow> byte list" where
  "config_text c = concat (map (\<lambda>nv. config_text_line nv @ [0x0A]) (config_settings c))"

definition plain :: "char \<Rightarrow> bool" where
  "plain c \<longleftrightarrow> \<not> isspace c \<and> c \<noteq> CHR ''='' \<and> c \<noteq> CHR 0x00 \<and> c \<noteq> CHR 0x0A"

lemma plain_hex: "\<forall>c\<in>set (hex n). plain c"
  using set_hex digit_facts by (fastforce simp: plain_def)

lemma bytes_of_append [simp]: "bytes_of (a @ b) = bytes_of a @ bytes_of b"
  by (simp add: bytes_of_def)

lemma bytes_of_Nil [simp]: "bytes_of [] = []"
  by (simp add: bytes_of_def)

lemma bytes_of_Cons [simp]: "bytes_of (c # cs) = of_nat (of_char c) # bytes_of cs"
  by (simp add: bytes_of_def)

lemma set_bytes_of: "set (bytes_of s) = (\<lambda>c. of_nat (of_char c)) ` set s"
  by (simp add: bytes_of_def)

lemma byte_of_char_inj: "(of_nat (of_char c) :: byte) = of_nat (of_char d) \<longleftrightarrow> c = d"
proof
  assume "(of_nat (of_char c) :: byte) = of_nat (of_char d)"
  then have "char_of (unat (of_nat (of_char c) :: byte)) = (char_of (unat (of_nat (of_char d) :: byte)) :: char)"
    by simp
  then show "c = d" by (simp add: unat_of_nat)
qed simp

lemma config_line_setting:
  assumes "\<forall>c\<in>set n. plain c" and "n \<noteq> []" and "v < 2 ^ 63"
  shows "config_line (config_text_line (n, v) @ [0x0A]) c = set_val c n (''0x'' @ hex v)"
proof -
  let ?t = "n @ '' = 0x'' @ hex v @ nl"
  have t: "config_text_line (n, v) @ [0x0A] = bytes_of ?t"
    by (simp add: config_text_line_def nl_def)
  have nz: "\<forall>b\<in>set (bytes_of ?t). b \<noteq> 0"
  proof
    fix b assume "b \<in> set (bytes_of ?t)"
    then obtain ch where ch: "b = of_nat (of_char ch)" "ch \<in> set ?t" unfolding set_bytes_of by blast
    then have "ch \<noteq> CHR 0x00" using assms(1) plain_hex [of v] by (auto simp: plain_def nl_def)
    then show "b \<noteq> 0" using byte_of_char_inj [of ch "CHR 0x00"] ch(1) by simp
  qed
  then have "cstr (bytes_of ?t) = bytes_of ?t" unfolding cstr_def by (simp add: takeWhile_eq_all_conv)
  then have "chars (cstr (config_text_line (n, v) @ [0x0A])) = (n @ '' '') @ CHR ''='' # ('' 0x'' @ hex v @ nl)"
    unfolding t by (simp add: chars_bytes_of del: bytes_of_append bytes_of_Cons)
  moreover have "strtok_all (\<lambda>ch. ch = CHR ''='') ((n @ '' '') @ CHR ''='' # ('' 0x'' @ hex v @ nl))
      = [n @ '' '', '' 0x'' @ hex v @ nl]"
    by (rule strtok_two) (use assms(1) plain_hex [of v] in \<open>auto simp: plain_def nl_def\<close>)
  moreover have "trim (n @ '' '') = n"
    using trim_pad [of "[]" "'' ''" n] assms by (simp add: plain_def isspace_def)
  moreover have "trim ('' 0x'' @ hex v @ nl) = ''0x'' @ hex v"
    using trim_pad [of "'' ''" nl "''0x'' @ hex v"] plain_hex [of v]
    by (simp add: plain_def isspace_def nl_def)
  ultimately show ?thesis by (simp add: config_line_def)
qed

lemma setting_plain:
  assumes "(n, v) \<in> set (config_settings c)"
  shows "(\<forall>ch\<in>set n. plain ch) \<and> n \<noteq> [] \<and> v < 2 ^ 63"
proof -
  have "v < 2 ^ 32"
    using assms less_trans [OF unat_byte, of "2 ^ 32"] less_trans [OF unat_width(1), of "2 ^ 32"] unat_width(2)
    unfolding config_settings_def by auto
  moreover have "\<forall>ch\<in>set n. plain ch"
    using assms unfolding config_settings_def by (auto simp: plain_def isspace_def)
  moreover have "n \<noteq> []" using assms unfolding config_settings_def by auto
  ultimately show ?thesis by simp
qed

lemma no_newline:
  assumes "\<forall>ch\<in>set n. plain ch"
  shows "0x0A \<notin> set (config_text_line (n, v))"
proof
  assume "0x0A \<in> set (config_text_line (n, v))"
  then obtain ch where ch: "(0x0A :: byte) = of_nat (of_char ch)" "ch \<in> set (n @ '' = 0x'' @ hex v)"
    unfolding config_text_line_def set_bytes_of by auto
  then have "ch \<noteq> CHR 0x0A" using assms plain_hex [of v] by (auto simp: plain_def)
  then show False using ch(1) byte_of_char_inj [of "CHR 0x0A" ch] by simp
qed

lemma strtol_hex_word:
  fixes w :: "'a :: len word"
  assumes "LENGTH('a) \<le> 63"
  shows "word_of_int (strtol 16 (CHR ''0'' # CHR ''x'' # hex (unat w))) = w"
proof -
  have "unat w < 2 ^ LENGTH('a)" by (rule unsigned_less)
  also have "(2 :: nat) ^ LENGTH('a) \<le> 2 ^ 63" by (rule power_increasing [OF assms]) simp
  finally show ?thesis using strtol_hex [of "unat w"] by simp
qed

text \<open>
  C28. Round trip of the configuration file: loading the file that lists all settings of
  \<open>c\<close> in the documented format yields exactly \<open>c\<close>, for every combination of values and
  whatever the configuration held before.
\<close>

theorem config_load_roundtrip:
  assumes "fs name = Some (config_text c)"
  shows "config_load fs c0 name = Inr c"
proof -
  have run: "config_line (config_text_line (n, v) @ [0x0A]) c' = set_val c' n (''0x'' @ hex v)"
    if "(n, v) \<in> set (config_settings c)" for n v c'
    using setting_plain [OF that] by (intro config_line_setting) auto
  have lines: "getlines (config_text c) = map (\<lambda>nv. config_text_line nv @ [0x0A]) (config_settings c)"
  proof -
    have "\<forall>l\<in>set (map config_text_line (config_settings c)). 0x0A \<notin> set l"
      using setting_plain no_newline by auto
    from getlines_concat [OF this] show ?thesis by (simp add: config_text_def comp_def)
  qed
  have "fold_res config_line (map (\<lambda>nv. config_text_line nv @ [0x0A]) (config_settings c)) c0 = Inr c"
    using setting_plain [of _ _ c]
    by (simp add: config_settings_def run set_val_def strtol_hex_word)
  with assms show ?thesis by (simp add: config_load_def lines)
qed

definition sample_config :: config_t where
  "sample_config = \<lparr>type_of_loader = 0xB0, loadflags = 0x81, setup_move_size = 0x8000,
     code32_start = 0x100000, ramdisk_image = 0, ramdisk_size = 0, bootsect_kludge = 0,
     heap_end_ptr = 0xFE00, ext_loader_ver = 0, ext_loader_type = 0, cmd_line_ptr = 0x20000\<rparr>"

theorem config_load_roundtrip_witness:
  "config_load [''k.cfg'' \<mapsto> config_text sample_config] (read_setup []) ''k.cfg'' = Inr sample_config"
  by (rule config_load_roundtrip) simp

end
