(* ===== verification/Gpt.thy ===== *)
theory Gpt
  imports Common
begin

text \<open>
  \<^verbatim>\<open>src/common/gpt.c\<close>: the textual description of a GUID partition table header, written
  into a 1024-byte buffer by three \<open>snprintf\<close> calls. The header is the start of the file
  buffer \<open>hdr\<close> the caller has read; \<open>buf0\<close> is the indeterminate content of the fresh buffer.
  The header can also be printed line by line.
\<close>

section \<open>Writing the description\<close>

definition BUF_SIZE :: nat where "BUF_SIZE = 1024"
definition GPT_HEADER_SIZE :: nat where "GPT_HEADER_SIZE = 92"

definition g32 :: "byte list \<Rightarrow> nat \<Rightarrow> nat" where "g32 b off = le (take 4 (drop off b))"
definition g64 :: "byte list \<Rightarrow> nat \<Rightarrow> nat" where "g64 b off = le (take 8 (drop off b))"

text \<open>
  \<open>snprintf(buf + off, n, ...)\<close> with the formatted text \<open>s\<close>: at most \<open>n - 1\<close> characters and
  the terminating zero. Its return value is the length of \<open>s\<close>.
\<close>

definition snprintf_at :: "string \<Rightarrow> nat \<Rightarrow> nat \<Rightarrow> string \<Rightarrow> string res" where
  "snprintf_at buf off n s = (if n = 0 then Inr buf else wr buf off (take (n - 1) s @ [CHR 0x00]))"

text \<open>The C string at the start of a character buffer.\<close>

definition c_string :: "string \<Rightarrow> string" where
  "c_string buf = takeWhile (\<lambda>c. c \<noteq> CHR 0x00) buf"

definition write_guid :: "guid \<Rightarrow> nat \<Rightarrow> string" where
  "write_guid g buf_size = snprintf buf_size (guid_text g)"

text \<open>\<open>%s\<close> of \<open>(char *)&hdr->Signature\<close>: everything up to the first zero byte.\<close>

definition gpt_signature :: "byte list \<Rightarrow> string" where
  "gpt_signature hdr = chars (cstr hdr)"

definition gpt_text1 :: "byte list \<Rightarrow> string" where
  "gpt_text1 hdr =
     ''UEFI Partition Table: '' @ ''Signature: '' @ gpt_signature hdr @ '', '' @
     ''Revision: 0x'' @ hex (g32 hdr 8) @ '', '' @ ''HeaderSize: '' @ dec (g32 hdr 12) @ '', '' @
     ''HeaderCRC32: 0x'' @ hex (g32 hdr 16) @ '', '' @ ''MyLBA: 0x'' @ hex (g64 hdr 24) @ '', '' @
     ''AlternateLBA: 0x'' @ hex (g64 hdr 32) @ '', '' @ ''FirstUsableLBA: 0x'' @ hex (g64 hdr 40) @ '', '' @
     ''LastUsableLBA: 0x'' @ hex (g64 hdr 48) @ '', ''"

definition gpt_text2 :: "byte list \<Rightarrow> string" where
  "gpt_text2 hdr = ''DiskGUID: '' @ write_guid (guid_of_bytes (drop 56 hdr)) 64 @ '', ''"

definition gpt_text3 :: "byte list \<Rightarrow> string" where
  "gpt_text3 hdr =
     ''PartitionEntryLBA: 0x'' @ hex (g64 hdr 72) @ '', '' @
     ''NumberOfPartitionEntries: '' @ dec (g32 hdr 80) @ '', '' @
     ''SizeOfPartitionEntry: '' @ dec (g32 hdr 84) @ '', '' @
     ''PartitionEntryArrayCRC32: 0x'' @ hex (g32 hdr 88)"

text \<open>
  The three calls, exactly as written: \<open>ret\<close> is the return value of the first one for both
  the second and the third. \<open>BUF_SIZE - ret\<close> is converted to \<open>size_t\<close>.
\<close>

definition write_gpt_header :: "string \<Rightarrow> byte list \<Rightarrow> string res" where
  "write_gpt_header buf0 hdr =
     and_then (check (GPT_HEADER_SIZE \<le> length hdr \<and> 0 \<in> set hdr) OutOfBounds) (\<lambda>_.
     and_then (snprintf_at buf0 0 BUF_SIZE (gpt_text1 hdr)) (\<lambda>buf.
     let ret = length (gpt_text1 hdr) in
     and_then (snprintf_at buf ret (sub64 BUF_SIZE ret) (gpt_text2 hdr)) (\<lambda>buf.
       snprintf_at buf ret (sub64 BUF_SIZE ret) (gpt_text3 hdr))))"

section \<open>Printing the header\<close>

text \<open>What the functions print for the GUID at \<open>g\<close> and for the header.\<close>

definition print_guid :: "byte list \<Rightarrow> string res" where
  "print_guid g =
     and_then (rd g 0 16) (\<lambda>b.
       Inr (''Disk GUID: '' @ hex_pad 8 (g32 b 0) @ ''-'' @ hex_pad 4 (le (take 2 (drop 4 b))) @ ''-''
         @ hex_pad 4 (le (take 2 (drop 6 b))) @ ''-''
         @ concat (map (\<lambda>i. hex2 (b ! i)) [8..<10]) @ ''-'' @ concat (map (\<lambda>i. hex2 (b ! i)) [10..<16]) @ nl))"

definition print_gpt_header :: "byte list \<Rightarrow> string res" where
  "print_gpt_header hdr =
     and_then (check (GPT_HEADER_SIZE \<le> length hdr) OutOfBounds) (\<lambda>_.
     and_then (print_guid (drop 56 hdr)) (\<lambda>guid.
       Inr (''Signature: 0x'' @ hex (g64 hdr 0) @ nl @ ''Revision: 0x'' @ hex (g32 hdr 8) @ nl
         @ ''HeaderSize: '' @ dec (g32 hdr 12) @ nl @ ''HeaderCRC32: 0x'' @ hex (g32 hdr 16) @ nl
         @ ''MyLBA: '' @ dec (g64 hdr 24) @ nl @ ''AlternateLBA: 0x'' @ hex (g64 hdr 32) @ nl
         @ ''FirstUsableLBA: 0x'' @ hex (g64 hdr 40) @ nl @ ''LastUsableLBA: 0x'' @ hex (g64 hdr 48) @ nl
         @ guid @ ''PartitionEntryLBA: 0x'' @ hex (g64 hdr 72) @ nl
         @ ''NumberOfPartitionEntries: '' @ dec (g32 hdr 80) @ nl @ ''SizeOfPartitionEntry: '' @ dec (g32 hdr 84) @ nl
         @ ''PartitionEntryArrayCRC32: 0x'' @ hex (g32 hdr 88) @ nl)))"

text \<open>The GUID is printed like in the description.\<close>

lemma print_guid_text:
  assumes "length g = 16"
  shows "print_guid g = Inr (''Disk GUID: '' @ guid_text (guid_of_bytes g) @ nl)"
proof -
  have d: "drop i g = g ! i # drop (Suc i) g" if "i < 16" for i using that assms by (simp add: Cons_nth_drop_Suc)
  have b: "le (take 4 g) < 2 ^ 32" "le (take 2 (drop 4 g)) < 2 ^ 16" "le (take 2 (drop 6 g)) < 2 ^ 16"
    using le_take_bound [of 4 g] le_take_bound [of 2 "drop 4 g"] le_take_bound [of 2 "drop 6 g"] by simp_all
  have t: "take 8 (drop 8 g) = map ((!) g) [8..<16]"
    by (rule nth_equalityI) (use assms in \<open>simp_all del: upt_rec_numeral\<close>)
  have r: "[8..<16] = [8, 9, 10, 11, 12, 13, 14, 15 :: nat]" "[8..<10] = [8, 9 :: nat]"
    "[10..<16] = [10, 11, 12, 13, 14, 15 :: nat]"
    by (simp_all add: upt_conv_Cons)
  show ?thesis
    using assms b by (simp add: print_guid_def guid_text_def guid_of_bytes_def g32_def t r hex_string_def unat_of_nat
        take_bit_eq_mod)
qed

section \<open>Lengths of the printed numbers\<close>

lemma length_num_base:
  assumes "2 \<le> b" and "n < b ^ k" and "0 < k"
  shows "length (num_base b n) \<le> k"
  using assms(2,3)
proof (induction k arbitrary: n)
  case (Suc k)
  show ?case
  proof (cases "n < b")
    case False
    then have "k \<noteq> 0" using Suc.prems by (intro notI) simp
    moreover have "n div b < b ^ k" using Suc.prems(1) assms(1) by (simp add: div_less_iff_less_mult mult.commute)
    ultimately show ?thesis using Suc.IH [of "n div b"] False assms(1) by (simp add: num_base.simps [of b n])
  qed (use assms(1) in \<open>simp add: num_base.simps [of b n]\<close>)
qed simp

lemma number_lengths:
  "length (hex (g32 b off)) \<le> 8" "length (hex (g64 b off)) \<le> 16" "length (dec (g32 b off)) \<le> 10"
proof -
  have b: "g32 b off < 2 ^ 32" "g64 b off < 2 ^ 64"
    using le_take_bound [of 4 "drop off b"] le_take_bound [of 8 "drop off b"] by (simp_all add: g32_def g64_def)
  then show "length (hex (g32 b off)) \<le> 8" "length (hex (g64 b off)) \<le> 16" "length (dec (g32 b off)) \<le> 10"
    unfolding hex_def dec_def by (intro length_num_base; simp)+
qed

lemma digit_nonzero: "d < 16 \<Longrightarrow> digit d \<noteq> CHR 0x00"
proof -
  assume "d < 16"
  then have "d \<in> {0, 1, 2, 3, 4, 5, 6, 7, 8, 9, 10, 11, 12, 13, 14, 15}"
    unfolding insert_iff empty_iff by presburger
  then show ?thesis by (elim insertE emptyE) (simp_all add: digit_def)
qed

lemma num_base_nonzero: "b \<le> 16 \<Longrightarrow> CHR 0x00 \<notin> set (num_base b n)"
proof (induction b n rule: num_base.induct)
  case (1 b n)
  have z: "d < b \<Longrightarrow> CHR 0x00 \<noteq> digit d" for d
    using digit_nonzero [of d] 1(2) by force
  have "n mod b < b" if "2 \<le> b" using that by (intro mod_less_divisor) simp
  with 1 z show ?case
    by (subst num_base.simps) auto
qed

lemma hex_dec_nonzero: "CHR 0x00 \<notin> set (hex n)" "CHR 0x00 \<notin> set (dec n)"
  by (simp_all add: hex_def dec_def num_base_nonzero)

lemma signature_nonzero: "CHR 0x00 \<notin> set (gpt_signature hdr)"
proof
  assume "CHR 0x00 \<in> set (gpt_signature hdr)"
  then obtain b where b: "b \<in> set (cstr hdr)" "(char_of (unat b) :: char) = CHR 0x00"
    unfolding gpt_signature_def chars_def by auto
  have "of_char (char_of (unat b) :: char) = unat b mod 256" by (simp only: of_char_of)
  then have "unat b = 0" using b(2) unat_byte [of b] by simp
  then have "b = 0" by (simp add: unat_eq_0)
  with b(1) show False by (auto simp: cstr_def dest: set_takeWhileD)
qed

lemma gpt_texts_nonzero: "CHR 0x00 \<notin> set (gpt_text1 hdr)" "CHR 0x00 \<notin> set (gpt_text3 hdr)"
  by (simp_all add: gpt_text1_def gpt_text3_def hex_dec_nonzero signature_nonzero)

lemma gpt_text_lengths:
  "length (gpt_signature hdr) \<le> 8 \<Longrightarrow> length (gpt_text1 hdr) \<le> 300"
  "length (gpt_text2 hdr) \<le> 75" "length (gpt_text3 hdr) \<le> 200"
proof -
  note n = number_lengths [of hdr]
  show "length (gpt_signature hdr) \<le> 8 \<Longrightarrow> length (gpt_text1 hdr) \<le> 300"
    using n(1) [of 8] n(3) [of 12] n(1) [of 16] n(2) [of 24] n(2) [of 32] n(2) [of 40] n(2) [of 48]
    by (simp add: gpt_text1_def)
  show "length (gpt_text3 hdr) \<le> 200"
    using n(2) [of 72] n(3) [of 80] n(3) [of 84] n(1) [of 88] by (simp add: gpt_text3_def)
  show "length (gpt_text2 hdr) \<le> 75" by (simp add: gpt_text2_def write_guid_def snprintf_def)
qed

section \<open>What the caller sees\<close>

lemma write_gpt_header_text_aux:
  assumes "length buf0 = BUF_SIZE" and "92 \<le> length hdr" and "0 \<in> set hdr"
    and "length (gpt_signature hdr) \<le> 8"
  shows "\<exists>buf. write_gpt_header buf0 hdr = Inr buf \<and> c_string buf = gpt_text1 hdr @ gpt_text3 hdr"
proof -
  let ?t1 = "gpt_text1 hdr" and ?t2 = "gpt_text2 hdr" and ?t3 = "gpt_text3 hdr"
  note l = gpt_text_lengths(1) [OF assms(4)] gpt_text_lengths(2,3) [of hdr]
  let ?b1 = "?t1 @ [CHR 0x00] @ drop (length ?t1 + 1) buf0"
  have s1: "snprintf_at buf0 0 BUF_SIZE ?t1 = Inr ?b1"
    using l(1) assms(1) by (simp add: snprintf_at_def BUF_SIZE_def wr_def)
  have sub: "sub64 BUF_SIZE (length ?t1) = 1024 - length ?t1"
    using l(1) by (simp add: BUF_SIZE_def sub_small)
  have w: "\<exists>rest. snprintf_at (?t1 @ tail) (length ?t1) (1024 - length ?t1) t
      = Inr (?t1 @ t @ [CHR 0x00] @ rest) \<and> length (t @ [CHR 0x00] @ rest) = length tail"
    if "length t \<le> 200" "length tail = 1024 - length ?t1" for t tail
    using that l(1) by (simp add: snprintf_at_def wr_def)
  have tl: "length ([CHR 0x00] @ drop (length ?t1 + 1) buf0) = 1024 - length ?t1"
    using l(1) assms(1) by (simp add: BUF_SIZE_def)
  obtain r2 where r2: "snprintf_at ?b1 (length ?t1) (1024 - length ?t1) ?t2 = Inr (?t1 @ ?t2 @ [CHR 0x00] @ r2)"
    "length (?t2 @ [CHR 0x00] @ r2) = 1024 - length ?t1"
    using w [OF order_trans [OF l(2)] tl] tl by fastforce
  obtain r3 where r3: "snprintf_at (?t1 @ ?t2 @ [CHR 0x00] @ r2) (length ?t1) (1024 - length ?t1) ?t3
      = Inr (?t1 @ ?t3 @ [CHR 0x00] @ r3)"
    using w [of ?t3 "?t2 @ [CHR 0x00] @ r2"] l r2(2) by auto
  have "write_gpt_header buf0 hdr = Inr (?t1 @ ?t3 @ [CHR 0x00] @ r3)"
    using assms(2,3) s1 r2(1) r3 by (simp add: write_gpt_header_def GPT_HEADER_SIZE_def sub Let_def del: append_assoc append_Cons)
  moreover have "c_string (?t1 @ ?t3 @ [CHR 0x00] @ r3) = ?t1 @ ?t3"
  proof -
    have "takeWhile (\<lambda>c. c \<noteq> CHR 0x00) ((?t1 @ ?t3) @ [CHR 0x00] @ r3) = ?t1 @ ?t3"
      by (subst takeWhile_append2) (use gpt_texts_nonzero in auto)
    then show ?thesis by (simp add: c_string_def)
  qed
  ultimately show ?thesis by blast
qed

text \<open>
  Fact. The description of a partition table header whose signature is terminated within
  eight bytes is written inside the buffer, and the C string the caller sees is the first
  group of fields directly followed by the partition fields: the disk GUID, which the second
  \<open>snprintf\<close> prints, is overwritten by the third one.
\<close>

theorem write_gpt_header_text:
  assumes "length buf0 = BUF_SIZE" and "92 \<le> length hdr" and "0 \<in> set hdr"
    and "length (gpt_signature hdr) \<le> 8"
  shows "\<exists>buf. write_gpt_header buf0 hdr = Inr buf \<and> c_string buf = gpt_text1 hdr @ gpt_text3 hdr"
  using assms by (rule write_gpt_header_text_aux)

definition sample_gpt :: "byte list" where
  "sample_gpt = bytes_of ''EFI PART'' @ [0, 0, 1, 0] @ replicate 44 0 @ [0xAA, 0xBB] @ replicate 34 0"

lemma sample_gpt_facts:
  "length sample_gpt = 92" "0 \<in> set sample_gpt" "length (gpt_signature sample_gpt) \<le> 8"
  by (simp_all add: sample_gpt_def gpt_signature_def cstr_def bytes_of_def)

theorem write_gpt_header_text_witness:
  "\<exists>buf. write_gpt_header (replicate 1024 CHR 0xFF) sample_gpt = Inr buf
    \<and> c_string buf = gpt_text1 sample_gpt @ gpt_text3 sample_gpt"
  by (rule write_gpt_header_text) (use sample_gpt_facts in \<open>simp_all add: BUF_SIZE_def\<close>)

end
