(* ===== verification/Ffs.thy ===== *)
theory Ffs
  imports Common
begin

text \<open>
  \<^verbatim>\<open>src/thirdparty/edk2/SecMain.c\<close>: the walk over the files and sections of an EDK II
  firmware volume and the extraction of its LZMA-compressed main volume, with the wrappers of
  \<^verbatim>\<open>src/thirdparty/LzmaCustomDecompressLib/LzmaDecompress.c\<close>. The firmware volume is the
  buffer \<open>buf\<close> at the address \<open>base\<close>: the code aligns addresses, not offsets. The LZMA SDK
  decoder \<open>LzmaDecode\<close> is the parameter \<open>lzdec\<close>.
\<close>

section \<open>Sections\<close>

abbreviation EFI_VOLUME_CORRUPTED :: fault where "EFI_VOLUME_CORRUPTED \<equiv> Fail 10"
abbreviation EFI_NOT_FOUND :: fault where "EFI_NOT_FOUND \<equiv> Fail 14"

text \<open>The offset of the next address that is a multiple of \<open>k\<close>.\<close>

definition align_up :: "nat \<Rightarrow> nat \<Rightarrow> nat \<Rightarrow> nat" where
  "align_up k base off = (base + off + (k - 1)) div k * k - base"

lemma round_up_ge:
  assumes "0 < (k :: nat)"
  shows "n \<le> (n + (k - 1)) div k * k"
proof -
  have "(n + (k - 1)) mod k < k" using assms by (rule mod_less_divisor)
  moreover have "(n + (k - 1)) div k * k + (n + (k - 1)) mod k = n + (k - 1)"
    by (rule div_mult_mod_eq)
  ultimately show ?thesis by linarith
qed

lemma align_up_ge: "0 < k \<Longrightarrow> off \<le> align_up k base off"
  using round_up_ge [of k "base + off"] by (simp add: align_up_def)

lemma align_up_mod: "0 < k \<Longrightarrow> (base + align_up k base off) mod k = 0"
  using round_up_ge [of k "base + off"] by (simp add: align_up_def)

lemma align_up_aligned:
  assumes "0 < k" and "base mod k = 0" and "off mod k = 0"
  shows "align_up k base off = off"
proof -
  obtain a b where ab: "base = k * a" "off = k * b"
    using assms(2,3) unfolding mod_eq_0_iff_dvd by (elim dvdE)
  have "(k * (a + b) + (k - 1)) div k = a + b + (k - 1) div k"
    using assms(1) by (intro div_mult_self4) simp
  also have "(k - 1) div k = 0" using assms(1) by simp
  finally have "(k * (a + b) + (k - 1)) div k = a + b" by simp
  then show ?thesis by (simp add: align_up_def ab add_mult_distrib2 mult.commute)
qed

text \<open>
  The loop of \<open>FindFfsSectionInstance\<close>, from the end \<open>pos\<close> of the previous section;
  \<open>endp\<close> is \<open>EndOfSections\<close>. The result is the offset of the section.
\<close>

function section_loop :: "byte list \<Rightarrow> nat \<Rightarrow> nat \<Rightarrow> nat \<Rightarrow> nat \<Rightarrow> nat \<Rightarrow> nat res" where
  "section_loop buf base SectionType Instance pos endp =
     (if pos = endp then Inl EFI_NOT_FOUND
      else let cur = align_up 4 base pos in
        if cur \<ge> endp then Inl EFI_VOLUME_CORRUPTED
        else and_then (rd buf cur 3) (\<lambda>sz.
          if le sz < 4 then Inl EFI_VOLUME_CORRUPTED
          else if cur + le sz > endp then Inl EFI_VOLUME_CORRUPTED
          else and_then (rd8 buf (cur + 3)) (\<lambda>t.
            if t = SectionType then
              if Instance = 0 then Inr cur
              else section_loop buf base SectionType (Instance - 1) (cur + le sz) endp
            else section_loop buf base SectionType Instance (cur + le sz) endp)))"
  by pat_completeness auto
termination
proof (relation "measure (\<lambda>(buf, base, t, i, pos, endp). endp - pos)", goal_cases)
  case (2 buf base SectionType Instance pos endp cur sz)
  then show ?case using align_up_ge [of 4 pos base] by auto
next
  case (3 buf base SectionType Instance pos endp cur sz)
  then show ?case using align_up_ge [of 4 pos base] by auto
qed simp

declare section_loop.simps [simp del]

definition FindFfsSectionInstance :: "byte list \<Rightarrow> nat \<Rightarrow> nat \<Rightarrow> nat \<Rightarrow> nat \<Rightarrow> nat \<Rightarrow> nat res" where
  "FindFfsSectionInstance buf base Sections SizeOfSections SectionType Instance =
     section_loop buf base SectionType Instance Sections (Sections + SizeOfSections)"

definition FindFfsSectionInSections :: "byte list \<Rightarrow> nat \<Rightarrow> nat \<Rightarrow> nat \<Rightarrow> nat \<Rightarrow> nat res" where
  "FindFfsSectionInSections buf base Sections SizeOfSections SectionType =
     FindFfsSectionInstance buf base Sections SizeOfSections SectionType 0"

section \<open>Files\<close>

definition EFI_FVH_SIGNATURE :: nat where "EFI_FVH_SIGNATURE = 0x4856465F"
definition EFI_FV_FILETYPE_FIRMWARE_VOLUME_IMAGE :: nat where "EFI_FV_FILETYPE_FIRMWARE_VOLUME_IMAGE = 0x0B"
definition EFI_SECTION_GUID_DEFINED :: nat where "EFI_SECTION_GUID_DEFINED = 0x02"

function file_loop :: "byte list \<Rightarrow> nat \<Rightarrow> nat \<Rightarrow> nat \<Rightarrow> nat \<Rightarrow> nat \<Rightarrow> nat res" where
  "file_loop buf base FileType SectionType pos endv =
     (let cur = align_up 8 base pos in
      if cur > endv then Inl (Fail (-1))
      else and_then (rd buf (cur + 20) 3) (\<lambda>sz.
        if le sz < 28 then Inl (Fail (-1))
        else if cur + le sz > endv then Inl (Fail (-1))
        else and_then (rd8 buf (cur + 18)) (\<lambda>t.
          if t \<noteq> FileType then file_loop buf base FileType SectionType (cur + le sz) endv
          else case FindFfsSectionInSections buf base (cur + 24) (le sz - 24) SectionType of
              Inr found \<Rightarrow> Inr found
            | Inl e \<Rightarrow>
                if e = EFI_NOT_FOUND then file_loop buf base FileType SectionType (cur + le sz) endv
                else if e = EFI_VOLUME_CORRUPTED then Inl (Fail (-1))
                else Inl e)))"
  by pat_completeness auto
termination
proof (relation "measure (\<lambda>(buf, base, ft, st, pos, endv). endv + 1 - pos)", goal_cases)
  case (2 buf base FileType SectionType pos endv cur sz)
  then show ?case using align_up_ge [of 8 pos base] by auto
next
  case (3 buf base FileType SectionType pos endv cur sz)
  then show ?case using align_up_ge [of 8 pos base] by auto
qed simp

declare file_loop.simps [simp del]

definition FindFfsFileAndSection :: "byte list \<Rightarrow> nat \<Rightarrow> nat \<Rightarrow> nat \<Rightarrow> nat res" where
  "FindFfsFileAndSection buf base FileType SectionType =
     and_then (rd32 buf 40) (\<lambda>Signature.
     if Signature \<noteq> EFI_FVH_SIGNATURE then Inl (Fail (-1))
     else and_then (rd64 buf 32) (\<lambda>FvLength.
          and_then (rd16 buf 48) (\<lambda>HeaderLength.
            file_loop buf base FileType SectionType HeaderLength FvLength)))"

section \<open>The LZMA wrappers\<close>

definition LZMA_PROPS_SIZE :: nat where "LZMA_PROPS_SIZE = 5"
definition LZMA_HEADER_SIZE :: nat where "LZMA_HEADER_SIZE = LZMA_PROPS_SIZE + 8"

text \<open>The loop runs from index 12 down to 5.\<close>

definition GetDecodedSizeOfBuf :: "byte list \<Rightarrow> nat res" where
  "GetDecodedSizeOfBuf EncodedData =
     and_then (rd EncodedData 0 LZMA_HEADER_SIZE) (\<lambda>h.
       Inr (fold (\<lambda>i size. u64 (u64 (size * 256) + unat (h ! i)))
              (rev [LZMA_PROPS_SIZE..<LZMA_PROPS_SIZE + 8]) 0))"

lemma size_fold:
  "\<lbrakk>k + n \<le> length h; n \<le> 8\<rbrakk> \<Longrightarrow>
    fold (\<lambda>i size. u64 (u64 (size * 256) + unat (h ! i))) (rev [k..<k + n]) 0 = le (take n (drop k h))"
proof (induction n arbitrary: k)
  case (Suc n)
  let ?v = "le (take n (drop (Suc k) h))"
  have up: "rev [k..<k + Suc n] = rev [Suc k..<Suc k + n] @ [k]" by (simp add: upt_rec [of k])
  have IH: "fold (\<lambda>i size. u64 (u64 (size * 256) + unat (h ! i))) (rev [Suc k..<Suc k + n]) 0 = ?v"
    by (rule Suc.IH) (use Suc.prems in simp_all)
  have t: "take (Suc n) (drop k h) = h ! k # take n (drop (Suc k) h)"
  proof -
    have "drop k h = h ! k # drop (Suc k) h"
      by (rule Cons_nth_drop_Suc [symmetric]) (use Suc.prems(1) in simp)
    then show ?thesis by simp
  qed
  have "le (take (Suc n) (drop k h)) < 256 ^ Suc n" by (rule le_take_bound)
  also have "(256 :: nat) ^ Suc n \<le> 256 ^ 8" by (rule power_increasing) (use Suc.prems in simp_all)
  finally have b: "unat (h ! k) + 256 * ?v < 2 ^ 64" unfolding t by simp
  then have v: "?v * 256 < 2 ^ 64" "?v * 256 + unat (h ! k) < 2 ^ 64" by linarith+
  have u: "u64 (?v * 256) = ?v * 256" "u64 (?v * 256 + unat (h ! k)) = ?v * 256 + unat (h ! k)"
    by (rule u_small(3) [OF v(1)], rule u_small(3) [OF v(2)])
  show ?case unfolding up fold_append comp_def IH t fold.simps id_def u le.simps by (rule trans [OF add.commute]) simp
qed simp

lemma GetDecodedSizeOfBuf_le:
  assumes "13 \<le> length b"
  shows "GetDecodedSizeOfBuf b = Inr (le (take 8 (drop 5 b)))"
proof -
  have "rd b 0 LZMA_HEADER_SIZE = Inr (take LZMA_HEADER_SIZE b)"
    using assms by (simp add: LZMA_HEADER_SIZE_def LZMA_PROPS_SIZE_def)
  moreover have "LZMA_PROPS_SIZE + 8 \<le> length (take LZMA_HEADER_SIZE b)"
    using assms by (simp add: LZMA_HEADER_SIZE_def LZMA_PROPS_SIZE_def)
  moreover have "take 8 (drop LZMA_PROPS_SIZE (take LZMA_HEADER_SIZE b)) = take 8 (drop 5 b)"
    by (simp add: LZMA_HEADER_SIZE_def LZMA_PROPS_SIZE_def drop_take)
  ultimately show ?thesis
    unfolding GetDecodedSizeOfBuf_def using size_fold [of LZMA_PROPS_SIZE 8 "take LZMA_HEADER_SIZE b"]
    by (simp only: and_then_simps order_refl)
qed

definition LzmaUefiDecompressGetInfo :: "byte list \<Rightarrow> nat res" where
  "LzmaUefiDecompressGetInfo Source =
     and_then (check (LZMA_HEADER_SIZE \<le> length Source) Aborted) (\<lambda>_.
     and_then (GetDecodedSizeOfBuf Source) (\<lambda>DecodedSize.
       if DecodedSize > 2 ^ 32 - 1 then Inl (Fail 3) else Inr DecodedSize))"

text \<open>
  \<open>lzdec props src dest\<close> is \<open>LzmaDecode\<close>: whether it returned \<open>SZ_OK\<close>, and the final content
  of the destination buffer. The result is the return code with that content.
\<close>

type_synonym lzma_decode = "byte list \<Rightarrow> byte list \<Rightarrow> byte list \<Rightarrow> bool \<times> byte list"

definition LzmaUefiDecompress :: "lzma_decode \<Rightarrow> byte list \<Rightarrow> byte list \<Rightarrow> int \<times> byte list" where
  "LzmaUefiDecompress lzdec Source Destination =
     (case lzdec (take LZMA_PROPS_SIZE Source) (drop LZMA_HEADER_SIZE Source) Destination of
        (ok, dest) \<Rightarrow> (if ok then 0 else 2, dest))"

section \<open>Extraction of the main volume\<close>

definition lzma_decrompress_guid :: guid where
  "lzma_decrompress_guid = \<lparr>Data1 = 0xEE4E5898, Data2 = 0x3914, Data3 = 0x4259,
     Data4 = [0x9D, 0x6E, 0xDC, 0x7B, 0xD7, 0x94, 0x03, 0xCF]\<rparr>"

text \<open>
  \<open>None\<close> is the \<open>NULL\<close> result; \<open>garbage n\<close> is the content of a fresh allocation of \<open>n\<close>
  bytes. A failed decompression is only reported on the terminal. A \<open>DataOffset\<close> behind the
  section makes the 32-bit source size wrap; the decoder may then read beyond the volume,
  which counts as \<open>OutOfBounds\<close>.
\<close>

definition extract_lzma_fvmain_new ::
  "lzma_decode \<Rightarrow> (nat \<Rightarrow> byte list) \<Rightarrow> byte list \<Rightarrow> nat \<Rightarrow> byte list option res" where
  "extract_lzma_fvmain_new lzdec garbage Fv base =
     (case FindFfsFileAndSection Fv base EFI_FV_FILETYPE_FIRMWARE_VOLUME_IMAGE EFI_SECTION_GUID_DEFINED of
        Inl (Fail n) \<Rightarrow> Inr None
      | Inl e \<Rightarrow> Inl e
      | Inr sec \<Rightarrow>
          and_then (rd Fv sec 3) (\<lambda>sz.
          and_then (rd Fv (sec + 4) 16) (\<lambda>g.
          if \<not> compare_guid lzma_decrompress_guid (guid_of_bytes g) then Inr None
          else and_then (rd16 Fv (sec + 20)) (\<lambda>DataOffset.
          and_then (rd Fv (sec + DataOffset) (sub32 (le sz) DataOffset)) (\<lambda>Source.
          case LzmaUefiDecompressGetInfo Source of
            Inl (Fail n) \<Rightarrow> Inr None
          | Inl e \<Rightarrow> Inl e
          | Inr output_buf_size \<Rightarrow>
              Inr (Some (snd (LzmaUefiDecompress lzdec Source (garbage output_buf_size)))))))))"

section \<open>Soundness of the search\<close>

lemma section_loop_sound:
  assumes "section_loop buf base ty n pos endp = Inr off"
  shows "pos \<le> off \<and> off + 4 \<le> endp \<and> (base + off) mod 4 = 0 \<and> off + 4 \<le> length buf
    \<and> le (take 1 (drop (off + 3) buf)) = ty
    \<and> 4 \<le> le (take 3 (drop off buf)) \<and> off + le (take 3 (drop off buf)) \<le> endp"
  using assms
proof (induction buf base ty n pos endp rule: section_loop.induct)
  case (1 buf base ty n pos endp)
  let ?cur = "align_up 4 base pos"
  let ?sz = "le (take 3 (drop ?cur buf))"
  have ge: "pos \<le> ?cur" by (rule align_up_ge) simp
  from "1.prems" have *: "pos \<noteq> endp" "\<not> ?cur \<ge> endp" "?cur + 3 \<le> length buf" "\<not> ?sz < 4"
      "\<not> ?cur + ?sz > endp" "?cur + 3 + 1 \<le> length buf"
    by (auto simp: section_loop.simps [of buf base ty n pos endp] Let_def res_simps split: if_splits)
  have rd: "rd buf ?cur 3 = Inr (take 3 (drop ?cur buf))"
    "rd8 buf (?cur + 3) = Inr (le (take 1 (drop (?cur + 3) buf)))"
    using * by (simp_all add: rd8_def)
  note run = "1.prems" [unfolded section_loop.simps [of buf base ty n pos endp] Let_def rd and_then_simps
      if_not_P [OF *(1)] if_not_P [OF *(2)] if_not_P [OF *(4)] if_not_P [OF *(5)]]
  note IH = "1.IH" [OF *(1) refl *(2) rd(1) *(4,5) rd(2)]
  show ?case
  proof (cases "le (take 1 (drop (?cur + 3) buf)) = ty")
    case True
    show ?thesis
    proof (cases "n = 0")
      case n: True
      have "off = ?cur" using run unfolding if_P [OF True] if_P [OF n] by simp
      then show ?thesis using True * ge align_up_mod [of 4 base pos] by simp
    next
      case False
      from run have "section_loop buf base ty (n - 1) (?cur + ?sz) endp = Inr off"
        unfolding if_P [OF True] if_not_P [OF False] .
      from IH(1) [OF True False this] * ge show ?thesis by simp
    qed
  next
    case False
    from run have "section_loop buf base ty n (?cur + ?sz) endp = Inr off"
      unfolding if_not_P [OF False] .
    from IH(2) [OF False this] * ge show ?thesis by simp
  qed
qed

lemma file_loop_sound:
  assumes "file_loop buf base ft ty pos endv = Inr off"
  shows "off + 4 \<le> endv \<and> (base + off) mod 4 = 0 \<and> off + 4 \<le> length buf
    \<and> le (take 1 (drop (off + 3) buf)) = ty
    \<and> 4 \<le> le (take 3 (drop off buf)) \<and> off + le (take 3 (drop off buf)) \<le> endv"
  using assms
proof (induction buf base ft ty pos endv rule: file_loop.induct)
  case (1 buf base ft ty pos endv)
  let ?cur = "align_up 8 base pos"
  let ?sz = "le (take 3 (drop (?cur + 20) buf))"
  let ?find = "FindFfsSectionInSections buf base (?cur + 24) (?sz - 24) ty"
  from "1.prems" have *: "\<not> ?cur > endv" "?cur + 20 + 3 \<le> length buf" "\<not> ?sz < 28" "\<not> ?cur + ?sz > endv"
      "?cur + 18 + 1 \<le> length buf"
    by (auto simp: file_loop.simps [of buf base ft ty pos endv] Let_def res_simps split: if_splits)
  have rd: "rd buf (?cur + 20) 3 = Inr (take 3 (drop (?cur + 20) buf))"
    "rd8 buf (?cur + 18) = Inr (le (take 1 (drop (?cur + 18) buf)))"
    using * by (simp_all add: rd8_def)
  note run = "1.prems" [unfolded file_loop.simps [of buf base ft ty pos endv] Let_def rd and_then_simps
      if_not_P [OF *(1)] if_not_P [OF *(3)] if_not_P [OF *(4)]]
  note IH = "1.IH" [OF refl *(1) rd(1) *(3,4) rd(2)]
  show ?case
  proof (cases "le (take 1 (drop (?cur + 18) buf)) \<noteq> ft")
    case True
    then show ?thesis using IH(1) [OF True] run by simp
  next
    case False
    show ?thesis
    proof (cases ?find)
      case (Inl e)
      then show ?thesis using IH(2) [OF False Inl] run False by (auto split: if_splits)
    next
      case (Inr f)
      then have "off = f" using run False by simp
      then show ?thesis
        using section_loop_sound [of buf base ty 0 "?cur + 24" "?cur + 24 + (?sz - 24)" off] Inr *
        by (simp add: FindFfsSectionInSections_def FindFfsSectionInstance_def)
    qed
  qed
qed

text \<open>
  C30. A section that the firmware volume search returns lies inside the volume and the
  buffer, is aligned to four bytes, is at least as long as its header and has the requested
  type, for every volume content and load address; the search terminates on every input.
\<close>

theorem FindFfsFileAndSection_sound:
  assumes "FindFfsFileAndSection buf base ft ty = Inr off"
  shows "(base + off) mod 4 = 0 \<and> off + 4 \<le> length buf
    \<and> le (take 1 (drop (off + 3) buf)) = ty
    \<and> 4 \<le> le (take 3 (drop off buf))
    \<and> off + le (take 3 (drop off buf)) \<le> le (take 8 (drop 32 buf))"
  using assms
  by (auto simp: FindFfsFileAndSection_def res_simps split: if_splits dest!: file_loop_sound)

text \<open>A volume of 56 bytes that consists of its header only.\<close>

definition empty_volume :: "byte list" where
  "empty_volume = replicate 32 0 @ to_le 8 56 @ to_le 4 EFI_FVH_SIGNATURE @ replicate 4 0
     @ to_le 2 56 @ replicate 6 0"

lemma empty_volume_fields:
  "length empty_volume = 56" "le (take 4 (drop 40 empty_volume)) = EFI_FVH_SIGNATURE"
  "le (take 8 (drop 32 empty_volume)) = 56" "le (take 2 (drop 48 empty_volume)) = 56"
  by (simp_all add: empty_volume_def EFI_FVH_SIGNATURE_def)

definition sample_volume :: "byte list" where
  "sample_volume = replicate 32 0 @ to_le 8 88 @ to_le 4 EFI_FVH_SIGNATURE @ replicate 4 0
     @ to_le 2 56 @ replicate 6 0 @ replicate 18 0 @ [0x0B, 0, 32, 0, 0, 0] @ [8, 0, 0, 2] @ [1, 2, 3, 4]"

lemma sample_volume_find: "FindFfsFileAndSection sample_volume 0 0x0B 2 = Inr 80"
proof -
  have al: "align_up 8 0 56 = 56" "align_up 4 0 80 = 80" by (simp_all add: align_up_aligned)
  have f: "rd32 sample_volume 40 = Inr EFI_FVH_SIGNATURE" "rd64 sample_volume 32 = Inr 88"
    "rd16 sample_volume 48 = Inr 56" "rd sample_volume 76 3 = Inr [32, 0, 0]"
    "rd8 sample_volume 74 = Inr 0x0B" "rd sample_volume 80 3 = Inr [8, 0, 0]" "rd8 sample_volume 83 = Inr 2"
    by (simp_all add: sample_volume_def rd16_def rd32_def rd64_def rd8_def rd_def EFI_FVH_SIGNATURE_def)
  have "section_loop sample_volume 0 2 0 80 88 = Inr 80"
    by (simp add: section_loop.simps [of _ _ _ _ 80] al f)
  then have "FindFfsSectionInSections sample_volume 0 80 8 2 = Inr 80"
    by (simp add: FindFfsSectionInSections_def FindFfsSectionInstance_def)
  then show ?thesis
    by (simp add: FindFfsFileAndSection_def f file_loop.simps [of _ _ _ _ 56] al)
qed

theorem FindFfsFileAndSection_sound_witness:
  "(80 :: nat) + le (take 3 (drop 80 sample_volume)) \<le> le (take 8 (drop 32 sample_volume))"
  using FindFfsFileAndSection_sound [OF sample_volume_find] by simp

text \<open>
  Fact. The bounds check of the file search admits the end of the volume itself: a volume
  that is full (here, whose header fills it) is read past its end, so the search is not
  memory safe on such a volume when the buffer is exactly as long as the volume.
\<close>

theorem FindFfsFileAndSection_reads_past_full_volume:
  assumes "50 \<le> length buf" and "length buf mod 8 = 0" and "base mod 8 = 0"
    and "le (take 4 (drop 40 buf)) = EFI_FVH_SIGNATURE"
    and "le (take 8 (drop 32 buf)) = length buf" and "le (take 2 (drop 48 buf)) = length buf"
  shows "FindFfsFileAndSection buf base ft ty = Inl OutOfBounds"
proof -
  have "align_up 8 base (length buf) = length buf" using assms(2,3) by (intro align_up_aligned) simp_all
  then show ?thesis using assms
    by (simp add: FindFfsFileAndSection_def rd16_def rd32_def rd64_def file_loop.simps [of _ _ _ _ "length buf"])
qed

theorem FindFfsFileAndSection_reads_past_full_volume_witness:
  "FindFfsFileAndSection empty_volume 4096 0x0B 2 = Inl OutOfBounds"
  by (rule FindFfsFileAndSection_reads_past_full_volume) (simp_all add: empty_volume_fields)

end
