(* ===== verification/Walk.thy ===== *)
theory Walk
  imports Common
begin

text \<open>
  The directory traversal that \<^verbatim>\<open>src/calculate-srtm-pcrs/paths.c\<close> and
  \<^verbatim>\<open>src/calculate-ima-pcr/main.c\<close> both contain, with the function applied to each file as a
  parameter \<open>visit\<close>. The directory structure is a parameter: \<open>stat\<close> (a regular file, a
  directory with the names in the order of \<open>readdir\<close>, or nothing), \<open>realpath\<close>, the file
  contents, and what the uninitialised \<open>statbuf\<close> claims after a failed \<open>stat\<close>. The
  recursion has a fuel argument, the depth of the tree; \<open>fits\<close> says when it is enough.
\<close>

section \<open>The traversal\<close>

datatype node = Regular | Directory "string list"

record tree =
  stat :: "string \<Rightarrow> node option"
  realpath :: "string \<Rightarrow> string option"
  contents :: filesys
  stale_is_dir :: "string \<Rightarrow> bool"

text \<open>The functions return a code together with the state, which they change even on failure.\<close>

type_synonym 's visitor = "string \<Rightarrow> 's \<Rightarrow> (int \<times> 's) res"

definition concat_path_new :: "string \<Rightarrow> string \<Rightarrow> string" where
  "concat_path_new s1 s2 = s1 @ ''/'' @ s2"

definition entry_is_dir :: "tree \<Rightarrow> string \<Rightarrow> bool" where
  "entry_is_dir T path = (case stat T path of Some (Directory names) \<Rightarrow> True | Some Regular \<Rightarrow> False
     | None \<Rightarrow> stale_is_dir T path)"

text \<open>The \<open>readdir\<close> loop; \<open>down\<close> is the recursive call, whose result is ignored.\<close>

fun dir_loop :: "tree \<Rightarrow> 's visitor \<Rightarrow> 's visitor \<Rightarrow> string \<Rightarrow> string list \<Rightarrow> 's \<Rightarrow> (int \<times> 's) res" where
  "dir_loop T visit down base_path [] s = Inr (0, s)"
| "dir_loop T visit down base_path (d_name # names) s =
     (if d_name \<noteq> ''.'' \<and> d_name \<noteq> ''..'' then
        let path = snprintf 1000 (base_path @ ''/'' @ d_name) in
        if entry_is_dir T path then
          and_then (down path s) (\<lambda>(_, s). dir_loop T visit down base_path names s)
        else case realpath T (concat_path_new base_path d_name) of
            None \<Rightarrow> dir_loop T visit down base_path names s
          | Some realfile \<Rightarrow>
              and_then (visit realfile s) (\<lambda>(ret, s).
                if ret \<noteq> 0 then Inr (-1, s) else dir_loop T visit down base_path names s)
      else dir_loop T visit down base_path names s)"

fun walk_dir :: "tree \<Rightarrow> 's visitor \<Rightarrow> nat \<Rightarrow> 's visitor" where
  "walk_dir T visit 0 base_path s = Inl Hangs"
| "walk_dir T visit (Suc n) base_path s =
     (case stat T base_path of
        Some (Directory names) \<Rightarrow> dir_loop T visit (walk_dir T visit n) base_path names s
      | _ \<Rightarrow> Inr (-1, s))"

fun walk_paths :: "tree \<Rightarrow> 's visitor \<Rightarrow> nat \<Rightarrow> string list \<Rightarrow> 's \<Rightarrow> (int \<times> 's) res" where
  "walk_paths T visit n [] s = Inr (0, s)"
| "walk_paths T visit n (p # paths) s =
     (case stat T p of
        None \<Rightarrow> Inr (-1, s)
      | Some (Directory names) \<Rightarrow>
          and_then (walk_dir T visit n p s) (\<lambda>(ret, s).
            if ret \<noteq> 0 then Inr (-1, s) else walk_paths T visit n paths s)
      | Some Regular \<Rightarrow>
          (case realpath T p of
             None \<Rightarrow> walk_paths T visit n paths s
           | Some path \<Rightarrow> and_then (visit path s) (\<lambda>(_, s). walk_paths T visit n paths s)))"

section \<open>Specification: depth-first order\<close>

text \<open>
  The files below a directory in the order of the traversal, and the condition under which
  the traversal is well defined: every entry's path is shorter than the path buffer and the
  tree is not deeper than the fuel.
\<close>

fun tree_files :: "tree \<Rightarrow> nat \<Rightarrow> string \<Rightarrow> string list" where
  "tree_files T 0 base = []"
| "tree_files T (Suc n) base =
     (case stat T base of
        Some (Directory names) \<Rightarrow>
          concat (map (\<lambda>d. if d = ''.'' \<or> d = ''..'' then []
            else if entry_is_dir T (concat_path_new base d) then tree_files T n (concat_path_new base d)
            else case realpath T (concat_path_new base d) of None \<Rightarrow> [] | Some f \<Rightarrow> [f]) names)
      | _ \<Rightarrow> [])"

fun fits :: "tree \<Rightarrow> nat \<Rightarrow> string \<Rightarrow> bool" where
  "fits T 0 base = False"
| "fits T (Suc n) base =
     (case stat T base of
        Some (Directory names) \<Rightarrow>
          list_all (\<lambda>d. d = ''.'' \<or> d = ''..'' \<or>
            length (concat_path_new base d) < 1000
            \<and> (entry_is_dir T (concat_path_new base d) \<longrightarrow> fits T n (concat_path_new base d))) names
      | _ \<Rightarrow> False)"

definition path_files :: "tree \<Rightarrow> nat \<Rightarrow> string \<Rightarrow> string list" where
  "path_files T n p = (case stat T p of
      Some (Directory names) \<Rightarrow> tree_files T n p
    | Some Regular \<Rightarrow> (case realpath T p of None \<Rightarrow> [] | Some f \<Rightarrow> [f])
    | None \<Rightarrow> [])"

definition path_ok :: "tree \<Rightarrow> nat \<Rightarrow> string \<Rightarrow> bool" where
  "path_ok T n p \<longleftrightarrow> stat T p \<noteq> None \<and> (\<forall>names. stat T p = Some (Directory names) \<longrightarrow> fits T n p)
     \<and> list_all (\<lambda>f. contents T f \<noteq> None) (path_files T n p)"

definition finish :: "'s \<Rightarrow> (int \<times> 's) res" where
  "finish s = Inr (0, s)"

section \<open>The interface of a visitor\<close>

text \<open>
  A visitor that succeeds on readable files, where it performs \<open>step\<close>; under this contract
  the whole traversal is the fold of \<open>step\<close> over the files in depth-first order.
\<close>

locale file_visitor =
  fixes T :: tree
    and visit :: "'s visitor"
    and step :: "string \<Rightarrow> 's \<Rightarrow> 's res"
    and inv :: "'s \<Rightarrow> bool"
  assumes visit_step: "\<lbrakk>inv s; contents T f \<noteq> None\<rbrakk> \<Longrightarrow> visit f s = and_then (step f s) finish"
    and step_inv: "\<lbrakk>inv s; contents T f \<noteq> None; step f s = Inr s'\<rbrakk> \<Longrightarrow> inv s'"
begin

lemma fold_inv:
  "\<lbrakk>inv s; list_all (\<lambda>f. contents T f \<noteq> None) fs; fold_res step fs s = Inr s'\<rbrakk> \<Longrightarrow> inv s'"
  by (rule fold_res_invariant [where P = inv and f = step and xs = fs and s = s])
    (auto simp: list_all_iff simp del: not_None_eq elim: step_inv [rotated 2])

lemma run_then:
  assumes "inv s" and "list_all (\<lambda>f. contents T f \<noteq> None) xs"
    and "\<And>s'. inv s' \<Longrightarrow> g s' = and_then (fold_res step ys s') finish"
  shows "and_then (and_then (fold_res step xs s) finish) (\<lambda>(r, s). if r \<noteq> 0 then Inr (-1, s) else g s)
      = and_then (fold_res step (xs @ ys) s) finish"
    and "and_then (and_then (fold_res step xs s) finish) (\<lambda>(_, s). g s) = and_then (fold_res step (xs @ ys) s) finish"
  using fold_inv [OF assms(1,2)] assms(3)
  by (cases "fold_res step xs s"; simp add: fold_res_append finish_def)+

lemma dir_loop_files:
  assumes down: "\<And>d s. \<lbrakk>d \<in> set names; d \<noteq> ''.''; d \<noteq> ''..''; entry_is_dir T (concat_path_new base d); inv s\<rbrakk>
        \<Longrightarrow> down (concat_path_new base d) s = and_then (fold_res step (files (concat_path_new base d)) s) finish
          \<and> list_all (\<lambda>f. contents T f \<noteq> None) (files (concat_path_new base d))"
    and short: "\<And>d. \<lbrakk>d \<in> set names; d \<noteq> ''.''; d \<noteq> ''..''\<rbrakk> \<Longrightarrow> length (concat_path_new base d) < 1000"
    and read: "\<And>d f. \<lbrakk>d \<in> set names; d \<noteq> ''.''; d \<noteq> ''..''; \<not> entry_is_dir T (concat_path_new base d);
        realpath T (concat_path_new base d) = Some f\<rbrakk> \<Longrightarrow> contents T f \<noteq> None"
  shows "inv s \<Longrightarrow> dir_loop T visit down base names s
    = and_then (fold_res step (concat (map (\<lambda>d. if d = ''.'' \<or> d = ''..'' then []
            else if entry_is_dir T (concat_path_new base d) then files (concat_path_new base d)
            else case realpath T (concat_path_new base d) of None \<Rightarrow> [] | Some f \<Rightarrow> [f]) names)) s) finish"
  using down short read
proof (induction names arbitrary: s)
  case (Cons d names)
  let ?p = "concat_path_new base d"
  let ?rest = "concat (map (\<lambda>d. if d = ''.'' \<or> d = ''..'' then []
            else if entry_is_dir T (concat_path_new base d) then files (concat_path_new base d)
            else case realpath T (concat_path_new base d) of None \<Rightarrow> [] | Some f \<Rightarrow> [f]) names)"
  have IH: "dir_loop T visit down base names s' = and_then (fold_res step ?rest s') finish" if "inv s'" for s'
    by (rule Cons.IH [OF that]; rule Cons.prems; simp)
  show ?case
  proof (cases "d = ''.'' \<or> d = ''..''")
    case True
    then show ?thesis using IH [OF Cons.prems(1)] by auto
  next
    case False
    have sn: "snprintf 1000 (base @ ''/'' @ d) = ?p"
      using Cons.prems(3) [of d] False by (simp add: concat_path_new_def)
    show ?thesis
    proof (cases "entry_is_dir T ?p")
      case True
      have dn: "down ?p s = and_then (fold_res step (files ?p) s) finish"
        "list_all (\<lambda>f. contents T f \<noteq> None) (files ?p)"
        using Cons.prems(2) [of d s] Cons.prems(1) False True by simp_all
      have "dir_loop T visit down base (d # names) s
          = and_then (down ?p s) (\<lambda>(_, s). dir_loop T visit down base names s)"
        using False True by (simp only: dir_loop.simps sn Let_def if_True) simp
      then show ?thesis
        using run_then(2) [OF Cons.prems(1) dn(2) IH] dn(1) False True by simp
    next
      case nd: False
      show ?thesis
      proof (cases "realpath T ?p")
        case None
        then have "dir_loop T visit down base (d # names) s = dir_loop T visit down base names s"
          using False nd by (simp only: dir_loop.simps sn Let_def if_False) simp
        then show ?thesis using IH [OF Cons.prems(1)] False nd None by simp
      next
        case (Some f)
        have r: "contents T f \<noteq> None" using Cons.prems(4) [of d f] False nd Some by simp
        have v: "visit f s = and_then (fold_res step [f] s) finish"
          using visit_step [OF Cons.prems(1) r] by (simp add: fold_res_one)
        have "dir_loop T visit down base (d # names) s
            = and_then (visit f s) (\<lambda>(r, s). if r \<noteq> 0 then Inr (-1, s) else dir_loop T visit down base names s)"
          using False nd Some by (simp only: dir_loop.simps sn Let_def if_False) simp
        then show ?thesis
          using run_then(1) [OF Cons.prems(1) _ IH, of "[f]"] v r False nd Some by simp
      qed
    qed
  qed
qed (simp add: finish_def)

lemma walk_dir_files:
  "\<lbrakk>inv s; fits T n base; list_all (\<lambda>f. contents T f \<noteq> None) (tree_files T n base)\<rbrakk>
    \<Longrightarrow> walk_dir T visit n base s = and_then (fold_res step (tree_files T n base) s) finish"
proof (induction n arbitrary: base s)
  case (Suc n)
  from Suc.prems(2) obtain names where names: "stat T base = Some (Directory names)"
    and fit: "\<And>d. \<lbrakk>d \<in> set names; d \<noteq> ''.''; d \<noteq> ''..''\<rbrakk> \<Longrightarrow> length (concat_path_new base d) < 1000
        \<and> (entry_is_dir T (concat_path_new base d) \<longrightarrow> fits T n (concat_path_new base d))"
    by (auto simp: list_all_iff split: option.splits node.splits)
  have all: "contents T f \<noteq> None" if "f \<in> set (tree_files T (Suc n) base)" for f
    using Suc.prems(3) that unfolding list_all_iff by blast
  have sub: "list_all (\<lambda>f. contents T f \<noteq> None) (tree_files T n (concat_path_new base d))"
    if "d \<in> set names" "d \<noteq> ''.''" "d \<noteq> ''..''" "entry_is_dir T (concat_path_new base d)" for d
    unfolding list_all_iff
  proof
    fix f assume "f \<in> set (tree_files T n (concat_path_new base d))"
    then show "contents T f \<noteq> None" using that by (intro all) (auto simp: names)
  qed
  have leaf: "contents T f \<noteq> None" if "d \<in> set names" "d \<noteq> ''.''" "d \<noteq> ''..''"
      "\<not> entry_is_dir T (concat_path_new base d)" "realpath T (concat_path_new base d) = Some f" for d f
  proof (rule all)
    show "f \<in> set (tree_files T (Suc n) base)" using that by (force simp: names)
  qed
  have "dir_loop T visit (walk_dir T visit n) base names s
    = and_then (fold_res step (concat (map (\<lambda>d. if d = ''.'' \<or> d = ''..'' then []
            else if entry_is_dir T (concat_path_new base d) then tree_files T n (concat_path_new base d)
            else case realpath T (concat_path_new base d) of None \<Rightarrow> [] | Some f \<Rightarrow> [f]) names)) s) finish"
  proof (rule dir_loop_files [OF _ _ _ Suc.prems(1)], goal_cases)
    case (1 d s)
    then show ?case using Suc.IH [OF 1(5)] fit [of d] sub [of d] by blast
  next
    case (2 d)
    then show ?case using fit by blast
  next
    case (3 d f)
    then show ?case by (rule leaf)
  qed
  then show ?case by (simp add: names)
qed simp

lemma walk_paths_files:
  "\<lbrakk>inv s; list_all (path_ok T n) paths\<rbrakk>
    \<Longrightarrow> walk_paths T visit n paths s = and_then (fold_res step (concat (map (path_files T n) paths)) s) finish"
proof (induction paths arbitrary: s)
  case (Cons p paths)
  let ?rest = "concat (map (path_files T n) paths)"
  have IH: "walk_paths T visit n paths s' = and_then (fold_res step ?rest s') finish" if "inv s'" for s'
    using Cons.IH [OF that] Cons.prems(2) by simp
  have ok: "path_ok T n p" using Cons.prems(2) by simp
  consider names where "stat T p = Some (Directory names)" | "stat T p = Some Regular" "realpath T p = None"
    | f where "stat T p = Some Regular" "realpath T p = Some f"
    using ok by (cases "stat T p"; cases "realpath T p"; cases "the (stat T p)") (auto simp: path_ok_def)
  then show ?case
  proof cases
    case 1
    have r: "list_all (\<lambda>f. contents T f \<noteq> None) (tree_files T n p)" "fits T n p"
      using ok 1 by (auto simp: path_ok_def path_files_def)
    show ?thesis
      using 1 run_then(1) [OF Cons.prems(1) r(1) IH] walk_dir_files [OF Cons.prems(1) r(2,1)]
      by (simp add: path_files_def [of T n p])
  next
    case 2
    then show ?thesis using IH [OF Cons.prems(1)] by (simp add: path_files_def [of T n p])
  next
    case 3
    have r: "contents T f \<noteq> None" using ok 3 by (auto simp: path_ok_def path_files_def)
    have v: "visit f s = and_then (fold_res step [f] s) finish"
      using visit_step [OF Cons.prems(1) r] by (simp add: fold_res_one)
    show ?thesis
      using 3 run_then(2) [OF Cons.prems(1) _ IH, of "[f]"] v r by (simp add: path_files_def [of T n p])
  qed
qed (simp add: finish_def)

end

end
