(* ===== verification/Paths.thy ===== *)
theory Paths
  imports EventLog Walk
begin

text \<open>
  \<^verbatim>\<open>src/calculate-srtm-pcrs/paths.c\<close>: files and directory trees measured into PCR 9, as an
  instance of the directory traversal of \<open>Walk\<close>.
\<close>

section \<open>The functions\<close>

type_synonym srtm_state = "eventlog_t mstate"

definition calculate_path :: "digest \<Rightarrow> filesys \<Rightarrow> string \<Rightarrow> srtm_state \<Rightarrow> (int \<times> srtm_state) res" where
  "calculate_path H fs path s =
     (case hash_file H EVP_sha256 fs path of
        Inl e \<Rightarrow> Inr (-1, s)
      | Inr h \<Rightarrow> and_then (log_and_extend H srtm_evlog_add EVP_sha256 9 ''EV_IPL'' h path s) (\<lambda>s. Inr (0, s)))"

definition calculate_paths_recursively ::
  "digest \<Rightarrow> tree \<Rightarrow> nat \<Rightarrow> string \<Rightarrow> srtm_state \<Rightarrow> (int \<times> srtm_state) res" where
  "calculate_paths_recursively H T = walk_dir T (calculate_path H (contents T))"

definition calculate_paths ::
  "digest \<Rightarrow> tree \<Rightarrow> nat \<Rightarrow> string list \<Rightarrow> srtm_state \<Rightarrow> (int \<times> srtm_state) res" where
  "calculate_paths H T = walk_paths T (calculate_path H (contents T))"

section \<open>Every file is one event\<close>

definition file_event :: "digest \<Rightarrow> filesys \<Rightarrow> string \<Rightarrow> event" where
  "file_event H fs f = (''EV_IPL'', H EVP_sha256 (case fs f of Some b \<Rightarrow> b | None \<Rightarrow> []), f)"

abbreviation measures9 :: "digest \<Rightarrow> event list \<Rightarrow> srtm_state \<Rightarrow> srtm_state res" where
  "measures9 H \<equiv> measures H srtm_evlog_add EVP_sha256 9"

definition log_file :: "digest \<Rightarrow> tree \<Rightarrow> string \<Rightarrow> srtm_state \<Rightarrow> srtm_state res" where
  "log_file H T f s = (case file_event H (contents T) f of (n, h, d) \<Rightarrow>
     log_and_extend H srtm_evlog_add EVP_sha256 9 n h d s)"

text \<open>
  The visitor of PCR 9, for every directory structure; the invariant is that the digest
  function is a proper one and the register has its length.
\<close>

lemma log_file_measures:
  "\<lbrakk>digest_ok H; length (mr s) = 32\<rbrakk> \<Longrightarrow> log_file H T f s = measures9 H [file_event H (contents T) f] s"
  by (simp add: log_file_def file_event_def log_and_extend_measures split: option.splits)

interpretation pcr9: file_visitor T "calculate_path H (contents T)" "log_file H T"
    "\<lambda>s. digest_ok H \<and> length (mr s) = 32" for T H
proof
  fix f and s s' :: srtm_state
  assume s: "digest_ok H \<and> length (mr s) = 32" and f: "contents T f \<noteq> None"
  then show "calculate_path H (contents T) f s = and_then (log_file H T f s) finish"
    by (auto simp: calculate_path_def hash_file_eq log_file_def file_event_def finish_def [abs_def])
  assume "log_file H T f s = Inr s'"
  then show "digest_ok H \<and> length (mr s') = 32"
    using measures_length [where H = H and md = EVP_sha256] s log_file_measures [of H s T f] by fastforce
qed

lemma calculate_paths_measures_aux:
  assumes H: "digest_ok H" and s: "length (mr s) = 32" and "list_all (path_ok T n) paths"
  shows "calculate_paths H T n paths s
      = and_then (measures9 H (map (file_event H (contents T)) (concat (map (path_files T n) paths))) s) finish"
proof -
  have "fold_res (log_file H T) fs s = measures9 H (map (file_event H (contents T)) fs) s" for fs
    by (rule fold_res_measures [OF H]) (use s in \<open>simp_all add: log_file_measures [OF H]\<close>)
  then show ?thesis
    using pcr9.walk_paths_files [of H s T n paths] assms by (simp add: calculate_paths_def)
qed

text \<open>
  Fact. Measuring a list of paths terminates with code 0 on every directory structure that
  fits and is readable, and measures exactly the regular files below the paths, once each, in
  depth-first directory order, each with the digest of its contents and its real path; more
  fuel does not change the result.
\<close>

theorem calculate_paths_measures:
  assumes "digest_ok H" and "length (mr s) = 32" and "list_all (path_ok T n) paths"
  shows "calculate_paths H T n paths s
      = and_then (measures H srtm_evlog_add EVP_sha256 9
          (map (file_event H (contents T)) (concat (map (path_files T n) paths))) s) (\<lambda>s. Inr (0, s))"
  using calculate_paths_measures_aux [OF assms] by (simp add: finish_def [abs_def])

definition sample_tree :: tree where
  "sample_tree = \<lparr>
     stat = [''/m'' \<mapsto> Directory [''.'', ''..'', ''a'', ''d''], ''/m/a'' \<mapsto> Regular,
             ''/m/d'' \<mapsto> Directory [''b''], ''/m/d/b'' \<mapsto> Regular],
     realpath = (\<lambda>p. Some p), contents = [''/m/a'' \<mapsto> [1, 2], ''/m/d/b'' \<mapsto> [3]],
     stale_is_dir = (\<lambda>_. False)\<rparr>"

theorem calculate_paths_measures_witness:
  "calculate_paths sum_digest sample_tree 2 [''/m'', ''/m/a''] \<lparr>mr = zeros 32, evlog = empty_log FORMAT_JSON 24\<rparr>
     = and_then (measures sum_digest srtm_evlog_add EVP_sha256 9
          [file_event sum_digest (contents sample_tree) ''/m/a'',
           file_event sum_digest (contents sample_tree) ''/m/d/b'',
           file_event sum_digest (contents sample_tree) ''/m/a'']
          \<lparr>mr = zeros 32, evlog = empty_log FORMAT_JSON 24\<rparr>) (\<lambda>s. Inr (0, s))"
proof -
  have ok: "list_all (path_ok sample_tree 2) [''/m'', ''/m/a'']"
    by (simp add: path_ok_def path_files_def sample_tree_def numeral_2_eq_2 concat_path_new_def entry_is_dir_def)
  show ?thesis
    using calculate_paths_measures [OF sum_digest_ok _ ok, of "\<lparr>mr = zeros 32, evlog = empty_log FORMAT_JSON 24\<rparr>"]
    by (simp add: path_files_def sample_tree_def numeral_2_eq_2 concat_path_new_def entry_is_dir_def)
qed

text \<open>
  Fact. A file that cannot be read is silently skipped: the result of \<open>calculate_path\<close> is
  ignored, so the function reports success although nothing was measured for that file.
\<close>

theorem calculate_paths_skips_unreadable:
  assumes "stat T p = Some Regular" and "realpath T p = Some f" and "contents T f = None"
  shows "calculate_paths H T n [p] s = Inr (0, s)"
  using assms by (simp add: calculate_paths_def calculate_path_def hash_file_eq)

theorem calculate_paths_skips_unreadable_witness:
  "calculate_paths sum_digest (sample_tree\<lparr>contents := Map.empty\<rparr>) 0 [''/m/a'']
      \<lparr>mr = zeros 32, evlog = empty_log FORMAT_JSON 24\<rparr>
    = Inr (0, \<lparr>mr = zeros 32, evlog = empty_log FORMAT_JSON 24\<rparr>)"
  by (rule calculate_paths_skips_unreadable [of _ _ "''/m/a''"]) (simp_all add: sample_tree_def)

end
