(* ===== verification/Pcrs.thy ===== *)
theory Pcrs
  imports EventLog Acpi SecureBoot EfiBoot Authenticode KernelConfig Gpt Ffs Paths
begin

text \<open>
  \<^verbatim>\<open>src/calculate-srtm-pcrs/pcrs.c\<close>: the expected values of the TPM registers PCR 0 to 9 of a
  measured boot, each with the event log entries it consists of. Every function resets its
  register and then measures; \<open>pcr<n>_events\<close> is the specification of each.

  What the code does not control is explicit: \<open>H\<close> is the digest, \<open>T\<close> the file system,
  \<open>st\<close> the indeterminate pointer of \<open>MeasurePeImage\<close>, \<open>lzdec\<close> the LZMA decoder,
  \<open>garbage\<close> the content of fresh memory, \<open>base\<close> an allocation's address, and \<open>slack\<close>
  the memory behind the buffer that \<open>strtok\<close> scans.
\<close>

section \<open>Shared steps\<close>

abbreviation sha256 :: evp_md where "sha256 \<equiv> EVP_sha256"

abbreviation pcr_add :: "digest \<Rightarrow> nat \<Rightarrow> string \<Rightarrow> byte list \<Rightarrow> string \<Rightarrow> srtm_state \<Rightarrow> srtm_state res" where
  "pcr_add H idx name hash desc \<equiv> log_and_extend H srtm_evlog_add sha256 idx name hash desc"

abbreviation measures_pcr :: "digest \<Rightarrow> nat \<Rightarrow> event list \<Rightarrow> srtm_state \<Rightarrow> srtm_state res" where
  "measures_pcr H idx \<equiv> measures H srtm_evlog_add sha256 idx"

text \<open>\<open>memset(pcr, 0x0, SHA256_DIGEST_LENGTH)\<close>\<close>

definition reset :: "srtm_state \<Rightarrow> srtm_state" where
  "reset s = s\<lparr>mr := zeros 32\<rparr>"

lemma reset_mr [simp]: "length (mr (reset s)) = 32" "mr (reset s) = zeros 32" "evlog (reset s) = evlog s"
  by (simp_all add: reset_def)

text \<open>The separator that closes most registers: the digest of four zero bytes.\<close>

definition measure_separator :: "digest \<Rightarrow> nat \<Rightarrow> srtm_state \<Rightarrow> srtm_state res" where
  "measure_separator H idx s =
     and_then (hash_buf H sha256 (zeros 4) 4) (\<lambda>h. pcr_add H idx ''EV_SEPARATOR'' h ''HASH(00000000)'' s)"

definition separator_event :: "digest \<Rightarrow> event" where
  "separator_event H = (''EV_SEPARATOR'', H sha256 (zeros 4), ''HASH(00000000)'')"

lemma measure_separator_measures:
  "\<lbrakk>digest_ok H; length (mr s) = 32\<rbrakk> \<Longrightarrow> measure_separator H idx s = measures_pcr H idx [separator_event H] s"
  by (simp add: measure_separator_def separator_event_def hash_buf_def log_and_extend_measures)

text \<open>Error codes of a callee that become -1, and C strings passed as buffers.\<close>

definition fail_minus1 :: "'a res \<Rightarrow> 'a res" where
  "fail_minus1 m = (case m of Inl (Fail n) \<Rightarrow> Inl (Fail (-1)) | _ \<Rightarrow> m)"

lemma fail_minus1_Inr [simp]: "fail_minus1 (Inr x) = Inr x" "fail_minus1 (Inl (Fail n)) = Inl (Fail (-1))"
  by (simp_all add: fail_minus1_def)

definition action_event :: "digest \<Rightarrow> string \<Rightarrow> event" where
  "action_event H a = (''EV_EFI_ACTION'', H sha256 (bytes_of a), ''HASH('' @ [CHR 0x27] @ a @ [CHR 0x27] @ '')'')"

definition measure_action :: "digest \<Rightarrow> nat \<Rightarrow> string \<Rightarrow> srtm_state \<Rightarrow> srtm_state res" where
  "measure_action H idx a s =
     and_then (hash_buf H sha256 (bytes_of a) (length a)) (\<lambda>h.
       pcr_add H idx ''EV_EFI_ACTION'' h (''HASH('' @ [CHR 0x27] @ a @ [CHR 0x27] @ '')'') s)"

lemma measure_action_measures:
  "\<lbrakk>digest_ok H; length (mr s) = 32\<rbrakk> \<Longrightarrow> measure_action H idx a s = measures_pcr H idx [action_event H a] s"
  by (simp add: measure_action_def action_event_def hash_buf_def log_and_extend_measures)

section \<open>PCR 0: firmware code\<close>

definition calculate_pcr0 ::
  "digest \<Rightarrow> lzma_decode \<Rightarrow> (nat \<Rightarrow> byte list) \<Rightarrow> nat \<Rightarrow> disk \<Rightarrow> filesys \<Rightarrow> string \<Rightarrow> string option \<Rightarrow> string option
    \<Rightarrow> srtm_state \<Rightarrow> (srtm_state \<times> filesys) res" where
  "calculate_pcr0 H lzdec garbage base disk fs ovmf_file dump_pei_path dump_dxe_path s =
     and_then (hash_buf H sha256 [0, 0] 2) (\<lambda>h.
     and_then (pcr_add H 0 ''EV_S_CRTM_VERSION'' h ''CRTM Version String'' (reset s)) (\<lambda>s.
     and_then (read_file fs ovmf_file) (\<lambda>ovmf_buf.
     and_then (rd64 ovmf_buf 32) (\<lambda>fvmain_start.
     and_then (rd64 ovmf_buf (u64 (fvmain_start + 32))) (\<lambda>FvLength.
     and_then (check (\<not> (fvmain_start > length ovmf_buf \<or> FvLength > length ovmf_buf - fvmain_start)) (Fail (-1))) (\<lambda>_.
     and_then (rd ovmf_buf fvmain_start FvLength) (\<lambda>fvmain_compact_buf.
     and_then (extract_lzma_fvmain_new lzdec garbage fvmain_compact_buf base) (\<lambda>fv.
     case fv of None \<Rightarrow> Inl (Fail (-1))
     | Some fvmain \<Rightarrow>
       and_then (rd64 fvmain (0x80 + 32)) (\<lambda>pei_len.
       and_then (hash_and_dump H disk sha256 (drop 0x80 fvmain) pei_len dump_pei_path fs) (\<lambda>(h, fs).
       and_then (pcr_add H 0 ''PEIFV'' h ''OVMF UEFI PEI Firmware Volume'' s) (\<lambda>s.
       let dxefv = u64 (pei_len + 0x90) in
       and_then (rd64 fvmain (dxefv + 32)) (\<lambda>dxe_len.
       and_then (hash_and_dump H disk sha256 (drop dxefv fvmain) dxe_len dump_dxe_path fs) (\<lambda>(h, fs).
       and_then (pcr_add H 0 ''DXEFV'' h ''OVMF UEFI DXE Firmware Volume'' s) (\<lambda>s.
       and_then (measure_separator H 0 s) (\<lambda>s.
         Inr (s, fs))))))))))))))))"

text \<open>
  The two firmware volumes inside the decompressed main volume, and the condition that they
  lie inside it.
\<close>

definition pei_len :: "byte list \<Rightarrow> nat" where "pei_len fv = le (take 8 (drop 0xA0 fv))"
definition dxe_off :: "byte list \<Rightarrow> nat" where "dxe_off fv = pei_len fv + 0x90"
definition dxe_len :: "byte list \<Rightarrow> nat" where "dxe_len fv = le (take 8 (drop (dxe_off fv + 32) fv))"

definition pei_volume :: "byte list \<Rightarrow> byte list" where "pei_volume fv = take (pei_len fv) (drop 0x80 fv)"
definition dxe_volume :: "byte list \<Rightarrow> byte list" where "dxe_volume fv = take (dxe_len fv) (drop (dxe_off fv) fv)"

definition fvmain_ok :: "byte list \<Rightarrow> bool" where
  "fvmain_ok fv \<longleftrightarrow> 0xA8 \<le> length fv \<and> length fv < 2 ^ 63 \<and> 0x80 + pei_len fv \<le> length fv
     \<and> dxe_off fv + 40 \<le> length fv \<and> dxe_off fv + dxe_len fv \<le> length fv"

definition pcr0_events :: "digest \<Rightarrow> byte list \<Rightarrow> event list" where
  "pcr0_events H fv =
     [(''EV_S_CRTM_VERSION'', H sha256 [0, 0], ''CRTM Version String''),
      (''PEIFV'', H sha256 (pei_volume fv), ''OVMF UEFI PEI Firmware Volume''),
      (''DXEFV'', H sha256 (dxe_volume fv), ''OVMF UEFI DXE Firmware Volume''),
      separator_event H]"

definition ovmf_main_volume :: "byte list \<Rightarrow> byte list \<Rightarrow> bool" where
  "ovmf_main_volume ovmf fvc \<longleftrightarrow>
     (let start = le (take 8 (drop 32 ovmf)); len = le (take 8 (drop (start + 32) ovmf)) in
      40 \<le> length ovmf \<and> start + 40 \<le> length ovmf \<and> length ovmf < 2 ^ 63 \<and> start + len \<le> length ovmf
      \<and> fvc = take len (drop start ovmf))"

section \<open>PCR 1, 2 and 3\<close>

definition calculate_pcr1 ::
  "digest \<Rightarrow> filesys \<Rightarrow> bool \<Rightarrow> acpi_files_t \<Rightarrow> char16 list \<Rightarrow> string list option \<Rightarrow> srtm_state \<Rightarrow> srtm_state res" where
  "calculate_pcr1 H fs stale_sep cfg boot_order bootxxxx s =
     and_then (calculate_acpi_tables H srtm_evlog_add sha256 1 cfg (reset s)) (\<lambda>s.
     case calculate_efi_boot_vars H srtm_evlog_add sha256 1 fs boot_order bootxxxx s of
       Inl (Fail n) \<Rightarrow> Inl (if stale_sep then OutOfBounds else Fail n)
     | Inl e \<Rightarrow> Inl e
     | Inr s \<Rightarrow> measure_separator H 1 s)"

definition calculate_pcr2 ::
  "digest \<Rightarrow> filesys \<Rightarrow> bool \<Rightarrow> string list \<Rightarrow> srtm_state \<Rightarrow> srtm_state res" where
  "calculate_pcr2 H fs st drivers s =
     and_then (fold_res (\<lambda>driver s.
         and_then (fail_minus1 (LoadPeImage fs driver)) (\<lambda>buf.
         and_then (fail_minus1 (MeasurePeImage H sha256 st buf)) (\<lambda>h.
           pcr_add H 2 ''EV_EFI_BOOT_SERVICES_DRIVER'' h (basename driver) s))) drivers (reset s)) (\<lambda>s.
       measure_separator H 2 s)"

definition calculate_pcr3 :: "digest \<Rightarrow> srtm_state \<Rightarrow> srtm_state res" where
  "calculate_pcr3 H s = measure_separator H 3 (reset s)"

section \<open>PCR 4: boot loaders and kernel\<close>

definition zero_config :: config_t where
  "zero_config = \<lparr>type_of_loader = 0, loadflags = 0, setup_move_size = 0, code32_start = 0,
     ramdisk_image = 0, ramdisk_size = 0, bootsect_kludge = 0, heap_end_ptr = 0, ext_loader_ver = 0,
     ext_loader_type = 0, cmd_line_ptr = 0\<rparr>"

text \<open>
  When a boot loader cannot be measured, the code frees its buffer, logs and extends the zero
  digest and frees the buffer a second time, which is undefined behaviour.
\<close>

definition measure_bootloader :: "digest \<Rightarrow> filesys \<Rightarrow> bool \<Rightarrow> string option \<Rightarrow> srtm_state \<Rightarrow> srtm_state res" where
  "measure_bootloader H fs st file s =
     (case file of None \<Rightarrow> Inl (Fail (-1))
      | Some f \<Rightarrow>
          and_then (fail_minus1 (LoadPeImage fs f)) (\<lambda>buf.
          case MeasurePeImage H sha256 st buf of
            Inr h \<Rightarrow> pcr_add H 4 ''EV_EFI_BOOT_SERVICES_APPLICATION'' h (basename f) s
          | Inl (Fail n) \<Rightarrow>
              and_then (pcr_add H 4 ''EV_EFI_BOOT_SERVICES_APPLICATION'' (zeros 32) (basename f) s) (\<lambda>s.
                Inl OutOfBounds)
          | Inl e \<Rightarrow> Inl e))"

definition prepare_kernel :: "filesys \<Rightarrow> string option \<Rightarrow> byte list \<Rightarrow> byte list res" where
  "prepare_kernel fs config_file buf =
     (case config_file of None \<Rightarrow> Inr buf
      | Some c \<Rightarrow> and_then (fail_minus1 (config_load fs zero_config c)) (\<lambda>config.
          fail_minus1 (config_prepare_kernel_pecoff buf config)))"

definition measure_kernel ::
  "digest \<Rightarrow> filesys \<Rightarrow> bool \<Rightarrow> string option \<Rightarrow> string option \<Rightarrow> srtm_state \<Rightarrow> srtm_state res" where
  "measure_kernel H fs st kernel_file config_file s =
     (case kernel_file of None \<Rightarrow> Inr s
      | Some k \<Rightarrow>
          and_then (fail_minus1 (LoadPeImage fs k)) (\<lambda>buf.
          and_then (prepare_kernel fs config_file buf) (\<lambda>buf.
          and_then (fail_minus1 (MeasurePeImage H sha256 st buf)) (\<lambda>h.
            pcr_add H 4 ''EV_EFI_BOOT_SERVICES_APPLICATION'' h (basename k) s))))"

definition calculate_pcr4 ::
  "digest \<Rightarrow> filesys \<Rightarrow> bool \<Rightarrow> string option \<Rightarrow> string option \<Rightarrow> string option list option
    \<Rightarrow> srtm_state \<Rightarrow> srtm_state res" where
  "calculate_pcr4 H fs st kernel_file config_file bootloader_files s =
     and_then (check (\<not> (kernel_file = None \<and> bootloader_files = None)) (Fail (-1))) (\<lambda>_.
     and_then (fold_res (measure_bootloader H fs st)
         (case bootloader_files of None \<Rightarrow> [] | Some fl \<Rightarrow> fl) (reset s)) (\<lambda>s.
     and_then (measure_kernel H fs st kernel_file config_file s) (\<lambda>s.
     and_then (measure_action H 4 ''Calling EFI Application from Boot Option'' s) (\<lambda>s.
       measure_separator H 4 s))))"

section \<open>PCR 5: partition table\<close>

text \<open>The separator is logged first but extended after the partition table.\<close>

definition calculate_pcr5 ::
  "digest \<Rightarrow> filesys \<Rightarrow> string \<Rightarrow> string option \<Rightarrow> srtm_state \<Rightarrow> srtm_state res" where
  "calculate_pcr5 H fs buf0 efi_partition_table s =
     (let inv = ''Exit Boot Services Invocation'';
          succ = ''Exit Boot Services Returned with Success'' in
      and_then (hash_buf H sha256 (zeros 4) 4) (\<lambda>hsep.
      and_then (log_only srtm_evlog_add 5 ''EV_SEPARATOR'' hsep ''HASH(00000000)'' (reset s)) (\<lambda>s.
      and_then (case efi_partition_table of None \<Rightarrow> Inr s
        | Some f \<Rightarrow>
            and_then (fail_minus1 (read_file fs f)) (\<lambda>gpt_buf.
            and_then (check (\<not> length gpt_buf < 92) (Fail (-1))) (\<lambda>_.
            and_then (hash_buf H sha256 gpt_buf (length gpt_buf)) (\<lambda>hgpt.
            and_then (write_gpt_header buf0 gpt_buf) (\<lambda>description.
              pcr_add H 5 ''EV_EFI_GPT_EVENT'' hgpt (c_string description) s))))) (\<lambda>s.
      and_then (hash_buf H sha256 (bytes_of inv) (length inv)) (\<lambda>hinv.
      and_then (log_only srtm_evlog_add 5 ''EV_EFI_ACTION'' hinv (snd (snd (action_event H inv))) s) (\<lambda>s.
      and_then (hash_buf H sha256 (bytes_of succ) (length succ)) (\<lambda>hsucc.
      and_then (log_only srtm_evlog_add 5 ''EV_EFI_ACTION'' hsucc (snd (snd (action_event H succ))) s) (\<lambda>s.
      and_then (extend_only H sha256 hsep s) (\<lambda>s.
      and_then (extend_only H sha256 hinv s) (\<lambda>s.
        extend_only H sha256 hsucc s))))))))))"

section \<open>PCR 6 to 9\<close>

definition calculate_pcr6 :: "digest \<Rightarrow> srtm_state \<Rightarrow> srtm_state res" where
  "calculate_pcr6 H s = measure_separator H 6 (reset s)"

definition sbat_level_guid :: guid where
  "sbat_level_guid = \<lparr>Data1 = 0x605dab50, Data2 = 0xe046, Data3 = 0x4300,
     Data4 = [0xab, 0xb6, 0x3d, 0xd8, 0x10, 0xdd, 0x8b, 0x23]\<rparr>"

definition sbat_variable :: "string \<Rightarrow> variable_type_t" where
  "sbat_variable level = \<lparr>event_type = ''EV_EFI_VARIABLE_AUTHORITY'', variable_name = u_literal ''SbatLevel'',
     vendor_guid = sbat_level_guid, var_path = None, var_data = Some (bytes_of level),
     data_size = length level\<rparr>"

definition calculate_pcr7 ::
  "digest \<Rightarrow> filesys \<Rightarrow> string option \<Rightarrow> string option \<Rightarrow> string option \<Rightarrow> string option \<Rightarrow> string option
    \<Rightarrow> string option \<Rightarrow> srtm_state \<Rightarrow> srtm_state res" where
  "calculate_pcr7 H fs sbat_level secure_boot pk kek db dbx s =
     and_then (fail_minus1 (measure_secure_boot_variables H srtm_evlog_add sha256 7 fs secure_boot pk kek db dbx (reset s))) (\<lambda>s.
     and_then (measure_separator H 7 s) (\<lambda>s.
     case sbat_level of None \<Rightarrow> Inr s
     | Some level \<Rightarrow> fail_minus1 (measure_variable H srtm_evlog_add sha256 7 fs (sbat_variable level) s)))"

text \<open>
  \<open>strtok\<close> scans the buffer and, as \<open>read_file\<close> adds no terminator, the memory behind it.
\<close>

definition calculate_pcr8 :: "digest \<Rightarrow> filesys \<Rightarrow> byte list \<Rightarrow> string option \<Rightarrow> srtm_state \<Rightarrow> srtm_state res" where
  "calculate_pcr8 H fs slack grubcmds_file s =
     (case grubcmds_file of None \<Rightarrow> Inr (reset s)
      | Some f \<Rightarrow>
          and_then (fail_minus1 (read_file fs f)) (\<lambda>buf.
          and_then (check (0 \<in> set (buf @ slack)) OutOfBounds) (\<lambda>_.
            fold_res (\<lambda>cmd s.
              and_then (hash_buf H sha256 cmd (length cmd)) (\<lambda>h. pcr_add H 8 ''EV_IPL'' h (chars cmd) s))
              (strtok_all (\<lambda>c. c = 0x0A) (cstr (buf @ slack))) (reset s))))"

definition calculate_pcr9 ::
  "digest \<Rightarrow> tree \<Rightarrow> nat \<Rightarrow> string option \<Rightarrow> nat \<Rightarrow> string option \<Rightarrow> string list option \<Rightarrow> srtm_state \<Rightarrow> srtm_state res" where
  "calculate_pcr9 H T n cmdline trailing_zeros initrd paths s =
     and_then (case paths of None \<Rightarrow> Inr (reset s)
       | Some ps \<Rightarrow> and_then (calculate_paths H T n ps (reset s)) (\<lambda>(ret, s).
           if ret \<noteq> 0 then Inl (Fail ret) else Inr s)) (\<lambda>s.
     and_then (case cmdline of None \<Rightarrow> Inr s
       | Some f \<Rightarrow>
           and_then (read_file (contents T) f) (\<lambda>buf.
           let buf = (case initrd of None \<Rightarrow> buf | Some _ \<Rightarrow> buf @ bytes_of '' initrd=initrd'');
               cmdline_str = chars (cstr (buf @ [0])) in
           and_then (convert_to_char16 buf (length buf) trailing_zeros) (\<lambda>(wcmdline, cmdline_len).
           and_then (hash_buf H sha256 (char16_bytes wcmdline) cmdline_len) (\<lambda>h.
             pcr_add H 9 ''EV_EVENT_TAG'' h cmdline_str s)))) (\<lambda>s.
     case initrd of None \<Rightarrow> Inr s
     | Some f \<Rightarrow>
         and_then (read_file (contents T) f) (\<lambda>buf.
         and_then (hash_buf H sha256 buf (length buf)) (\<lambda>h.
           pcr_add H 9 ''EV_EVENT_TAG'' h f s))))"

end
