(* ===== verification/PcrSpec.thy ===== *)
theory PcrSpec
  imports Pcrs
begin

text \<open>
  The specification of \<^verbatim>\<open>src/calculate-srtm-pcrs/pcrs.c\<close>: each register is the replay of a list
  of events that is written down directly from the inputs (PE images by their Authenticode
  stream, variables by their UEFI structure), and the event log receives exactly these events
  in this order. PCR 5 is the exception, and is stated as it is.
\<close>

section \<open>Measured images\<close>

text \<open>An image that the PE parser accepts and whose parts fit together.\<close>

definition measurable :: "byte list \<Rightarrow> bool" where
  "measurable b \<longleftrightarrow> length b < 2 ^ 32
     \<and> (case PeCoffLoaderGetImageInfo (Tcg2DxeImageRead b) zero_context of Inl e \<Rightarrow> False | Inr ic \<Rightarrow> True)
     \<and> pe_Signature (pe_header b) = EFI_IMAGE_NT_SIGNATURE \<and> trailer_ok b"

lemma MeasurePeImage_measurable:
  assumes "measurable b"
  shows "MeasurePeImage H md st b = Inr (H md (authenticode_stream b))"
proof -
  from assms obtain ic where ic: "PeCoffLoaderGetImageInfo (Tcg2DxeImageRead b) zero_context = Inr ic"
    by (auto simp: measurable_def split: sum.splits)
  with assms show ?thesis
    using MeasurePeImage_valid [OF GetImageInfo_valid [OF ic] _ ic] by (simp add: measurable_def)
qed

lemma MeasurePeImage_Inr_measurable:
  assumes "MeasurePeImage H md st img = Inr d" and len: "length img < 2 ^ 32"
  shows "measurable img"
proof -
  obtain ic where info: "PeCoffLoaderGetImageInfo (Tcg2DxeImageRead img) zero_context = Inr ic"
    using assms(1) by (cases "PeCoffLoaderGetImageInfo (Tcg2DxeImageRead img) zero_context")
      (auto simp: MeasurePeImage_def split: if_splits)
  have sig: "pe_Signature (pe_header img) = EFI_IMAGE_NT_SIGNATURE"
    using MeasurePeImage_not_pe [OF info len, of H md st] assms(1) by auto
  show ?thesis
    using MeasurePeImage_valid [OF GetImageInfo_valid [OF info len sig] len info, of H md st] assms
    by (auto simp: measurable_def info sig split: if_splits)
qed

definition image_ok :: "filesys \<Rightarrow> string \<Rightarrow> bool" where
  "image_ok fs f \<longleftrightarrow> (case fs f of None \<Rightarrow> False | Some b \<Rightarrow> measurable b)"

definition image_event :: "digest \<Rightarrow> filesys \<Rightarrow> string \<Rightarrow> string \<Rightarrow> event" where
  "image_event H fs kind f = (kind, H sha256 (authenticode_stream (the (fs f))), basename f)"

lemma fail_minus1_fail [simp]: "fail_minus1 (Inl (Fail n)) = Inl (Fail (-1))"
  by (simp add: fail_minus1_def)

lemma srtm_add_not_Fail: "srtm_evlog_add l i n h d \<noteq> Inl (Fail k)"
  by (auto simp: srtm_evlog_add_def append_slot_def rd_def)

lemma measures_not_Fail: "measures_pcr H i evs s \<noteq> Inl (Fail k)"
proof -
  have "log_events srtm_evlog_add i evs l \<noteq> Inl (Fail k)" for l
  proof (induction evs arbitrary: l)
    case (Cons e evs)
    obtain n h d where e: "e = (n, h, d)" by (cases e)
    show ?case
      using Cons.IH srtm_add_not_Fail [of l i n h d k]
      by (cases "srtm_evlog_add l i n h d") (auto simp: e)
  qed simp
  then show ?thesis by (cases "log_events srtm_evlog_add i evs (evlog s)") (auto simp: measures_def)
qed

lemma fail_minus1_measures [simp]: "fail_minus1 (measures_pcr H i evs s) = measures_pcr H i evs s"
  using measures_not_Fail [of H i evs s]
  by (cases "measures_pcr H i evs s") (auto simp: fail_minus1_def split: fault.splits)

section \<open>PCR 1 to 3\<close>

definition pcr1_events :: "digest \<Rightarrow> filesys \<Rightarrow> acpi_files_t \<Rightarrow> char16 list \<Rightarrow> string list option \<Rightarrow> event list" where
  "pcr1_events H fs cfg order boots =
     acpi_events H sha256 cfg @ boot_var_events H sha256 fs order boots @ [separator_event H]"

lemma separator_tail:
  assumes "digest_ok H" and "length (mr s) = 32"
  shows "and_then (measures_pcr H i evs s) (measure_separator H i) = measures_pcr H i (evs @ [separator_event H]) s"
  by (rule and_then_measures [OF assms(1)]) (simp_all add: assms measure_separator_measures)

lemma calculate_pcr1_aux:
  assumes H: "digest_ok H" and "acpi_ok cfg" and "boot_files_ok fs boots"
  shows "calculate_pcr1 H fs ss cfg order boots s = measures_pcr H 1 (pcr1_events H fs cfg order boots) (reset s)"
proof -
  have m: "(case calculate_efi_boot_vars H srtm_evlog_add sha256 1 fs order boots s' of
       Inl (Fail n) \<Rightarrow> Inl (if ss then OutOfBounds else Fail n) | Inl e \<Rightarrow> Inl e
     | Inr s \<Rightarrow> measure_separator H 1 s)
    = measures_pcr H 1 (boot_var_events H sha256 fs order boots @ [separator_event H]) s'"
    if "length (mr s') = EVP_MD_size sha256" for s'
  proof -
    have b: "calculate_efi_boot_vars H srtm_evlog_add sha256 1 fs order boots s'
        = measures_pcr H 1 (boot_var_events H sha256 fs order boots) s'"
      by (rule calculate_efi_boot_vars_measures [OF H assms(3) that])
    have nf: "measures_pcr H 1 evs s' \<noteq> Inl (Fail n)" for evs n
      by (rule measures_not_Fail)
    show ?thesis
      unfolding b separator_tail [OF H that [simplified], symmetric]
      using nf by (cases "measures_pcr H 1 (boot_var_events H sha256 fs order boots) s'") (auto split: fault.splits)
  qed
  show ?thesis
    unfolding calculate_pcr1_def pcr1_events_def
      calculate_acpi_tables_measures [OF H assms(2), of "reset s" sha256, simplified]
    by (rule and_then_measures [OF H _ m]) simp_all
qed

text \<open>
  Fact. PCR 1 measures the ACPI blobs present, the boot order, the boot options and the
  separator, in this order; for well-formed inputs the function succeeds in exactly this way
  and register and log agree.
\<close>

theorem calculate_pcr1_measures:
  assumes "digest_ok H" and "acpi_ok cfg" and "boot_files_ok fs boots"
  shows "calculate_pcr1 H fs ss cfg order boots s = measures_pcr H 1 (pcr1_events H fs cfg order boots) (reset s)"
  using assms by (rule calculate_pcr1_aux)

definition no_acpi :: acpi_files_t where
  "no_acpi = \<lparr>acpi_tables = None, acpi_tables_size = 0, acpi_rsdp = None, acpi_rsdp_size = 0,
     table_loader = None, table_loader_size = 0, tpm_log = None, tpm_log_size = 0\<rparr>"

definition init_state :: srtm_state where
  "init_state = \<lparr>mr = zeros 32, evlog = empty_log FORMAT_JSON MAX_PCRS\<rparr>"

theorem calculate_pcr1_measures_witness:
  "calculate_pcr1 sum_digest Map.empty False (no_acpi\<lparr>acpi_rsdp := Some [1, 2], acpi_rsdp_size := 2\<rparr>) [0] None init_state
   = measures_pcr sum_digest 1
       (pcr1_events sum_digest Map.empty (no_acpi\<lparr>acpi_rsdp := Some [1, 2], acpi_rsdp_size := 2\<rparr>) [0] None)
       (reset init_state)"
  by (rule calculate_pcr1_measures [OF sum_digest_ok]) (simp_all add: acpi_ok_def no_acpi_def boot_files_ok_def)

definition pcr2_events :: "digest \<Rightarrow> filesys \<Rightarrow> string list \<Rightarrow> event list" where
  "pcr2_events H fs drivers =
     map (image_event H fs ''EV_EFI_BOOT_SERVICES_DRIVER'') drivers @ [separator_event H]"

text \<open>
  Fact. PCR 2 measures the Authenticode digest of each driver image, in the given order, and
  the separator.
\<close>

theorem calculate_pcr2_measures:
  assumes H: "digest_ok H" and ok: "\<And>d. d \<in> set drivers \<Longrightarrow> image_ok fs d"
  shows "calculate_pcr2 H fs st drivers s = measures_pcr H 2 (pcr2_events H fs drivers) (reset s)"
proof -
  have step: "and_then (fail_minus1 (LoadPeImage fs d)) (\<lambda>buf.
         and_then (fail_minus1 (MeasurePeImage H sha256 st buf)) (\<lambda>h.
           pcr_add H 2 ''EV_EFI_BOOT_SERVICES_DRIVER'' h (basename d) s))
      = measures_pcr H 2 [image_event H fs ''EV_EFI_BOOT_SERVICES_DRIVER'' d] s"
    if "d \<in> set drivers" "length (mr s) = EVP_MD_size sha256" for d and s :: srtm_state
  proof -
    from ok [OF that(1)] obtain b where b: "fs d = Some b" "measurable b"
      by (auto simp: image_ok_def split: option.splits)
    show ?thesis using that(2) H
      by (simp add: LoadPeImage_def b MeasurePeImage_measurable [OF b(2)] log_and_extend_measures image_event_def)
  qed
  show ?thesis
    unfolding calculate_pcr2_def pcr2_events_def
    by (subst fold_res_measures [OF H step]) (auto intro!: separator_tail [OF H])
qed

lemma sample_signed_measurable: "measurable sample_signed" "measurable sample_unsigned"
proof -
  have "\<exists>d. MeasurePeImage sum_digest sha256 False sample_signed = Inr d"
    "\<exists>d. MeasurePeImage sum_digest sha256 False sample_unsigned = Inr d"
    using sample_cert_measured [OF _ sample_signed_def, of sum_digest sha256 False]
      sample_cert_measured [OF _ sample_unsigned_def, of sum_digest sha256 False] by auto
  then show "measurable sample_signed" "measurable sample_unsigned"
    by (auto elim!: MeasurePeImage_Inr_measurable)
qed

theorem calculate_pcr2_measures_witness:
  "calculate_pcr2 sum_digest [''/d/a.efi'' \<mapsto> sample_signed] True [''/d/a.efi'', ''/d/a.efi''] init_state
   = measures_pcr sum_digest 2 (pcr2_events sum_digest [''/d/a.efi'' \<mapsto> sample_signed] [''/d/a.efi'', ''/d/a.efi''])
       (reset init_state)"
  by (rule calculate_pcr2_measures [OF sum_digest_ok]) (auto simp: image_ok_def sample_signed_measurable)

section \<open>PCR 4\<close>

definition kernel_image :: "filesys \<Rightarrow> string option \<Rightarrow> string \<Rightarrow> byte list option" where
  "kernel_image fs config_file k = (case fs k of None \<Rightarrow> None
     | Some b \<Rightarrow> (case prepare_kernel fs config_file b of Inl e \<Rightarrow> None | Inr b' \<Rightarrow> Some b'))"

definition pcr4_events ::
  "digest \<Rightarrow> filesys \<Rightarrow> string option \<Rightarrow> string option \<Rightarrow> string list \<Rightarrow> event list" where
  "pcr4_events H fs kernel_file config_file bootloaders =
     map (image_event H fs ''EV_EFI_BOOT_SERVICES_APPLICATION'') bootloaders
     @ (case kernel_file of None \<Rightarrow> []
        | Some k \<Rightarrow> [(''EV_EFI_BOOT_SERVICES_APPLICATION'',
            H sha256 (authenticode_stream (the (kernel_image fs config_file k))), basename k)])
     @ [action_event H ''Calling EFI Application from Boot Option'', separator_event H]"

definition kernel_ok :: "filesys \<Rightarrow> string option \<Rightarrow> string option \<Rightarrow> bool" where
  "kernel_ok fs config_file kernel_file = (case kernel_file of None \<Rightarrow> True
     | Some k \<Rightarrow> (case kernel_image fs config_file k of None \<Rightarrow> False | Some b \<Rightarrow> measurable b))"

lemma measure_kernel_measures:
  assumes H: "digest_ok H" and ok: "kernel_ok fs cf kf" and s: "length (mr s) = 32"
  shows "measure_kernel H fs st kf cf s = measures_pcr H 4 (case kf of None \<Rightarrow> []
        | Some k \<Rightarrow> [(''EV_EFI_BOOT_SERVICES_APPLICATION'',
            H sha256 (authenticode_stream (the (kernel_image fs cf k))), basename k)]) s"
proof (cases kf)
  case (Some k)
  with ok obtain b where b: "kernel_image fs cf k = Some b" "measurable b"
    by (auto simp: kernel_ok_def split: option.splits)
  from b(1) obtain b0 where "fs k = Some b0" "prepare_kernel fs cf b0 = Inr b"
    by (auto simp: kernel_image_def split: option.splits sum.splits)
  with Some b H s show ?thesis
    by (simp add: measure_kernel_def LoadPeImage_def MeasurePeImage_measurable log_and_extend_measures)
qed (simp add: measure_kernel_def)

lemma calculate_pcr4_aux:
  assumes H: "digest_ok H" and bl: "\<And>b. b \<in> set bls \<Longrightarrow> image_ok fs b" and k: "kernel_ok fs cf kf"
  shows "calculate_pcr4 H fs st kf cf (Some (map Some bls)) s
    = measures_pcr H 4 (pcr4_events H fs kf cf bls) (reset s)"
proof -
  have step: "measure_bootloader H fs st (Some f) s
      = measures_pcr H 4 [image_event H fs ''EV_EFI_BOOT_SERVICES_APPLICATION'' f] s"
    if "f \<in> set bls" "length (mr s) = EVP_MD_size sha256" for f and s :: srtm_state
  proof -
    from bl [OF that(1)] obtain b where b: "fs f = Some b" "measurable b"
      by (auto simp: image_ok_def split: option.splits)
    show ?thesis using that(2) H
      by (simp add: measure_bootloader_def LoadPeImage_def b MeasurePeImage_measurable [OF b(2)]
          log_and_extend_measures image_event_def)
  qed
  have loop: "fold_res (measure_bootloader H fs st) (map Some bls) s
      = fold_res (\<lambda>f. measure_bootloader H fs st (Some f)) bls s" for s
    by (induction bls arbitrary: s) (auto intro: and_then_cong)
  have tail: "and_then (measure_kernel H fs st kf cf s) (\<lambda>s.
       and_then (measure_action H 4 ''Calling EFI Application from Boot Option'' s) (measure_separator H 4))
     = measures_pcr H 4 (drop (length bls) (pcr4_events H fs kf cf bls)) s"
    if s: "length (mr s) = 32" for s :: srtm_state
    unfolding measure_kernel_measures [OF H k s]
    by (subst and_then_measures [OF H, where ys = "[action_event H ''Calling EFI Application from Boot Option'', separator_event H]"])
      (use s in \<open>simp_all add: pcr4_events_def measure_action_measures [OF H] separator_tail [OF H]\<close>)
  have "calculate_pcr4 H fs st kf cf (Some (map Some bls)) s
      = and_then (measures_pcr H 4 (map (image_event H fs ''EV_EFI_BOOT_SERVICES_APPLICATION'') bls) (reset s))
          (\<lambda>s. and_then (measure_kernel H fs st kf cf s) (\<lambda>s.
            and_then (measure_action H 4 ''Calling EFI Application from Boot Option'' s) (measure_separator H 4)))"
    unfolding calculate_pcr4_def by (simp add: loop fold_res_measures [OF H step])
  also have "\<dots> = measures_pcr H 4 (pcr4_events H fs kf cf bls) (reset s)"
    by (subst and_then_measures [OF H _ tail]) (simp_all add: pcr4_events_def)
  finally show ?thesis .
qed

text \<open>
  C20. PCR 4 measures the Authenticode digests of the boot loaders and of the kernel as the
  boot loader leaves it in memory, the action and the separator; for measurable images the
  log and the register agree.
\<close>

theorem calculate_pcr4_measures:
  assumes H: "digest_ok H" and bl: "\<And>b. b \<in> set bls \<Longrightarrow> image_ok fs b" and k: "kernel_ok fs cf kf"
  shows "calculate_pcr4 H fs st kf cf (Some (map Some bls)) s
    = measures_pcr H 4 (pcr4_events H fs kf cf bls) (reset s)"
  by (rule calculate_pcr4_aux [OF assms])

theorem calculate_pcr4_measures_witness:
  "calculate_pcr4 sum_digest [''shim.efi'' \<mapsto> sample_signed, ''k'' \<mapsto> sample_unsigned] False (Some ''k'') None
      (Some (map Some [''shim.efi''])) init_state
   = measures_pcr sum_digest 4 (pcr4_events sum_digest [''shim.efi'' \<mapsto> sample_signed, ''k'' \<mapsto> sample_unsigned]
       (Some ''k'') None [''shim.efi'']) (reset init_state)"
  by (rule calculate_pcr4_measures [OF sum_digest_ok])
    (auto simp: image_ok_def kernel_ok_def kernel_image_def prepare_kernel_def sample_signed_measurable)

text \<open>
  Fact. A boot loader that is not a valid PE image is not reported: the code logs and extends
  the zero digest for it and then frees the image buffer twice.
\<close>

theorem calculate_pcr4_invalid_bootloader:
  assumes "digest_ok H" and "fs f = Some b" and "MeasurePeImage H EVP_sha256 st b = Inl (Fail n)"
    and "length (log (evlog s)) = MAX_PCRS"
  shows "calculate_pcr4 H fs st kf cf (Some (Some f # rest)) s = Inl OutOfBounds"
proof -
  have "\<exists>s'. pcr_add H 4 ''EV_EFI_BOOT_SERVICES_APPLICATION'' (zeros 32) (basename f) (reset s) = Inr s'"
  proof -
    obtain l where "srtm_evlog_add (evlog s) 4 ''EV_EFI_BOOT_SERVICES_APPLICATION'' (zeros 32) (basename f) = Inr l"
      using srtm.add_total [of "evlog s" 4 "zeros 32"] assms(4) by (auto simp: srtm_wf_def MAX_PCRS_def)
    then show ?thesis
      using assms(1) by (simp add: log_and_extend_def hash_extend_is_extend_aux [where md = EVP_sha256, simplified])
  qed
  with assms(2,3) show ?thesis
    by (auto simp: calculate_pcr4_def measure_bootloader_def LoadPeImage_def)
qed

theorem calculate_pcr4_invalid_bootloader_witness:
  "calculate_pcr4 sum_digest [''b'' \<mapsto> []] False None None (Some [Some ''b'']) init_state = Inl OutOfBounds"
  by (rule calculate_pcr4_invalid_bootloader [OF sum_digest_ok, where b = "[]" and n = 3])
    (simp_all add: MeasurePeImage_empty init_state_def empty_log_def)

section \<open>PCR 5\<close>

lemma srtm_add_ok:
  assumes "srtm_wf l" and "i < MAX_PCRS" and "length h = 32"
  shows "\<exists>l'. srtm_evlog_add l i n h d = Inr l' \<and> srtm_wf l' \<and> srtm_log_entry l' = srtm_log_entry l
    \<and> slot_text l' i = slot_text l i @ srtm_log_entry l i n h d"
proof -
  obtain l' where l': "srtm_evlog_add l i n h d = Inr l'"
    using srtm.add_total [OF assms(1,2), of h] assms(3) by auto
  with srtm.add_wf [OF assms(1) l'] srtm.add_text [OF assms(1) l'] srtm.add_entry [OF assms(1) l']
  show ?thesis by blast
qed

definition entries :: "eventlog_t \<Rightarrow> nat \<Rightarrow> event list \<Rightarrow> string" where
  "entries l i evs = concat (map (\<lambda>(n, h, d). srtm_log_entry l i n h d) evs)"

abbreviation exit_invocation :: string where "exit_invocation \<equiv> ''Exit Boot Services Invocation''"
abbreviation exit_success :: string where "exit_success \<equiv> ''Exit Boot Services Returned with Success''"

definition gpt_event :: "digest \<Rightarrow> byte list \<Rightarrow> event" where
  "gpt_event H g = (''EV_EFI_GPT_EVENT'', H sha256 g, gpt_text1 g @ gpt_text3 g)"

text \<open>
  C21. PCR 5 with a partition table: the register is extended in the order partition table,
  separator, actions, but the event log lists the separator before the partition table, so a
  verifier that replays the emitted log computes the replay of another order.
\<close>

theorem calculate_pcr5_order:
  assumes H: "digest_ok H" and wf: "srtm_wf (evlog s)" and b0: "length buf0 = BUF_SIZE"
    and f: "fs f = Some g" and g: "92 \<le> length g" "0 \<in> set g" "length (gpt_signature g) \<le> 8"
  shows "\<exists>s'. calculate_pcr5 H fs buf0 (Some f) s = Inr s'
    \<and> mr s' = replay H sha256 (zeros 32) [H sha256 g, H sha256 (zeros 4),
         H sha256 (bytes_of exit_invocation), H sha256 (bytes_of exit_success)]
    \<and> slot_text (evlog s') 5 = slot_text (evlog s) 5
         @ entries (evlog s) 5 [separator_event H, gpt_event H g,
             action_event H exit_invocation, action_event H exit_success]"
proof -
  obtain buf where buf: "write_gpt_header buf0 g = Inr buf" "c_string buf = gpt_text1 g @ gpt_text3 g"
    using write_gpt_header_text_aux [OF b0 g] by blast
  have ix: "5 < MAX_PCRS" by (simp add: MAX_PCRS_def)
  note ok = srtm_add_ok [OF _ ix length_digest [OF H, of sha256, simplified]]
  note sep = separator_event_def and act = action_event_def
  obtain l1 where l1: "srtm_evlog_add (evlog s) 5 ''EV_SEPARATOR'' (H sha256 (zeros 4)) ''HASH(00000000)'' = Inr l1"
    "srtm_wf l1" "srtm_log_entry l1 = srtm_log_entry (evlog s)"
    "slot_text l1 5 = slot_text (evlog s) 5 @ entries (evlog s) 5 [separator_event H]"
    using ok [OF wf, of "''EV_SEPARATOR''" "zeros 4" "''HASH(00000000)''"] by (auto simp: entries_def sep)
  obtain l2 where l2: "srtm_evlog_add l1 5 ''EV_EFI_GPT_EVENT'' (H sha256 g) (gpt_text1 g @ gpt_text3 g) = Inr l2"
    "srtm_wf l2" "srtm_log_entry l2 = srtm_log_entry (evlog s)"
    "slot_text l2 5 = slot_text l1 5 @ entries (evlog s) 5 [gpt_event H g]"
    using ok [OF l1(2), of "''EV_EFI_GPT_EVENT''" g "gpt_text1 g @ gpt_text3 g"] l1(3)
    by (auto simp: entries_def gpt_event_def)
  obtain l3 where l3: "srtm_evlog_add l2 5 ''EV_EFI_ACTION'' (H sha256 (bytes_of exit_invocation))
      (snd (snd (action_event H exit_invocation))) = Inr l3"
    "srtm_wf l3" "srtm_log_entry l3 = srtm_log_entry (evlog s)"
    "slot_text l3 5 = slot_text l2 5 @ entries (evlog s) 5 [action_event H exit_invocation]"
    using ok [OF l2(2), of "''EV_EFI_ACTION''" "bytes_of exit_invocation" "snd (snd (action_event H exit_invocation))"] l2(3)
    by (auto simp: entries_def act simp del: bytes_of_Cons)
  obtain l4 where l4: "srtm_evlog_add l3 5 ''EV_EFI_ACTION'' (H sha256 (bytes_of exit_success))
      (snd (snd (action_event H exit_success))) = Inr l4"
    "slot_text l4 5 = slot_text l3 5 @ entries (evlog s) 5 [action_event H exit_success]"
    using ok [OF l3(2), of "''EV_EFI_ACTION''" "bytes_of exit_success" "snd (snd (action_event H exit_success))"] l3(3)
    by (auto simp: entries_def act simp del: bytes_of_Cons)
  have hb: "hash_buf H sha256 x (length x) = Inr (H sha256 x)" "hash_buf H sha256 (bytes_of a) (length a) = Inr (H sha256 (bytes_of a))"
    "hash_buf H sha256 (zeros 4) 4 = Inr (H sha256 (zeros 4))" for x a
    by (simp_all add: hash_buf_def)
  have he: "hash_extend H sha256 m (H sha256 x) (EVP_MD_size sha256) = Inr (Hash.extend H sha256 m (H sha256 x))"
    if "length m = 32" for m x
    using that H by (intro hash_extend_is_extend_aux) simp_all
  let ?m = "replay H sha256 (zeros 32) [H sha256 g, H sha256 (zeros 4),
         H sha256 (bytes_of exit_invocation), H sha256 (bytes_of exit_success)]"
  have "calculate_pcr5 H fs buf0 (Some f) s = Inr \<lparr>mr = ?m, evlog = l4\<rparr>"
    unfolding calculate_pcr5_def Let_def hb and_then_simps log_only_def extend_only_def log_and_extend_def
      option.case f read_file_def reset_mr l1(1)
    using g(1) H
    by (simp add: hb buf l2(1) l3(1) l4(1) he [simplified] reset_def del: bytes_of_Cons)
  then show ?thesis using l4(2) l3(4) l2(4) l1(4) by (simp add: entries_def)
qed

theorem calculate_pcr5_order_witness:
  "\<exists>s'. calculate_pcr5 sum_digest [''gpt'' \<mapsto> sample_gpt] (replicate 1024 CHR 0xFF) (Some ''gpt'') init_state = Inr s'
    \<and> mr s' = replay sum_digest sha256 (zeros 32) [sum_digest sha256 sample_gpt, sum_digest sha256 (zeros 4),
         sum_digest sha256 (bytes_of exit_invocation), sum_digest sha256 (bytes_of exit_success)]
    \<and> slot_text (evlog s') 5 = entries (evlog init_state) 5 [separator_event sum_digest, gpt_event sum_digest sample_gpt,
             action_event sum_digest exit_invocation, action_event sum_digest exit_success]"
proof -
  have "srtm_wf (evlog init_state)" "slot_text (evlog init_state) 5 = []" by (simp_all add: init_state_def)
  then show ?thesis
    using calculate_pcr5_order [OF sum_digest_ok, of init_state "replicate 1024 CHR 0xFF"
        "[''gpt'' \<mapsto> sample_gpt]" "''gpt''" sample_gpt] sample_gpt_facts
    by (simp add: BUF_SIZE_def del: bytes_of_Cons)
qed

section \<open>PCR 7\<close>

definition pcr7_events ::
  "digest \<Rightarrow> filesys \<Rightarrow> string option \<Rightarrow> string option \<Rightarrow> string option \<Rightarrow> string option \<Rightarrow> string option
    \<Rightarrow> string option \<Rightarrow> event list" where
  "pcr7_events H fs sbat_level secure_boot pk kek db dbx =
     secure_boot_events H sha256 fs secure_boot pk kek db dbx @ [separator_event H]
     @ (case sbat_level of None \<Rightarrow> [] | Some level \<Rightarrow> [variable_event H sha256 fs (sbat_variable level)])"

lemma calculate_pcr7_aux:
  assumes H: "digest_ok H" and files: "list_all (var_file_ok fs) [secure_boot, pk, kek, db, dbx]"
  shows "calculate_pcr7 H fs sbat secure_boot pk kek db dbx s
    = measures_pcr H 7 (pcr7_events H fs sbat secure_boot pk kek db dbx) (reset s)"
proof -
  have sb: "measure_variable H srtm_evlog_add sha256 7 fs (sbat_variable level) s'
      = measures_pcr H 7 [variable_event H sha256 fs (sbat_variable level)] s'"
    if "length (mr s') = 32" for level and s' :: srtm_state
    using that by (intro measure_variable_measures_aux [OF H])
      (auto simp: variable_ok_def sbat_variable_def intro!: exI [of _ "''SbatLevel''"])
  have tail: "and_then (measure_separator H 7 s') (\<lambda>s. case sbat of None \<Rightarrow> Inr s
       | Some level \<Rightarrow> fail_minus1 (measure_variable H srtm_evlog_add sha256 7 fs (sbat_variable level) s))
    = measures_pcr H 7 ([separator_event H] @ (case sbat of None \<Rightarrow> []
        | Some level \<Rightarrow> [variable_event H sha256 fs (sbat_variable level)])) s'"
    if s': "length (mr s') = EVP_MD_size sha256" for s' :: srtm_state
    unfolding measure_separator_measures [OF H s' [simplified]]
    by (rule and_then_measures [OF H s']) (auto simp: sb split: option.splits)
  show ?thesis
    unfolding calculate_pcr7_def pcr7_events_def
      measure_secure_boot_variables_measures [OF H files, of "reset s" sha256, simplified] fail_minus1_measures
    by (rule and_then_measures [OF H _ tail]) simp_all
qed

text \<open>
  C22. PCR 7 measures the five secure-boot variables in the fixed order SecureBoot, PK, KEK,
  db, dbx, the separator and, if given, the SBAT level as an authority event.
\<close>

theorem calculate_pcr7_measures:
  assumes H: "digest_ok H" and files: "list_all (var_file_ok fs) [secure_boot, pk, kek, db, dbx]"
  shows "calculate_pcr7 H fs sbat secure_boot pk kek db dbx s
    = measures_pcr H 7 (pcr7_events H fs sbat secure_boot pk kek db dbx) (reset s)"
  by (rule calculate_pcr7_aux [OF assms])

theorem calculate_pcr7_measures_witness:
  "calculate_pcr7 sum_digest [''db.var'' \<mapsto> [7, 0, 0, 0, 1, 2]] (Some ''sbat,1'') None None None (Some ''db.var'') None init_state
   = measures_pcr sum_digest 7
       (pcr7_events sum_digest [''db.var'' \<mapsto> [7, 0, 0, 0, 1, 2]] (Some ''sbat,1'') None None None (Some ''db.var'') None)
       (reset init_state)"
  by (rule calculate_pcr7_measures [OF sum_digest_ok]) (simp add: var_file_ok_def)

section \<open>PCR 8\<close>

definition pcr8_events :: "digest \<Rightarrow> byte list \<Rightarrow> event list" where
  "pcr8_events H cmds =
     map (\<lambda>cmd. (''EV_IPL'', H sha256 cmd, chars cmd)) (strtok_all (\<lambda>c. c = 0x0A) cmds)"

text \<open>
  Fact. PCR 8 measures the non-empty lines of the boot loader command file, one event each,
  provided the memory behind the file buffer happens to start with a zero byte; without any
  zero byte behind it the function reads out of bounds.
\<close>

theorem calculate_pcr8_measures:
  assumes H: "digest_ok H" and "fs f = Some cmds" and "0 \<notin> set cmds"
  shows "calculate_pcr8 H fs (0 # slack) (Some f) s = measures_pcr H 8 (pcr8_events H cmds) (reset s)
    \<and> calculate_pcr8 H fs [] (Some f) s = Inl OutOfBounds"
proof -
  have c: "cstr (cmds @ 0 # slack) = cmds"
    using assms(3) unfolding cstr_def by (subst takeWhile_append2) auto
  have step: "and_then (hash_buf H sha256 cmd (length cmd)) (\<lambda>h. pcr_add H 8 ''EV_IPL'' h (chars cmd) s)
      = measures_pcr H 8 [(''EV_IPL'', H sha256 cmd, chars cmd)] s"
    if "length (mr s) = EVP_MD_size sha256" for cmd and s :: srtm_state
    using that H by (simp add: hash_buf_def log_and_extend_measures)
  have "fold_res (\<lambda>cmd s. and_then (hash_buf H sha256 cmd (length cmd)) (\<lambda>h. pcr_add H 8 ''EV_IPL'' h (chars cmd) s))
      (strtok_all (\<lambda>c. c = 0x0A) cmds) (reset s) = measures_pcr H 8 (pcr8_events H cmds) (reset s)"
    unfolding pcr8_events_def by (rule fold_res_measures [OF H step]) simp_all
  then show ?thesis using assms(2,3) by (simp add: calculate_pcr8_def read_file_def c)
qed

theorem calculate_pcr8_measures_witness:
  "calculate_pcr8 sum_digest [''grub'' \<mapsto> [0x61, 0x0A, 0x0A, 0x62]] [0, 1] (Some ''grub'') init_state
   = measures_pcr sum_digest 8 [(''EV_IPL'', sum_digest sha256 [0x61], chars [0x61]), (''EV_IPL'', sum_digest sha256 [0x62], chars [0x62])]
       (reset init_state)"
proof -
  have e: "pcr8_events sum_digest [0x61, 0x0A, 0x0A, 0x62]
      = [(''EV_IPL'', sum_digest sha256 [0x61], chars [0x61]), (''EV_IPL'', sum_digest sha256 [0x62], chars [0x62])]"
    by (simp add: pcr8_events_def strtok_all_def)
  show ?thesis
    using calculate_pcr8_measures [OF sum_digest_ok, of "[''grub'' \<mapsto> [0x61, 0x0A, 0x0A, 0x62]]" "''grub''"
        "[0x61, 0x0A, 0x0A, 0x62]" "[1]" init_state, unfolded e] by simp
qed

section \<open>PCR 9\<close>

definition cmdline_bytes :: "filesys \<Rightarrow> string \<Rightarrow> string option \<Rightarrow> byte list" where
  "cmdline_bytes fs f initrd =
     the (fs f) @ (case initrd of None \<Rightarrow> [] | Some _ \<Rightarrow> bytes_of '' initrd=initrd'')"

definition pcr9_events ::
  "digest \<Rightarrow> tree \<Rightarrow> nat \<Rightarrow> string option \<Rightarrow> nat \<Rightarrow> string option \<Rightarrow> string list option \<Rightarrow> event list" where
  "pcr9_events H T n cmdline tz initrd paths =
     (case paths of None \<Rightarrow> [] | Some ps \<Rightarrow> map (file_event H (contents T)) (concat (map (path_files T n) ps)))
     @ (case cmdline of None \<Rightarrow> [] | Some f \<Rightarrow>
         [(''EV_EVENT_TAG'',
           H sha256 (char16_bytes (map scast (cmdline_bytes (contents T) f initrd) @ replicate tz 0)),
           chars (cstr (cmdline_bytes (contents T) f initrd @ [0])))])
     @ (case initrd of None \<Rightarrow> [] | Some f \<Rightarrow> [(''EV_EVENT_TAG'', H sha256 (the (contents T f)), f)])"

lemma calculate_pcr9_aux:
  assumes H: "digest_ok H" and paths: "\<And>ps. paths = Some ps \<Longrightarrow> list_all (path_ok T n) ps"
    and cmdline: "\<And>f. cmdline = Some f \<Longrightarrow> contents T f \<noteq> None"
    and initrd: "\<And>f. initrd = Some f \<Longrightarrow> contents T f \<noteq> None"
  shows "calculate_pcr9 H T n cmdline tz initrd paths s
    = measures_pcr H 9 (pcr9_events H T n cmdline tz initrd paths) (reset s)"
proof -
  let ?p = "case paths of None \<Rightarrow> [] | Some ps \<Rightarrow> map (file_event H (contents T)) (concat (map (path_files T n) ps))"
  let ?i = "case initrd of None \<Rightarrow> [] | Some f \<Rightarrow> [(''EV_EVENT_TAG'', H sha256 (the (contents T f)), f)]"
  let ?c = "case cmdline of None \<Rightarrow> [] | Some f \<Rightarrow>
         [(''EV_EVENT_TAG'',
           H sha256 (char16_bytes (map scast (cmdline_bytes (contents T) f initrd) @ replicate tz 0)),
           chars (cstr (cmdline_bytes (contents T) f initrd @ [0])))]"
  have p: "(case paths of None \<Rightarrow> Inr (reset s)
       | Some ps \<Rightarrow> and_then (calculate_paths H T n ps (reset s)) (\<lambda>(ret, s).
           if ret \<noteq> 0 then Inl (Fail ret) else Inr s)) = measures_pcr H 9 ?p (reset s)"
  proof (cases paths)
    case (Some ps)
    with calculate_paths_measures_aux [OF H _ paths [OF Some], of "reset s"] show ?thesis
      by (simp add: and_then_assoc finish_def [abs_def])
  qed simp
  have i: "(case initrd of None \<Rightarrow> Inr s
     | Some f \<Rightarrow> and_then (read_file (contents T) f) (\<lambda>buf.
         and_then (hash_buf H sha256 buf (length buf)) (\<lambda>h. pcr_add H 9 ''EV_EVENT_TAG'' h f s)))
     = measures_pcr H 9 ?i s" if "length (mr s) = EVP_MD_size sha256" for s :: srtm_state
    using that initrd H by (auto simp: read_file_def hash_buf_def log_and_extend_measures split: option.splits)
  have c: "(case cmdline of None \<Rightarrow> Inr s
       | Some f \<Rightarrow> and_then (read_file (contents T) f) (\<lambda>buf.
           let buf = (case initrd of None \<Rightarrow> buf | Some _ \<Rightarrow> buf @ bytes_of '' initrd=initrd'');
               cmdline_str = chars (cstr (buf @ [0])) in
           and_then (convert_to_char16 buf (length buf) tz) (\<lambda>(wcmdline, cmdline_len).
           and_then (hash_buf H sha256 (char16_bytes wcmdline) cmdline_len) (\<lambda>h.
             pcr_add H 9 ''EV_EVENT_TAG'' h cmdline_str s))))
     = measures_pcr H 9 ?c s" if "length (mr s) = EVP_MD_size sha256" for s :: srtm_state
  proof (cases cmdline)
    case (Some f)
    then obtain b where b: "contents T f = Some b" using cmdline by blast
    let ?b = "cmdline_bytes (contents T) f initrd"
    have e: "(case initrd of None \<Rightarrow> b | Some _ \<Rightarrow> b @ bytes_of '' initrd=initrd'') = ?b"
      by (auto simp: cmdline_bytes_def b split: option.splits)
    have w: "convert_to_char16 ?b (length ?b) tz
        = Inr (map scast ?b @ replicate tz 0, length ?b * 2 + tz * 2)"
      by (simp add: convert_to_char16_def)
    have h: "hash_buf H sha256 (char16_bytes (map scast ?b @ replicate tz 0)) (length ?b * 2 + tz * 2)
        = Inr (H sha256 (char16_bytes (map scast ?b @ replicate tz 0)))"
      by (simp add: hash_buf_def)
    show ?thesis
      unfolding Some option.case read_file_def b and_then_simps Let_def e w prod.case h
      using that H by (simp add: log_and_extend_measures)
  qed simp
  show ?thesis
    unfolding calculate_pcr9_def pcr9_events_def p
    by (rule and_then_measures [OF H _ ]) (simp_all only: c, auto intro!: and_then_measures [OF H] i)
qed

text \<open>
  C13. PCR 9 measures the files below the paths, then the kernel command line in UTF-16 with
  the requested trailing zeros (and \<^verbatim>\<open> initrd=initrd\<close> appended when a RAM disk is given), then
  the RAM disk; for readable inputs the register and the log agree.
\<close>

theorem calculate_pcr9_measures:
  assumes H: "digest_ok H" and paths: "\<And>ps. paths = Some ps \<Longrightarrow> list_all (path_ok T n) ps"
    and cmdline: "\<And>f. cmdline = Some f \<Longrightarrow> contents T f \<noteq> None"
    and initrd: "\<And>f. initrd = Some f \<Longrightarrow> contents T f \<noteq> None"
  shows "calculate_pcr9 H T n cmdline tz initrd paths s
    = measures_pcr H 9 (pcr9_events H T n cmdline tz initrd paths) (reset s)"
  by (rule calculate_pcr9_aux [OF assms])

theorem calculate_pcr9_measures_witness:
  "calculate_pcr9 sum_digest (sample_tree\<lparr>contents := [''cmd'' \<mapsto> [0x71], ''rd'' \<mapsto> [1], ''/m/a'' \<mapsto> [2], ''/m/d/b'' \<mapsto> [3]]\<rparr>) 2
     (Some ''cmd'') 1 (Some ''rd'') (Some [''/m'']) init_state
   = measures_pcr sum_digest 9
     (pcr9_events sum_digest (sample_tree\<lparr>contents := [''cmd'' \<mapsto> [0x71], ''rd'' \<mapsto> [1], ''/m/a'' \<mapsto> [2], ''/m/d/b'' \<mapsto> [3]]\<rparr>) 2
        (Some ''cmd'') 1 (Some ''rd'') (Some [''/m''])) (reset init_state)"
proof (rule calculate_pcr9_measures [OF sum_digest_ok])
  fix ps assume "Some [''/m''] = Some ps"
  then show "list_all (path_ok (sample_tree\<lparr>contents := [''cmd'' \<mapsto> [0x71], ''rd'' \<mapsto> [1], ''/m/a'' \<mapsto> [2], ''/m/d/b'' \<mapsto> [3]]\<rparr>) 2) ps"
    by (auto simp: path_ok_def path_files_def sample_tree_def numeral_2_eq_2 concat_path_new_def entry_is_dir_def)
qed simp_all

section \<open>PCR 0\<close>

lemma calculate_pcr0_aux:
  assumes H: "digest_ok H" and ovmf: "fs name = Some ovmf" "ovmf_main_volume ovmf fvc"
    and fv: "extract_lzma_fvmain_new lzdec garbage fvc base = Inr (Some fv)" and ok: "fvmain_ok fv"
    and dumps: "dump_ok disk (pei_volume fv) pei" "dump_ok disk (dxe_volume fv) dxe"
  shows "calculate_pcr0 H lzdec garbage base disk fs name pei dxe s
    = and_then (measures_pcr H 0 (pcr0_events H fv) (reset s))
        (\<lambda>s. Inr (s, dumped (dxe_volume fv) dxe (dumped (pei_volume fv) pei fs)))"
proof -
  let ?fs = "dumped (dxe_volume fv) dxe (dumped (pei_volume fv) pei fs)"
  define start where "start = le (take 8 (drop 32 ovmf))"
  define fvlen where "fvlen = le (take 8 (drop (start + 32) ovmf))"
  have o: "40 \<le> length ovmf" "start + 40 \<le> length ovmf" "length ovmf < 2 ^ 63" "start + fvlen \<le> length ovmf"
    "fvc = take fvlen (drop start ovmf)"
    using ovmf(2) by (simp_all add: ovmf_main_volume_def Let_def start_def fvlen_def)
  have rds: "rd64 ovmf 32 = Inr start" "rd64 ovmf (u64 (start + 32)) = Inr fvlen"
    "rd ovmf start fvlen = Inr fvc" "check (\<not> (start > length ovmf \<or> fvlen > length ovmf - start)) (Fail (-1)) = Inr ()"
  proof -
    show "rd64 ovmf 32 = Inr start" using o(1) by (simp add: rd64_def start_def)
    show "rd64 ovmf (u64 (start + 32)) = Inr fvlen" using o(2,3) by (simp add: rd64_def fvlen_def)
    show "rd ovmf start fvlen = Inr fvc" using o(4,5) by simp
    show "check (\<not> (start > length ovmf \<or> fvlen > length ovmf - start)) (Fail (-1)) = Inr ()"
      using o(2,4) by (simp add: check_Inr_iff)
  qed
  have k: "0xA8 \<le> length fv" "length fv < 2 ^ 63" "0x80 + pei_len fv \<le> length fv"
     "dxe_off fv + 40 \<le> length fv" "dxe_off fv + dxe_len fv \<le> length fv"
    using ok by (simp_all add: fvmain_ok_def)
  have r: "rd64 fv (0x80 + 32) = Inr (pei_len fv)" "u64 (pei_len fv + 0x90) = dxe_off fv"
    "rd64 fv (dxe_off fv + 32) = Inr (dxe_len fv)"
    using k by (simp_all add: rd64_def pei_len_def dxe_off_def dxe_len_def)
  have h: "hash_and_dump H disk sha256 (drop 0x80 fv) (pei_len fv) pei fs
      = Inr (H sha256 (pei_volume fv), dumped (pei_volume fv) pei fs)"
    "hash_and_dump H disk sha256 (drop (dxe_off fv) fv) (dxe_len fv) dxe fs'
      = Inr (H sha256 (dxe_volume fv), dumped (dxe_volume fv) dxe fs')" for fs'
    using k dumps unfolding pei_volume_def dxe_volume_def
    by (simp_all add: hash_and_dump_ok hash_buf_def)
  have crtm: "hash_buf H sha256 [0, 0] 2 = Inr (H sha256 [0, 0])" by (simp add: hash_buf_def)
  obtain e0 e1 e2 where ev: "pcr0_events H fv = [e0] @ [e1] @ [e2] @ [separator_event H]"
    "e0 = (''EV_S_CRTM_VERSION'', H sha256 [0, 0], ''CRTM Version String'')"
    "e1 = (''PEIFV'', H sha256 (pei_volume fv), ''OVMF UEFI PEI Firmware Volume'')"
    "e2 = (''DXEFV'', H sha256 (dxe_volume fv), ''OVMF UEFI DXE Firmware Volume'')"
    by (simp add: pcr0_events_def)
  have add: "pcr_add H 0 (fst e) (fst (snd e)) (snd (snd e)) s = measures_pcr H 0 [e] s"
    if "length (mr s) = 32" "e \<in> {e0, e1, e2}" for s e
    using that H by (auto simp: ev log_and_extend_measures)
  have len: "length (mr s') = 32" if "measures_pcr H 0 evs s = Inr s'" "length (mr s) = 32" for evs s s'
    using measures_length [OF that(1) H] that(2) by simp
  have adds: "pcr_add H 0 ''EV_S_CRTM_VERSION'' (H sha256 [0, 0]) ''CRTM Version String'' s = measures_pcr H 0 [e0] s"
    "pcr_add H 0 ''PEIFV'' (H sha256 (pei_volume fv)) ''OVMF UEFI PEI Firmware Volume'' s = measures_pcr H 0 [e1] s"
    "pcr_add H 0 ''DXEFV'' (H sha256 (dxe_volume fv)) ''OVMF UEFI DXE Firmware Volume'' s = measures_pcr H 0 [e2] s"
    if "length (mr s) = 32" for s
    using add [OF that, of e0] add [OF that, of e1] add [OF that, of e2] by (simp_all add: ev(2-4))
  have run: "calculate_pcr0 H lzdec garbage base disk fs name pei dxe s
      = and_then (measures_pcr H 0 [e0] (reset s)) (\<lambda>s.
        and_then (pcr_add H 0 ''PEIFV'' (H sha256 (pei_volume fv)) ''OVMF UEFI PEI Firmware Volume'' s) (\<lambda>s.
        and_then (pcr_add H 0 ''DXEFV'' (H sha256 (dxe_volume fv)) ''OVMF UEFI DXE Firmware Volume'' s) (\<lambda>s.
        and_then (measure_separator H 0 s) (\<lambda>s. Inr (s, ?fs)))))"
    unfolding calculate_pcr0_def crtm and_then_simps adds(1) [OF reset_mr(1)] read_file_def ovmf(1) option.case rds
      fv r h prod.case Let_def by (rule refl)
  also have "\<dots> = and_then (measures_pcr H 0 (pcr0_events H fv) (reset s)) (\<lambda>s. Inr (s, ?fs))"
  proof (cases "measures_pcr H 0 [e0] (reset s)")
    case s1: (Inr s1)
    note l1 = len [OF s1 reset_mr(1)]
    show ?thesis
    proof (cases "measures_pcr H 0 [e1] s1")
      case s2: (Inr s2)
      note l2 = len [OF s2 l1]
      show ?thesis
      proof (cases "measures_pcr H 0 [e2] s2")
        case s3: (Inr s3)
        show ?thesis unfolding ev(1) measures_append s1 and_then_simps adds(2) [OF l1] s2 adds(3) [OF l2] s3
            measure_separator_measures [OF H len [OF s3 l2]] ..
      qed (simp only: ev(1) measures_append s1 and_then_simps adds(2) [OF l1] s2 adds(3) [OF l2])
    qed (simp only: ev(1) measures_append s1 and_then_simps adds(2) [OF l1])
  qed (simp only: ev(1) measures_append and_then_simps)
  finally show ?thesis .
qed

text \<open>
  C19. PCR 0 measures the firmware version, the PEI and the DXE firmware volume inside the
  decompressed main volume of the firmware image, and the separator: whenever the main volume
  is extracted, the two volumes lie inside it and the dumps that are asked for can be written,
  register and log agree and each dump holds the volume that was measured.
\<close>

theorem calculate_pcr0_measures:
  assumes H: "digest_ok H" and ovmf: "fs name = Some ovmf" "ovmf_main_volume ovmf fvc"
    and fv: "extract_lzma_fvmain_new lzdec garbage fvc base = Inr (Some fv)" and ok: "fvmain_ok fv"
    and dumps: "dump_ok disk (pei_volume fv) pei" "dump_ok disk (dxe_volume fv) dxe"
  shows "calculate_pcr0 H lzdec garbage base disk fs name pei dxe s
    = and_then (measures_pcr H 0 (pcr0_events H fv) (reset s))
        (\<lambda>s. Inr (s, dumped (dxe_volume fv) dxe (dumped (pei_volume fv) pei fs)))"
  using assms by (rule calculate_pcr0_aux)

text \<open>A firmware image with one LZMA section, whose decoder returns \<open>sample_fvmain\<close>.\<close>

definition sample_fvmain :: "byte list" where
  "sample_fvmain = replicate 160 0 @ to_le 8 8 @ replicate 16 0 @ to_le 8 40"

definition sample_compact :: "byte list" where
  "sample_compact = replicate 32 0 @ to_le 8 117 @ to_le 4 EFI_FVH_SIGNATURE @ replicate 4 0
     @ to_le 2 56 @ replicate 6 0 @ replicate 18 0 @ [0x0B, 0, 61, 0, 0, 0]
     @ [37, 0, 0, 2] @ guid_bytes lzma_decrompress_guid @ [24, 0, 0, 0] @ replicate 5 0 @ to_le 8 192"

definition sample_ovmf :: "byte list" where
  "sample_ovmf = replicate 32 0 @ to_le 8 40 @ sample_compact"

lemma sample_guid_bytes: "guid_bytes lzma_decrompress_guid =
  [0x98, 0x58, 0x4E, 0xEE, 0x14, 0x39, 0x59, 0x42, 0x9D, 0x6E, 0xDC, 0x7B, 0xD7, 0x94, 0x03, 0xCF]"
  by (simp add: guid_bytes_def lzma_decrompress_guid_def)

lemma sample_compact_length: "length sample_compact = 117"
  by (simp add: sample_compact_def sample_guid_bytes)

lemma sample_extract:
  "extract_lzma_fvmain_new (\<lambda>p src d. (True, sample_fvmain)) (\<lambda>n. replicate n 0) sample_compact 0
     = Inr (Some sample_fvmain)"
proof -
  have al: "align_up 8 0 56 = 56" "align_up 4 0 80 = 80" by (simp_all add: align_up_aligned)
  have f: "rd32 sample_compact 40 = Inr EFI_FVH_SIGNATURE" "rd64 sample_compact 32 = Inr 117"
    "rd16 sample_compact 48 = Inr 56" "rd sample_compact 76 3 = Inr [61, 0, 0]"
    "rd8 sample_compact 74 = Inr 0x0B" "rd sample_compact 80 3 = Inr [37, 0, 0]" "rd8 sample_compact 83 = Inr 2"
    "rd sample_compact 84 16 = Inr (guid_bytes lzma_decrompress_guid)" "rd16 sample_compact 100 = Inr 24"
    "rd sample_compact 104 13 = Inr (replicate 5 0 @ to_le 8 192)"
    by (simp_all add: sample_compact_def sample_guid_bytes rd16_def rd32_def rd64_def rd8_def rd_def EFI_FVH_SIGNATURE_def)
  have "section_loop sample_compact 0 2 0 80 117 = Inr 80"
    by (simp add: section_loop.simps [of _ _ _ _ 80] al f)
  then have "FindFfsFileAndSection sample_compact 0 0x0B 2 = Inr 80"
    by (simp add: FindFfsSectionInSections_def FindFfsSectionInstance_def
        FindFfsFileAndSection_def f file_loop.simps [of _ _ _ _ 56] al)
  moreover have "compare_guid lzma_decrompress_guid (guid_of_bytes (guid_bytes lzma_decrompress_guid))"
    by (simp add: compare_guid_eq guid_of_guid_bytes lzma_decrompress_guid_def)
  moreover have "LzmaUefiDecompressGetInfo (replicate 5 0 @ to_le 8 192) = Inr 192"
    by (simp add: LzmaUefiDecompressGetInfo_def GetDecodedSizeOfBuf_le LZMA_HEADER_SIZE_def LZMA_PROPS_SIZE_def)
  ultimately show ?thesis
    by (simp add: extract_lzma_fvmain_new_def f sub_small LzmaUefiDecompress_def
        EFI_FV_FILETYPE_FIRMWARE_VOLUME_IMAGE_def EFI_SECTION_GUID_DEFINED_def)
qed

theorem calculate_pcr0_measures_witness:
  "calculate_pcr0 sum_digest (\<lambda>p src d. (True, sample_fvmain)) (\<lambda>n. replicate n 0) 0
     (\<lambda>_. Some 100) [''OVMF.fd'' \<mapsto> sample_ovmf] ''OVMF.fd'' (Some ''pei'') (Some ''dxe'') init_state
   = and_then (measures_pcr sum_digest 0 (pcr0_events sum_digest sample_fvmain) (reset init_state))
       (\<lambda>s. Inr (s, dumped (dxe_volume sample_fvmain) (Some ''dxe'')
          (dumped (pei_volume sample_fvmain) (Some ''pei'') [''OVMF.fd'' \<mapsto> sample_ovmf])))"
proof (rule calculate_pcr0_measures [OF sum_digest_ok, where ovmf = sample_ovmf and fvc = sample_compact])
  have "take 8 (drop 32 sample_ovmf) = to_le 8 40" "drop 40 sample_ovmf = sample_compact"
    by (simp_all add: sample_ovmf_def)
  moreover have "take 8 (drop 72 sample_ovmf) = to_le 8 117"
    by (simp add: sample_ovmf_def sample_compact_def)
  ultimately show "ovmf_main_volume sample_ovmf sample_compact"
    by (simp add: ovmf_main_volume_def le_to_le_small sample_compact_length)
      (simp add: sample_ovmf_def sample_compact_length)
  show "fvmain_ok sample_fvmain"
    by (simp add: fvmain_ok_def sample_fvmain_def pei_len_def dxe_off_def dxe_len_def)
  show "dump_ok (\<lambda>_. Some 100) (pei_volume sample_fvmain) (Some ''pei'')"
    "dump_ok (\<lambda>_. Some 100) (dxe_volume sample_fvmain) (Some ''dxe'')"
    by (simp_all add: dump_ok_def pei_volume_def dxe_volume_def sample_fvmain_def pei_len_def dxe_off_def dxe_len_def)
qed (simp_all add: sample_extract)

end
