(* ===== verification/Mrtd.thy ===== *)
theory Mrtd
  imports Hash
begin

text \<open>
  \<^verbatim>\<open>src/calculate-tdx-mrs/mrtd.c\<close>: the measurement that the TDX module makes of the initial
  contents of a trust domain, computed from the firmware file. The TDVF metadata table at the
  end of the file lists sections; each page of a section is added (\<open>MEM.PAGE.ADD\<close>) and, for
  the sections marked so, its contents are extended in chunks of 256 bytes (\<open>MR.EXTEND\<close>).
  The digest buffer that the caller passes holds indeterminate bytes, \<open>digest0\<close>.
\<close>

section \<open>Constants and structures\<close>

definition OVMF_TABLE_FOOTER_GUID :: guid where
  "OVMF_TABLE_FOOTER_GUID = \<lparr>Data1 = 0x96b582de, Data2 = 0x1fb2, Data3 = 0x45f7,
     Data4 = [0xba, 0xea, 0xa3, 0x66, 0xc5, 0x5a, 0x08, 0x2d]\<rparr>"

definition OVMF_TABLE_TDX_METADATA_GUID :: guid where
  "OVMF_TABLE_TDX_METADATA_GUID = \<lparr>Data1 = 0xe47a6535, Data2 = 0x984a, Data3 = 0x4798,
     Data4 = [0x86, 0x5e, 0x46, 0x85, 0xa7, 0xbf, 0x8e, 0xc2]\<rparr>"

definition PAGE_SIZE :: nat where "PAGE_SIZE = 0x1000"
definition MRTD_EXTENSION_BUFFER_SIZE :: nat where "MRTD_EXTENSION_BUFFER_SIZE = 0x80"
definition TDH_MR_EXTEND_GRANULARITY :: nat where "TDH_MR_EXTEND_GRANULARITY = 0x100"
definition TDX_METADATA_SIGNATURE :: nat where "TDX_METADATA_SIGNATURE = 0x46564454"
definition TDX_METADATA_SECTION_TYPE_TDVF :: nat where "TDX_METADATA_SECTION_TYPE_TDVF = 1"
definition TDX_METADATA_SECTION_TYPE_TD_INFO :: nat where "TDX_METADATA_SECTION_TYPE_TD_INFO = 7"
definition TDX_METADATA_SECTION_TYPE_MAX :: nat where "TDX_METADATA_SECTION_TYPE_MAX = 9"

record tdx_metadata_descriptor_t =
  d_signature :: nat
  d_length :: nat
  d_version :: nat
  number_of_section_entry :: nat

record tdx_metadata_section_t =
  data_offset :: nat
  raw_data_size :: nat
  memory_address :: nat
  memory_data_size :: nat
  sec_type :: nat
  attributes :: "32 word"

text \<open>\<open>memcpy\<close> of the packed little-endian structures.\<close>

definition descriptor_of :: "byte list \<Rightarrow> tdx_metadata_descriptor_t" where
  "descriptor_of b = \<lparr>d_signature = le (take 4 b), d_length = le (take 4 (drop 4 b)),
     d_version = le (take 4 (drop 8 b)), number_of_section_entry = le (take 4 (drop 12 b))\<rparr>"

definition section_of :: "byte list \<Rightarrow> tdx_metadata_section_t" where
  "section_of b = \<lparr>data_offset = le (take 4 b), raw_data_size = le (take 4 (drop 4 b)),
     memory_address = le (take 8 (drop 8 b)), memory_data_size = le (take 8 (drop 16 b)),
     sec_type = le (take 4 (drop 24 b)), attributes = of_nat (le (take 4 (drop 28 b)))\<rparr>"

definition EXTENDMR :: "tdx_metadata_section_t \<Rightarrow> bool" where
  "EXTENDMR sec \<longleftrightarrow> attributes sec AND 0x1 \<noteq> 0"

definition NO_PAGE_ADD :: "tdx_metadata_section_t \<Rightarrow> bool" where
  "NO_PAGE_ADD sec \<longleftrightarrow> attributes sec AND 0x2 \<noteq> 0"

definition is_valid_descriptor :: "tdx_metadata_descriptor_t \<Rightarrow> bool" where
  "is_valid_descriptor d \<longleftrightarrow> d_signature d = TDX_METADATA_SIGNATURE \<and> d_version d = 1
     \<and> number_of_section_entry d \<noteq> 0"

section \<open>Locating the metadata\<close>

text \<open>
  The loop over the entries of the GUIDed table, from its end towards the start of the file;
  \<open>oto\<close> is \<open>ovmf_table_offset\<close>. An entry of length 0 leaves the state unchanged, so the loop
  does not end; an entry longer than \<open>oto\<close> makes the 64-bit offset wrap, and the next round
  reads far outside the file.
\<close>

function find_metadata :: "byte list \<Rightarrow> nat \<Rightarrow> nat \<Rightarrow> nat \<Rightarrow> nat res" where
  "find_metadata raw table_len oto count =
     (if count < table_len then
        and_then (rd raw (sub64 oto 16) 16) (\<lambda>guid_buf.
        and_then (rd16 raw (sub64 oto 18)) (\<lambda>len.
        if guid_buf = guid_bytes OVMF_TABLE_TDX_METADATA_GUID then
          and_then (rd32 raw (sub64 oto 22)) (\<lambda>back.
            Inr (sub64 (sub64 (length raw) back) 16))
        else if len = 0 then Inl Hangs
        else if oto < len then
          (if u16 (count + len) < table_len then Inl OutOfBounds else Inr 0)
        else find_metadata raw table_len (oto - len) (u16 (count + len))))
      else Inr 0)"
  by pat_completeness auto
termination by (relation "measure (\<lambda>(raw, tl, oto, c). oto)") auto

declare find_metadata.simps [simp del]

definition OVMF_TABLE_FOOTER_GUID_OFFSET :: nat where "OVMF_TABLE_FOOTER_GUID_OFFSET = 0x30"
definition TDVF_DESCRIPTOR_OFFSET :: nat where "TDVF_DESCRIPTOR_OFFSET = 0x20"

definition get_ovmf_metadata_offset :: "byte list \<Rightarrow> nat res" where
  "get_ovmf_metadata_offset raw =
     (let raw_image_size = length raw;
          table_footer_offset = sub64 raw_image_size OVMF_TABLE_FOOTER_GUID_OFFSET in
      and_then (check (\<not> u64 (table_footer_offset + 16) > raw_image_size) (Fail (-1))) (\<lambda>_.
      and_then (rd raw table_footer_offset 16) (\<lambda>footer_guid_buf.
      if footer_guid_buf = guid_bytes OVMF_TABLE_FOOTER_GUID then
        let ovmf_table_offset = sub64 (sub64 raw_image_size OVMF_TABLE_FOOTER_GUID_OFFSET) 2 in
        and_then (rd16 raw ovmf_table_offset) (\<lambda>l.
        let table_len = sub16 l 18 in
        find_metadata raw table_len ovmf_table_offset 0)
      else rd32 raw (sub64 (sub64 raw_image_size TDVF_DESCRIPTOR_OFFSET) 16))))"

text \<open>The part common to both measurements: the descriptor and the copied metadata.\<close>

definition load_metadata :: "byte list \<Rightarrow> (tdx_metadata_descriptor_t \<times> byte list) res" where
  "load_metadata raw =
     and_then (case get_ovmf_metadata_offset raw of Inl (Fail n) \<Rightarrow> Inl (Fail (-1)) | r \<Rightarrow> r) (\<lambda>metadata_offset.
     and_then (rd raw metadata_offset 32) (\<lambda>desc_buf.
     let descriptor = descriptor_of (drop 16 desc_buf) in
     and_then (check (is_valid_descriptor descriptor) (Fail (-1))) (\<lambda>_.
     and_then (rd raw (metadata_offset + 16) (d_length descriptor)) (\<lambda>metadata_buf.
       Inr (descriptor, metadata_buf)))))"

section \<open>The two TDX module calls\<close>

definition td_call_mem_page_add :: "nat \<Rightarrow> byte list" where
  "td_call_mem_page_add gpa =
     bytes_of ''MEM.PAGE.ADD'' @ replicate 4 0 @ to_le 8 gpa @ replicate 104 0"

definition td_call_mr_extend :: "nat \<Rightarrow> byte list \<Rightarrow> nat \<Rightarrow> byte list option res" where
  "td_call_mr_extend gpa raw off =
     (if u64 (off + 2 * MRTD_EXTENSION_BUFFER_SIZE) > length raw then Inr None
      else and_then (rd raw off MRTD_EXTENSION_BUFFER_SIZE) (\<lambda>buf1.
           and_then (rd raw (off + MRTD_EXTENSION_BUFFER_SIZE) MRTD_EXTENSION_BUFFER_SIZE) (\<lambda>buf2.
             Inr (Some ((bytes_of ''MR.EXTEND'' @ replicate 7 0 @ to_le 8 gpa @ replicate 104 0)
                        @ buf1 @ buf2)))))"

section \<open>Measuring the sections\<close>

text \<open>
  The hashing context is the list of bytes hashed so far; \<open>None\<close> is the jump to the label
  \<open>out\<close>, which leaves the function with the return code of the last call that succeeded.
\<close>

type_synonym ctx = "byte list option"

definition or_out :: "ctx \<Rightarrow> (byte list \<Rightarrow> ctx res) \<Rightarrow> ctx res" where
  "or_out c f = (case c of None \<Rightarrow> Inr None | Some x \<Rightarrow> f x)"

definition page_gpa :: "tdx_metadata_section_t \<Rightarrow> nat \<Rightarrow> nat" where
  "page_gpa sec iter = u64 (memory_address sec + iter * PAGE_SIZE)"

definition add_page :: "tdx_metadata_section_t \<Rightarrow> nat \<Rightarrow> ctx \<Rightarrow> ctx res" where
  "add_page sec iter c = or_out c (\<lambda>x. Inr (Some (x @ td_call_mem_page_add (page_gpa sec iter))))"

definition extend_chunk :: "byte list \<Rightarrow> tdx_metadata_section_t \<Rightarrow> nat \<Rightarrow> nat \<Rightarrow> ctx \<Rightarrow> ctx res" where
  "extend_chunk raw sec iter chunk_iter c = or_out c (\<lambda>x.
     and_then (td_call_mr_extend
         (u64 (memory_address sec + iter * PAGE_SIZE + chunk_iter * TDH_MR_EXTEND_GRANULARITY)) raw
         (u64 (data_offset sec + iter * PAGE_SIZE + chunk_iter * TDH_MR_EXTEND_GRANULARITY))) (\<lambda>b.
     case b of None \<Rightarrow> Inr None | Some buffer3_128 \<Rightarrow> Inr (Some (x @ buffer3_128))))"

definition extend_page :: "byte list \<Rightarrow> tdx_metadata_section_t \<Rightarrow> nat \<Rightarrow> ctx \<Rightarrow> ctx res" where
  "extend_page raw sec iter c =
     fold_res (extend_chunk raw sec iter) [0..<PAGE_SIZE div TDH_MR_EXTEND_GRANULARITY] c"

text \<open>The order of the calls depends on the QEMU version.\<close>

definition measure_section ::
  "string \<Rightarrow> byte list \<Rightarrow> tdx_metadata_section_t \<Rightarrow> ctx \<Rightarrow> ctx res" where
  "measure_section qemu_version raw sec c =
     (let nr_pages = memory_data_size sec div PAGE_SIZE in
      if qemu_version = ''9.2.0'' then
        fold_res (\<lambda>iter c.
          and_then (if \<not> NO_PAGE_ADD sec then add_page sec iter c else Inr c) (\<lambda>c.
          if EXTENDMR sec then extend_page raw sec iter c else Inr c)) [0..<nr_pages] c
      else if qemu_version = ''8.2.2'' then
        and_then (if \<not> NO_PAGE_ADD sec then fold_res (add_page sec) [0..<nr_pages] c else Inr c) (\<lambda>c.
        if EXTENDMR sec then fold_res (extend_page raw sec) [0..<nr_pages] c else Inr c)
      else Inr None)"

definition section_sane :: "tdx_metadata_section_t \<Rightarrow> bool" where
  "section_sane sec \<longleftrightarrow> memory_address sec mod PAGE_SIZE = 0
     \<and> \<not> (sec_type sec \<noteq> TDX_METADATA_SECTION_TYPE_TD_INFO
          \<and> (memory_address sec \<noteq> 0 \<or> memory_data_size sec \<noteq> 0)
          \<and> memory_data_size sec < raw_data_size sec)
     \<and> memory_data_size sec mod PAGE_SIZE = 0
     \<and> \<not> sec_type sec \<ge> TDX_METADATA_SECTION_TYPE_MAX"

fun measure_sections :: "string \<Rightarrow> byte list \<Rightarrow> byte list \<Rightarrow> nat \<Rightarrow> nat \<Rightarrow> ctx \<Rightarrow> ctx res" where
  "measure_sections ver raw metadata 0 desc_offset c = Inr c"
| "measure_sections ver raw metadata (Suc n) desc_offset c = or_out c (\<lambda>x.
     and_then (rd metadata desc_offset 32) (\<lambda>b.
     let sec = section_of b in
     if section_sane sec
     then and_then (measure_section ver raw sec c) (measure_sections ver raw metadata n (desc_offset + 32))
     else Inr None))"

text \<open>
  \<open>ret\<close> is 0 from the successful first call, so every jump to \<open>out\<close> returns success with
  the digest buffer as it was.
\<close>

definition measure_ovmf :: "digest \<Rightarrow> byte list \<Rightarrow> byte list \<Rightarrow> string \<Rightarrow> byte list res" where
  "measure_ovmf H digest0 raw qemu_version =
     and_then (load_metadata raw) (\<lambda>(descriptor, metadata_buf).
     and_then (measure_sections qemu_version raw metadata_buf
         (number_of_section_entry descriptor) 16 (Some [])) (\<lambda>c.
     case c of None \<Rightarrow> Inr digest0 | Some x \<Rightarrow> Inr (H EVP_sha384 x)))"

section \<open>The configuration volume\<close>

fun cfv_sections :: "digest \<Rightarrow> byte list \<Rightarrow> byte list \<Rightarrow> byte list \<Rightarrow> nat \<Rightarrow> nat \<Rightarrow> byte list res" where
  "cfv_sections H digest0 raw metadata 0 desc_offset = Inr digest0"
| "cfv_sections H digest0 raw metadata (Suc n) desc_offset =
     and_then (rd metadata desc_offset 32) (\<lambda>b.
     let sec = section_of b in
     if memory_address sec mod PAGE_SIZE \<noteq> 0 then Inr digest0
     else if memory_data_size sec mod PAGE_SIZE \<noteq> 0 then Inr digest0
     else if u32 (data_offset sec + raw_data_size sec) > length raw then Inr digest0
     else if sec_type sec \<noteq> TDX_METADATA_SECTION_TYPE_TDVF
     then cfv_sections H digest0 raw metadata n (desc_offset + 32)
     else hash_buf H EVP_sha384 (drop (data_offset sec) raw) (raw_data_size sec))"

definition measure_cfv :: "digest \<Rightarrow> byte list \<Rightarrow> byte list \<Rightarrow> byte list res" where
  "measure_cfv H digest0 raw =
     and_then (load_metadata raw) (\<lambda>(descriptor, metadata_buf).
       cfv_sections H digest0 raw metadata_buf (number_of_section_entry descriptor) 16)"

section \<open>Finding the metadata in the table\<close>

text \<open>
  The layout of the table: each entry is its data, the length of the entry and its GUID; the
  code walks the entries from the last to the first.
\<close>

type_synonym table_entry = "byte list \<times> guid"

definition entry_bytes :: "table_entry \<Rightarrow> byte list" where
  "entry_bytes e = fst e @ to_le 2 (length (fst e) + 18) @ guid_bytes (snd e)"

definition table_bytes :: "table_entry list \<Rightarrow> byte list" where
  "table_bytes es = concat (map entry_bytes (rev es))"

definition entry_ok :: "table_entry \<Rightarrow> bool" where
  "entry_ok e \<longleftrightarrow> length (fst e) + 18 < 2 ^ 16 \<and> length (Data4 (snd e)) = 8"

definition ovmf_image :: "byte list \<Rightarrow> table_entry list \<Rightarrow> byte list \<Rightarrow> byte list" where
  "ovmf_image pre es vec = pre @ table_bytes es @ to_le 2 (length (table_bytes es) + 18)
     @ guid_bytes OVMF_TABLE_FOOTER_GUID @ vec"

lemma table_bytes_Cons: "table_bytes (e # es) = table_bytes es @ entry_bytes e"
  by (simp add: table_bytes_def)

lemma length_entry [simp]: "entry_ok e \<Longrightarrow> length (entry_bytes e) = length (fst e) + 18"
  by (simp add: entry_bytes_def entry_ok_def length_guid_bytes)

lemma metadata_guid_ok [simp]: "length (Data4 OVMF_TABLE_TDX_METADATA_GUID) = 8"
  by (simp add: OVMF_TABLE_TDX_METADATA_GUID_def)

lemma footer_guid_ok [simp]: "length (Data4 OVMF_TABLE_FOOTER_GUID) = 8"
  by (simp add: OVMF_TABLE_FOOTER_GUID_def)

lemma guid_bytes_inject:
  "\<lbrakk>length (Data4 g) = 8; length (Data4 h) = 8; guid_bytes g = guid_bytes h\<rbrakk> \<Longrightarrow> g = h"
  by (metis guid_of_guid_bytes)

text \<open>The reads of one round of the loop.\<close>

lemma entry_reads:
  assumes "raw = xs @ entry_bytes e @ rest" and ok: "entry_ok e" and small: "length raw < 2 ^ 64"
    and oto: "oto = length xs + length (entry_bytes e)"
  shows "rd raw (sub64 oto 16) 16 = Inr (guid_bytes (snd e))"
    and "rd16 raw (sub64 oto 18) = Inr (length (fst e) + 18)"
    and "4 \<le> length (fst e) \<Longrightarrow> rd32 raw (sub64 oto 22) = Inr (le (drop (length (fst e) - 4) (fst e)))"
proof -
  have g: "length (guid_bytes (snd e)) = 16"
    using ok by (simp add: entry_ok_def length_guid_bytes)
  have oto': "oto = length xs + length (fst e) + 18" using oto ok by simp
  have lt: "oto < 2 ^ 64" using assms(1) small ok oto' by simp
  have s: "sub64 oto 16 = length (xs @ fst e @ to_le 2 (length (fst e) + 18))"
    "sub64 oto 18 = length (xs @ fst e)"
    using lt oto' by (simp_all add: sub_small)
  have raw: "raw = (xs @ fst e @ to_le 2 (length (fst e) + 18)) @ guid_bytes (snd e) @ rest"
    "raw = (xs @ fst e) @ to_le 2 (length (fst e) + 18) @ guid_bytes (snd e) @ rest"
    using assms(1) by (simp_all add: entry_bytes_def)
  show "rd raw (sub64 oto 16) 16 = Inr (guid_bytes (snd e))"
    by (subst raw(1), rule rd_append [OF s(1)]) (simp add: g)
  have "rd raw (sub64 oto 18) 2 = Inr (to_le 2 (length (fst e) + 18))"
    by (subst raw(2), rule rd_append [OF s(2)]) simp
  then show "rd16 raw (sub64 oto 18) = Inr (length (fst e) + 18)"
    using ok by (simp add: rd16_def le_to_le_small entry_ok_def)
  assume four: "4 \<le> length (fst e)"
  have s3: "sub64 oto 22 = length (xs @ take (length (fst e) - 4) (fst e))"
    using lt oto' four by (simp add: sub_small)
  have raw3: "raw = (xs @ take (length (fst e) - 4) (fst e)) @ drop (length (fst e) - 4) (fst e)
      @ to_le 2 (length (fst e) + 18) @ guid_bytes (snd e) @ rest"
    unfolding assms(1) entry_bytes_def append_assoc
    by (subst (1) append_take_drop_id [of "length (fst e) - 4" "fst e", symmetric]) (simp only: append_assoc)
  have "rd raw (sub64 oto 22) 4 = Inr (drop (length (fst e) - 4) (fst e))"
    by (subst raw3, rule rd_append [OF s3]) (use four in simp)
  then show "rd32 raw (sub64 oto 22) = Inr (le (drop (length (fst e) - 4) (fst e)))"
    by (simp add: rd32_def)
qed

text \<open>The loop passes over well-formed entries of other kinds.\<close>

lemma find_metadata_skip:
  assumes "raw = pre @ table_bytes es @ rest" and "length raw < 2 ^ 64"
    and "\<forall>e\<in>set es. entry_ok e \<and> snd e \<noteq> OVMF_TABLE_TDX_METADATA_GUID"
    and "count + length (table_bytes es) \<le> table_len" and "table_len < 2 ^ 16"
  shows "find_metadata raw table_len (length pre + length (table_bytes es)) count
    = find_metadata raw table_len (length pre) (count + length (table_bytes es))"
  using assms
proof (induction es arbitrary: rest count)
  case (Cons e es)
  let ?oto = "length (pre @ table_bytes es) + length (entry_bytes e)"
  have e: "entry_ok e" "snd e \<noteq> OVMF_TABLE_TDX_METADATA_GUID" using Cons.prems(3) by auto
  have ne: "guid_bytes (snd e) \<noteq> guid_bytes OVMF_TABLE_TDX_METADATA_GUID"
    using e guid_bytes_inject [of "snd e" OVMF_TABLE_TDX_METADATA_GUID] by (auto simp: entry_ok_def)
  have raw: "raw = (pre @ table_bytes es) @ entry_bytes e @ rest"
    using Cons.prems(1) by (simp add: table_bytes_Cons)
  have c: "count < table_len" "count + (length (fst e) + 18) < 2 ^ 16"
    using Cons.prems(4,5) e by (simp_all add: table_bytes_Cons)
  have "find_metadata raw table_len ?oto count
      = find_metadata raw table_len (?oto - (length (fst e) + 18)) (u16 (count + (length (fst e) + 18)))"
    using c(1) ne entry_reads(1,2) [OF raw e(1) Cons.prems(2) refl] e(1)
    by (subst find_metadata.simps) simp
  also have "\<dots> = find_metadata raw table_len (length pre + length (table_bytes es)) (count + length (entry_bytes e))"
    using c(2) e(1) by simp
  also have "\<dots> = find_metadata raw table_len (length pre) (count + length (entry_bytes e) + length (table_bytes es))"
    using Cons.prems by (intro Cons.IH [of "entry_bytes e @ rest"]) (simp_all add: table_bytes_Cons)
  finally show ?case by (simp add: table_bytes_Cons ac_simps)
qed (simp add: table_bytes_def)

lemma find_metadata_table:
  assumes "raw = pre @ table_bytes (es1 @ (d, OVMF_TABLE_TDX_METADATA_GUID) # es2) @ rest"
    and "length raw < 2 ^ 64" and "\<forall>e\<in>set es1. entry_ok e \<and> snd e \<noteq> OVMF_TABLE_TDX_METADATA_GUID"
    and "4 \<le> length d" and "entry_ok (d, OVMF_TABLE_TDX_METADATA_GUID)"
    and "length (table_bytes (es1 @ (d, OVMF_TABLE_TDX_METADATA_GUID) # es2)) = table_len"
    and "table_len < 2 ^ 16"
  shows "find_metadata raw table_len (length pre + table_len) 0
    = Inr (sub64 (sub64 (length raw) (le (drop (length d - 4) d))) 16)"
proof -
  let ?m = "(d, OVMF_TABLE_TDX_METADATA_GUID)"
  let ?pre = "pre @ table_bytes es2 @ entry_bytes ?m"
  have tb: "table_bytes (es1 @ ?m # es2) = table_bytes es2 @ entry_bytes ?m @ table_bytes es1"
    by (simp add: table_bytes_def)
  have raw: "raw = ?pre @ table_bytes es1 @ rest" "raw = (pre @ table_bytes es2) @ entry_bytes ?m @ (table_bytes es1 @ rest)"
    using assms(1) by (simp_all add: tb)
  have tl: "length (table_bytes es1) < table_len" using assms(5,6) by (simp add: tb)
  have "find_metadata raw table_len (length pre + table_len) 0
      = find_metadata raw table_len (length ?pre + length (table_bytes es1)) 0"
    using assms(6) by (simp add: tb add.assoc)
  also have "\<dots> = find_metadata raw table_len (length ?pre) (length (table_bytes es1))"
    using find_metadata_skip [OF raw(1) assms(2,3) _ assms(7), of 0] tl by simp
  also have "\<dots> = Inr (sub64 (sub64 (length raw) (le (drop (length d - 4) d))) 16)"
    using tl entry_reads [OF raw(2) assms(5,2), of "length ?pre"] assms(4)
    by (subst find_metadata.simps) simp
  finally show ?thesis .
qed

lemma get_ovmf_metadata_offset_footer:
  assumes raw: "raw = pre @ tb @ to_le 2 (length tb + 18) @ guid_bytes OVMF_TABLE_FOOTER_GUID @ vec"
    and vec: "length vec = 32" and small: "length raw < 2 ^ 64" "length tb + 18 < 2 ^ 16"
  shows "get_ovmf_metadata_offset raw = find_metadata raw (length tb) (length pre + length tb) 0"
proof -
  let ?G = "guid_bytes OVMF_TABLE_FOOTER_GUID"
  have len: "length raw = length pre + length tb + 50"
    using raw vec by (simp add: length_guid_bytes)
  have o1: "sub64 (length raw) 48 = length (pre @ tb @ to_le 2 (length tb + 18))"
    "sub64 (sub64 (length raw) 48) 2 = length (pre @ tb)"
    using len small(1) by (simp_all add: sub_small)
  have "raw = (pre @ tb @ to_le 2 (length tb + 18)) @ ?G @ vec" using raw by simp
  then have r1: "rd raw (sub64 (length raw) 48) 16 = Inr ?G"
    by (metis rd_append o1(1) length_guid_bytes footer_guid_ok)
  have "raw = (pre @ tb) @ to_le 2 (length tb + 18) @ ?G @ vec" using raw by simp
  then have "rd raw (sub64 (sub64 (length raw) 48) 2) 2 = Inr (to_le 2 (length tb + 18))"
    by (metis rd_append o1(2) length_to_le)
  then have r2: "rd16 raw (sub64 (sub64 (length raw) 48) 2) = Inr (length tb + 18)"
    using small(2) by (simp add: rd16_def le_to_le_small)
  have s: "sub16 (length tb + 18) 18 = length tb" using small(2) by (simp add: sub_small)
  have c: "\<not> u64 (sub64 (length raw) 48 + 16) > length raw"
    using len small(1) unfolding o1 by simp
  show ?thesis
    unfolding get_ovmf_metadata_offset_def Let_def OVMF_TABLE_FOOTER_GUID_OFFSET_def
    using c r1 r2 s o1 by simp
qed

lemma get_ovmf_metadata_offset_aux:
  assumes "raw = ovmf_image pre (es1 @ (d, OVMF_TABLE_TDX_METADATA_GUID) # es2) vec"
    and "length vec = 32" and "length raw < 2 ^ 64"
    and "\<forall>e\<in>set es1. entry_ok e \<and> snd e \<noteq> OVMF_TABLE_TDX_METADATA_GUID"
    and "4 \<le> length d" and "entry_ok (d, OVMF_TABLE_TDX_METADATA_GUID)"
    and "length (table_bytes (es1 @ (d, OVMF_TABLE_TDX_METADATA_GUID) # es2)) + 18 < 2 ^ 16"
  shows "get_ovmf_metadata_offset raw
    = Inr (sub64 (sub64 (length raw) (le (drop (length d - 4) d))) 16)"
proof -
  let ?tb = "table_bytes (es1 @ (d, OVMF_TABLE_TDX_METADATA_GUID) # es2)"
  note raw = assms(1) [unfolded ovmf_image_def]
  have "find_metadata raw (length ?tb) (length pre + length ?tb) 0
      = Inr (sub64 (sub64 (length raw) (le (drop (length d - 4) d))) 16)"
    by (rule find_metadata_table [OF raw assms(3-6) refl]) (use assms(7) in simp)
  then show ?thesis using get_ovmf_metadata_offset_footer [OF raw assms(2,3,7)] by simp
qed

text \<open>
  C23. When the search for the TDX metadata ends. The table of a firmware file is read from its
  end; \<open>es\<close> are well-formed entries of other kinds there. When they are the whole table, the
  loop ends and the offset is 0. When an entry with the length 0 stands before them, the loop
  never leaves it: the function does not return, whatever precedes that entry.
\<close>

theorem get_ovmf_metadata_offset_terminates:
  assumes raw: "raw = pre @ (stub @ table_bytes es) @ to_le 2 (length (stub @ table_bytes es) + 18)
      @ guid_bytes OVMF_TABLE_FOOTER_GUID @ vec"
    and vec: "length vec = 32" and small: "length raw < 2 ^ 64" "length (stub @ table_bytes es) + 18 < 2 ^ 16"
    and es: "\<forall>e\<in>set es. entry_ok e \<and> snd e \<noteq> OVMF_TABLE_TDX_METADATA_GUID"
    and stub: "stub = [] \<or> stub = xs @ to_le 2 0 @ guid_bytes g
      \<and> length (Data4 g) = 8 \<and> g \<noteq> OVMF_TABLE_TDX_METADATA_GUID"
  shows "get_ovmf_metadata_offset raw = (if stub = [] then Inr 0 else Inl Hangs)"
proof -
  let ?tl = "length (stub @ table_bytes es)"
  have raw': "raw = (pre @ stub) @ table_bytes es @ to_le 2 (?tl + 18) @ guid_bytes OVMF_TABLE_FOOTER_GUID @ vec"
    using raw by simp
  have "get_ovmf_metadata_offset raw = find_metadata raw ?tl (length pre + ?tl) 0"
    by (rule get_ovmf_metadata_offset_footer [OF raw vec small])
  also have "\<dots> = find_metadata raw ?tl (length (pre @ stub)) (length (table_bytes es))"
    using find_metadata_skip [OF raw' small(1) es, of 0 ?tl] small(2) by (simp add: add.assoc)
  also have "\<dots> = (if stub = [] then Inr 0 else Inl Hangs)"
  proof (cases "stub = []")
    case False
    let ?rest = "table_bytes es @ to_le 2 (?tl + 18) @ guid_bytes OVMF_TABLE_FOOTER_GUID @ vec"
    have st: "stub = xs @ to_le 2 0 @ guid_bytes g" and g: "length (Data4 g) = 8" "g \<noteq> OVMF_TABLE_TDX_METADATA_GUID"
      using stub False by auto
    have l: "length (pre @ stub) = length (pre @ xs) + 18" "length (pre @ stub) < 2 ^ 64"
      using raw' small(1) g(1) by (simp_all add: st length_guid_bytes)
    have o1: "sub64 (length (pre @ stub)) 16 = length (pre @ xs @ to_le 2 0)"
      "sub64 (length (pre @ stub)) 18 = length (pre @ xs)"
      using l by (simp_all add: sub_small)
    have "raw = (pre @ xs @ to_le 2 0) @ guid_bytes g @ ?rest" "raw = (pre @ xs) @ to_le 2 0 @ (guid_bytes g @ ?rest)"
      using raw' by (simp_all add: st)
    then have r: "rd raw (sub64 (length (pre @ stub)) 16) 16 = Inr (guid_bytes g)"
      "rd raw (sub64 (length (pre @ stub)) 18) 2 = Inr (to_le 2 0)"
      unfolding o1 using g(1) by (metis rd_append length_guid_bytes, metis rd_append length_to_le)
    have ne: "guid_bytes g \<noteq> guid_bytes OVMF_TABLE_TDX_METADATA_GUID"
      using g guid_bytes_inject [of g OVMF_TABLE_TDX_METADATA_GUID] by auto
    show ?thesis
      using False r ne by (subst find_metadata.simps) (simp add: rd16_def)
  qed (subst find_metadata.simps, simp)
  finally show ?thesis .
qed

theorem get_ovmf_metadata_offset_terminates_witness:
  "get_ovmf_metadata_offset (replicate 100 1 @ (([9] @ to_le 2 0 @ guid_bytes OVMF_TABLE_FOOTER_GUID)
      @ table_bytes [([7, 7], OVMF_TABLE_FOOTER_GUID)]) @ to_le 2 57 @ guid_bytes OVMF_TABLE_FOOTER_GUID @ replicate 32 0)
   = Inl Hangs"
proof -
  let ?stub = "[9] @ to_le 2 0 @ guid_bytes OVMF_TABLE_FOOTER_GUID" and ?es = "[([7, 7], OVMF_TABLE_FOOTER_GUID)]"
  have ne: "OVMF_TABLE_FOOTER_GUID \<noteq> OVMF_TABLE_TDX_METADATA_GUID"
    by (simp add: OVMF_TABLE_FOOTER_GUID_def OVMF_TABLE_TDX_METADATA_GUID_def)
  have l: "length (?stub @ table_bytes ?es) = 39"
    by (simp add: table_bytes_def entry_bytes_def length_guid_bytes)
  have "get_ovmf_metadata_offset (replicate 100 1 @ (?stub @ table_bytes ?es) @ to_le 2 (length (?stub @ table_bytes ?es) + 18)
      @ guid_bytes OVMF_TABLE_FOOTER_GUID @ replicate 32 0) = (if ?stub = [] then Inr 0 else Inl Hangs)"
    by (rule get_ovmf_metadata_offset_terminates [where stub = ?stub and es = ?es and xs = "[9]" and g = OVMF_TABLE_FOOTER_GUID, OF refl])
      (use ne in \<open>simp_all add: entry_ok_def table_bytes_def entry_bytes_def length_guid_bytes\<close>)
  then show ?thesis unfolding l by simp
qed

text \<open>
  Fact. The metadata of a firmware file with an OVMF table is found wherever its entry stands
  in the table: walking back over any entries before it, the function returns the offset that
  the last four bytes of the entry's data give, counted from the end of the file.
\<close>

theorem get_ovmf_metadata_offset_table:
  assumes "raw = ovmf_image pre (es1 @ (d, OVMF_TABLE_TDX_METADATA_GUID) # es2) vec"
    and "length vec = 32" and "length raw < 2 ^ 64"
    and "\<forall>e\<in>set es1. entry_ok e \<and> snd e \<noteq> OVMF_TABLE_TDX_METADATA_GUID"
    and "4 \<le> length d" and "entry_ok (d, OVMF_TABLE_TDX_METADATA_GUID)"
    and "length (table_bytes (es1 @ (d, OVMF_TABLE_TDX_METADATA_GUID) # es2)) + 18 < 2 ^ 16"
  shows "get_ovmf_metadata_offset raw
    = Inr (sub64 (sub64 (length raw) (le (drop (length d - 4) d))) 16)"
  using assms by (rule get_ovmf_metadata_offset_aux)

theorem get_ovmf_metadata_offset_table_witness:
  "get_ovmf_metadata_offset (ovmf_image (replicate 100 1)
     ([([7, 7], OVMF_TABLE_FOOTER_GUID)] @ ([120, 0, 0, 0], OVMF_TABLE_TDX_METADATA_GUID) # []) (replicate 32 0))
   = Inr 56"
proof -
  let ?raw = "ovmf_image (replicate 100 1)
     ([([7, 7], OVMF_TABLE_FOOTER_GUID)] @ ([120, 0, 0, 0], OVMF_TABLE_TDX_METADATA_GUID) # []) (replicate 32 0)"
  have ne: "OVMF_TABLE_FOOTER_GUID \<noteq> OVMF_TABLE_TDX_METADATA_GUID"
    by (simp add: OVMF_TABLE_FOOTER_GUID_def OVMF_TABLE_TDX_METADATA_GUID_def)
  have len: "length ?raw = 192"
    by (simp add: ovmf_image_def table_bytes_def entry_bytes_def length_guid_bytes)
  have "get_ovmf_metadata_offset ?raw
      = Inr (sub64 (sub64 (length ?raw) (le (drop (length [120, 0, 0, 0 :: byte] - 4) [120, 0, 0, 0]))) 16)"
    by (rule get_ovmf_metadata_offset_table [OF refl])
      (use len ne in \<open>simp_all add: entry_ok_def table_bytes_def entry_bytes_def length_guid_bytes\<close>)
  then show ?thesis unfolding len by (simp add: sub_small)
qed

text \<open>
  Fact. The bounds check of the metadata search subtracts before it compares: for a file of 32
  to 47 bytes the offset of the footer wraps around, the check passes, and the read lies
  before the buffer; only files of less than 32 bytes are refused.
\<close>

theorem short_firmware_metadata:
  assumes "length raw < 48"
  shows "get_ovmf_metadata_offset raw = Inl (if length raw < 32 then Fail (-1) else OutOfBounds)"
proof -
  have s: "sub64 (length raw) 48 = 2 ^ 64 + length raw - 48"
    using assms by (simp add: sub64_wraps)
  show ?thesis
  proof (cases "length raw < 32")
    case True
    have "sub64 (length raw) 48 + 16 < 2 ^ 64" unfolding s using True by simp
    then have "u64 (sub64 (length raw) 48 + 16) = 2 ^ 64 + length raw - 48 + 16"
      unfolding s by simp
    also have "\<dots> > length raw" by simp
    finally show ?thesis
      using True by (simp add: get_ovmf_metadata_offset_def OVMF_TABLE_FOOTER_GUID_OFFSET_def)
  next
    case False
    have "2 ^ 64 + length raw - 48 + 16 = (length raw - 32) + 2 ^ 64" using False by simp
    then have "u64 (sub64 (length raw) 48 + 16) = (length raw - 32 + 2 ^ 64) mod 2 ^ 64"
      unfolding s u64_def by (rule arg_cong)
    then have "u64 (sub64 (length raw) 48 + 16) = length raw - 32"
      using assms by (simp only: mod_add_self2) simp
    moreover have "length raw < sub64 (length raw) 48 + 16" unfolding s by simp
    moreover have nl: "\<not> length raw < length raw - 32" by simp
    ultimately show ?thesis
      using False by (simp add: get_ovmf_metadata_offset_def OVMF_TABLE_FOOTER_GUID_OFFSET_def nl)
  qed
qed

theorem short_firmware_metadata_witness:
  "get_ovmf_metadata_offset (replicate 40 0) = Inl OutOfBounds"
  using short_firmware_metadata [of "replicate 40 0"] by simp

section \<open>The measured stream\<close>

text \<open>
  The specification of MRTD: per page the block of the page-add call, and 16 chunks of 256
  bytes, each with the block of the extend call; interleaved per page for QEMU 9.2.0, all
  page-adds of a section before its extensions for QEMU 8.2.2.
\<close>

definition extend_block :: "nat \<Rightarrow> byte list" where
  "extend_block gpa = bytes_of ''MR.EXTEND'' @ replicate 7 0 @ to_le 8 gpa @ replicate 104 0"

definition chunk_stream :: "byte list \<Rightarrow> tdx_metadata_section_t \<Rightarrow> nat \<Rightarrow> nat \<Rightarrow> byte list" where
  "chunk_stream raw sec i j =
     extend_block (u64 (memory_address sec + i * 4096 + j * 256))
     @ take 256 (drop (data_offset sec + i * 4096 + j * 256) raw)"

definition page_stream :: "byte list \<Rightarrow> tdx_metadata_section_t \<Rightarrow> nat \<Rightarrow> byte list" where
  "page_stream raw sec i = concat (map (chunk_stream raw sec i) [0..<16])"

definition adds :: "tdx_metadata_section_t \<Rightarrow> nat \<Rightarrow> byte list" where
  "adds sec i = (if NO_PAGE_ADD sec then [] else td_call_mem_page_add (page_gpa sec i))"

definition extends :: "byte list \<Rightarrow> tdx_metadata_section_t \<Rightarrow> nat \<Rightarrow> byte list" where
  "extends raw sec i = (if EXTENDMR sec then page_stream raw sec i else [])"

definition section_stream :: "string \<Rightarrow> byte list \<Rightarrow> tdx_metadata_section_t \<Rightarrow> byte list" where
  "section_stream ver raw sec =
     (let pages = [0..<memory_data_size sec div 4096] in
      if ver = ''9.2.0'' then concat (map (\<lambda>i. adds sec i @ extends raw sec i) pages)
      else concat (map (adds sec) pages) @ concat (map (extends raw sec) pages))"

definition section_inside :: "byte list \<Rightarrow> tdx_metadata_section_t \<Rightarrow> bool" where
  "section_inside raw sec \<longleftrightarrow> EXTENDMR sec \<longrightarrow> data_offset sec + memory_data_size sec \<le> length raw"

definition metadata_sections :: "byte list \<Rightarrow> nat \<Rightarrow> tdx_metadata_section_t list" where
  "metadata_sections metadata n = map (\<lambda>i. section_of (take 32 (drop (16 + 32 * i) metadata))) [0..<n]"

lemma fold_res_stream:
  assumes "\<And>i x. i \<in> set xs \<Longrightarrow> f i (Some x) = Inr (Some (x @ g i))"
  shows "fold_res f xs (Some x) = Inr (Some (x @ concat (map g xs)))"
  using assms by (induction xs arbitrary: x) auto

lemma pages16: "PAGE_SIZE div TDH_MR_EXTEND_GRANULARITY = 16"
  by (simp add: PAGE_SIZE_def TDH_MR_EXTEND_GRANULARITY_def)

lemma extend_page_stream:
  assumes sec: "data_offset sec + memory_data_size sec \<le> length raw" and len: "length raw < 2 ^ 63"
    and i: "i < memory_data_size sec div 4096"
  shows "extend_page raw sec i (Some x) = Inr (Some (x @ page_stream raw sec i))"
proof -
  have "(i + 1) * 4096 \<le> memory_data_size sec"
    using i by (simp add: less_eq_div_iff_mult_less_eq [symmetric])
  then have bound: "data_offset sec + i * 4096 + 4096 \<le> length raw" using sec by simp
  show ?thesis
    unfolding extend_page_def page_stream_def pages16
  proof (rule fold_res_stream)
    fix j y assume "j \<in> set [0..<16]"
    then have 1: "j < 16" by simp
    let ?off = "data_offset sec + i * 4096 + j * 256"
    have j: "?off + 256 \<le> length raw" using 1 bound by simp
    have u: "u64 ?off = ?off" "u64 (?off + 256) = ?off + 256" using j len by simp_all
    have d: "take 128 (drop ?off raw) @ take 128 (drop (?off + 128) raw) = take 256 (drop ?off raw)"
      using take_add [of 128 128 "drop ?off raw"] by (simp add: add.commute)
    show "extend_chunk raw sec i j (Some y) = Inr (Some (y @ chunk_stream raw sec i j))"
      using j
      by (simp add: extend_chunk_def or_out_def td_call_mr_extend_def PAGE_SIZE_def
          TDH_MR_EXTEND_GRANULARITY_def MRTD_EXTENSION_BUFFER_SIZE_def u d
          chunk_stream_def extend_block_def)
  qed
qed

lemma measure_section_stream:
  assumes "ver = ''9.2.0'' \<or> ver = ''8.2.2''" and "section_inside raw sec" and "length raw < 2 ^ 63"
  shows "measure_section ver raw sec (Some x) = Inr (Some (x @ section_stream ver raw sec))"
proof -
  let ?n = "memory_data_size sec div PAGE_SIZE"
  have n: "?n = memory_data_size sec div 4096" by (simp add: PAGE_SIZE_def)
  have ext: "(if EXTENDMR sec then extend_page raw sec i (Some y) else Inr (Some y))
      = Inr (Some (y @ extends raw sec i))" if "i < ?n" for i y
    using that assms(2,3) extend_page_stream [of sec raw i y]
    by (simp add: extends_def section_inside_def n)
  have add: "(if \<not> NO_PAGE_ADD sec then add_page sec i (Some y) else Inr (Some y))
      = Inr (Some (y @ adds sec i))" for i y
    by (simp add: adds_def add_page_def or_out_def)
  have adds: "(if \<not> NO_PAGE_ADD sec then fold_res (add_page sec) [0..<?n] (Some y) else Inr (Some y))
      = Inr (Some (y @ concat (map (adds sec) [0..<?n])))" for y
    using add fold_res_stream [of "[0..<?n]" "add_page sec" "adds sec" y] by (auto simp: adds_def)
  have exts: "(if EXTENDMR sec then fold_res (extend_page raw sec) [0..<?n] (Some y) else Inr (Some y))
      = Inr (Some (y @ concat (map (extends raw sec) [0..<?n])))" for y
    using ext fold_res_stream [of "[0..<?n]" "extend_page raw sec" "extends raw sec" y]
    by (auto simp: extends_def split: if_splits)
  have inter: "fold_res (\<lambda>iter c.
          and_then (if \<not> NO_PAGE_ADD sec then add_page sec iter c else Inr c) (\<lambda>c.
          if EXTENDMR sec then extend_page raw sec iter c else Inr c)) [0..<?n] (Some x)
      = Inr (Some (x @ concat (map (\<lambda>i. adds sec i @ extends raw sec i) [0..<?n])))"
    by (rule fold_res_stream) (simp only: add and_then_simps ext set_upt atLeastLessThan_iff append_assoc)
  have ne: "''8.2.2'' \<noteq> ''9.2.0''" by simp
  from assms(1) show ?thesis
  proof
    assume v: "ver = ''9.2.0''"
    show ?thesis
      unfolding measure_section_def section_stream_def Let_def n [symmetric] v if_P [OF refl] by (rule inter)
  next
    assume v: "ver = ''8.2.2''"
    show ?thesis
      unfolding measure_section_def section_stream_def Let_def n [symmetric] v if_not_P [OF ne] if_P [OF refl]
      by (simp only: adds exts and_then_simps append_assoc)
  qed
qed

lemma measure_sections_stream:
  assumes "ver = ''9.2.0'' \<or> ver = ''8.2.2''" and "length raw < 2 ^ 63"
    and "off + 32 * n \<le> length metadata"
    and "\<forall>i<n. section_sane (section_of (take 32 (drop (off + 32 * i) metadata)))
      \<and> section_inside raw (section_of (take 32 (drop (off + 32 * i) metadata)))"
  shows "measure_sections ver raw metadata n off (Some x)
    = Inr (Some (x @ concat (map (\<lambda>i. section_stream ver raw
        (section_of (take 32 (drop (off + 32 * i) metadata)))) [0..<n])))"
  using assms(3,4)
proof (induction n arbitrary: off x)
  case (Suc n)
  let ?s = "\<lambda>off i. section_of (take 32 (drop (off + 32 * i) metadata))"
  have head: "section_sane (?s off 0)" "section_inside raw (?s off 0)" using Suc.prems(2) by blast+
  have shift: "?s (off + 32) i = ?s off (Suc i)" for i by (simp add: add.assoc)
  have IH: "measure_sections ver raw metadata n (off + 32) (Some y)
      = Inr (Some (y @ concat (map (\<lambda>i. section_stream ver raw (?s (off + 32) i)) [0..<n])))" for y
    by (rule Suc.IH) (use Suc.prems in \<open>auto simp: shift\<close>)
  have upt: "[0..<Suc n] = 0 # map Suc [0..<n]" by (simp add: upt_conv_Cons map_Suc_upt del: upt_Suc)
  show ?case
    using Suc.prems(1) head measure_section_stream [OF assms(1) head(2) assms(2), of x]
    by (simp add: or_out_def IH upt shift comp_def del: upt_Suc)
qed simp

text \<open>
  C14. MRTD is the digest of the specified stream: when the metadata loads, its sections fit
  in it, are page aligned and lie inside the file where they are extended, the measurement is
  the SHA-384 of the page-add and extend blocks of all sections in order, for both supported
  QEMU versions, and the code stays inside the file.
\<close>

theorem measure_ovmf_stream:
  assumes "ver = ''9.2.0'' \<or> ver = ''8.2.2''" and "length raw < 2 ^ 63"
    and "load_metadata raw = Inr (d, metadata)"
    and "16 + 32 * number_of_section_entry d \<le> length metadata"
    and "\<forall>sec\<in>set (metadata_sections metadata (number_of_section_entry d)).
      section_sane sec \<and> section_inside raw sec"
  shows "measure_ovmf H digest0 raw ver = Inr (H EVP_sha384 (concat (map (section_stream ver raw)
    (metadata_sections metadata (number_of_section_entry d)))))"
proof -
  have "\<forall>i<number_of_section_entry d. section_sane (section_of (take 32 (drop (16 + 32 * i) metadata)))
      \<and> section_inside raw (section_of (take 32 (drop (16 + 32 * i) metadata)))"
    using assms(5) by (simp add: metadata_sections_def)
  from measure_sections_stream [OF assms(1,2,4) this, of "[]"] show ?thesis
    using assms(3) by (simp add: measure_ovmf_def metadata_sections_def comp_def)
qed

lemma measure_ovmf_abandoned_aux:
  assumes "load_metadata raw = Inr (d, metadata)" and "48 \<le> length metadata"
    and "\<not> section_sane (section_of (take 32 (drop 16 metadata))) \<or> ver \<notin> {''9.2.0'', ''8.2.2''}"
    and "number_of_section_entry d \<noteq> 0"
  shows "measure_ovmf H digest0 raw ver = Inr digest0"
proof -
  obtain n where n: "number_of_section_entry d = Suc n" using assms(4) not0_implies_Suc by blast
  have out: "measure_sections ver raw metadata n off None = Inr None" for off
    by (cases n) (simp_all add: or_out_def)
  have "measure_sections ver raw metadata (Suc n) 16 (Some []) = Inr None"
    using assms(2,3) by (auto simp: or_out_def measure_section_def Let_def out)
  then show ?thesis by (simp add: measure_ovmf_def assms(1) n)
qed

text \<open>
  Fact. A measurement that is abandoned is reported as success: if the first section is not
  aligned, or the QEMU version is none of the two known ones, the function returns code 0
  without writing the digest, and the caller logs and publishes the indeterminate bytes of
  its buffer as MRTD.
\<close>

theorem measure_ovmf_abandoned:
  assumes "load_metadata raw = Inr (d, metadata)" and "48 \<le> length metadata"
    and "\<not> section_sane (section_of (take 32 (drop 16 metadata))) \<or> ver \<notin> {''9.2.0'', ''8.2.2''}"
    and "number_of_section_entry d \<noteq> 0"
  shows "measure_ovmf H digest0 raw ver = Inr digest0"
  using assms by (rule measure_ovmf_abandoned_aux)

section \<open>The configuration volume of a firmware file\<close>

lemma cfv_sections_first:
  assumes "length raw < 2 ^ 32" and "off + 32 * Suc k \<le> length metadata" and "k < n"
    and "\<And>i. i \<le> k \<Longrightarrow> let s = section_of (take 32 (drop (off + 32 * i) metadata)) in
      memory_address s mod PAGE_SIZE = 0 \<and> memory_data_size s mod PAGE_SIZE = 0
      \<and> data_offset s + raw_data_size s \<le> length raw
      \<and> (sec_type s = TDX_METADATA_SECTION_TYPE_TDVF \<longleftrightarrow> i = k)"
    and "cfv = section_of (take 32 (drop (off + 32 * k) metadata))"
  shows "cfv_sections H digest0 raw metadata n off
    = Inr (H EVP_sha384 (take (raw_data_size cfv) (drop (data_offset cfv) raw)))"
  using assms(2-5)
proof (induction k arbitrary: n off)
  case 0
  then obtain n' where n: "n = Suc n'" by (cases n) auto
  have s: "memory_address cfv mod PAGE_SIZE = 0" "memory_data_size cfv mod PAGE_SIZE = 0"
    "data_offset cfv + raw_data_size cfv \<le> length raw" "sec_type cfv = TDX_METADATA_SECTION_TYPE_TDVF"
    using "0.prems"(3) [of 0] "0.prems"(4) by (simp_all add: Let_def)
  have u: "u32 (data_offset cfv + raw_data_size cfv) = data_offset cfv + raw_data_size cfv"
    using s(3) assms(1) by simp
  show ?case
    using "0.prems"(1,4) s u by (simp add: n Let_def hash_buf_def)
next
  case (Suc k)
  then obtain n' where n: "n = Suc n'" by (cases n) auto
  let ?s = "section_of (take 32 (drop off metadata))"
  have s: "memory_address ?s mod PAGE_SIZE = 0" "memory_data_size ?s mod PAGE_SIZE = 0"
    "data_offset ?s + raw_data_size ?s \<le> length raw" "sec_type ?s \<noteq> TDX_METADATA_SECTION_TYPE_TDVF"
    using Suc.prems(3) [of 0] by (simp_all add: Let_def)
  have u: "u32 (data_offset ?s + raw_data_size ?s) = data_offset ?s + raw_data_size ?s"
    using s(3) assms(1) by simp
  have "cfv_sections H digest0 raw metadata n' (off + 32)
      = Inr (H EVP_sha384 (take (raw_data_size cfv) (drop (data_offset cfv) raw)))"
  proof (rule Suc.IH, goal_cases)
    case (3 i)
    then show ?case using Suc.prems(3) [of "Suc i"] by (simp add: add.assoc)
  qed (use Suc.prems n in \<open>simp_all add: add.assoc\<close>)
  then show ?case using Suc.prems(1) s u by (simp add: n Let_def)
qed

lemma measure_cfv_volume_aux:
  assumes "length raw < 2 ^ 32" and "load_metadata raw = Inr (d, metadata)"
    and "16 + 32 * Suc k \<le> length metadata" and "k < number_of_section_entry d"
    and "\<And>i. i \<le> k \<Longrightarrow> let s = section_of (take 32 (drop (16 + 32 * i) metadata)) in
      memory_address s mod PAGE_SIZE = 0 \<and> memory_data_size s mod PAGE_SIZE = 0
      \<and> data_offset s + raw_data_size s \<le> length raw
      \<and> (sec_type s = TDX_METADATA_SECTION_TYPE_TDVF \<longleftrightarrow> i = k)"
    and "cfv = section_of (take 32 (drop (16 + 32 * k) metadata))"
  shows "measure_cfv H digest0 raw
    = Inr (H EVP_sha384 (take (raw_data_size cfv) (drop (data_offset cfv) raw)))"
  using cfv_sections_first [OF assms(1,3-6)] by (simp add: measure_cfv_def assms(2))

text \<open>
  Fact. The configuration volume is the first section of type TDVF: when the metadata loads
  and the sections up to it are page aligned and lie inside a file of less than 4 GiB, the
  digest is the SHA-384 of exactly that section of the file.
\<close>

theorem measure_cfv_volume:
  assumes "length raw < 2 ^ 32" and "load_metadata raw = Inr (d, metadata)"
    and "16 + 32 * Suc k \<le> length metadata" and "k < number_of_section_entry d"
    and "\<And>i. i \<le> k \<Longrightarrow> let s = section_of (take 32 (drop (16 + 32 * i) metadata)) in
      memory_address s mod PAGE_SIZE = 0 \<and> memory_data_size s mod PAGE_SIZE = 0
      \<and> data_offset s + raw_data_size s \<le> length raw
      \<and> (sec_type s = TDX_METADATA_SECTION_TYPE_TDVF \<longleftrightarrow> i = k)"
    and "cfv = section_of (take 32 (drop (16 + 32 * k) metadata))"
  shows "measure_cfv H digest0 raw
    = Inr (H EVP_sha384 (take (raw_data_size cfv) (drop (data_offset cfv) raw)))"
  using assms by (rule measure_cfv_volume_aux)

text \<open>
  Fact. The bounds check of the configuration volume adds two 32-bit fields without widening
  them: a first section whose offset and size add up to 2^32 or more passes the check when
  the wrapped sum is small, and the hash reads beyond the file.
\<close>

theorem measure_cfv_overflow:
  assumes "length raw < 2 ^ 32" and "load_metadata raw = Inr (d, metadata)"
    and "48 \<le> length metadata" and "number_of_section_entry d \<noteq> 0"
    and "s = section_of (take 32 (drop 16 metadata))"
    and "memory_address s mod PAGE_SIZE = 0" and "memory_data_size s mod PAGE_SIZE = 0"
    and "sec_type s = TDX_METADATA_SECTION_TYPE_TDVF"
    and "2 ^ 32 \<le> data_offset s + raw_data_size s"
    and "data_offset s + raw_data_size s - 2 ^ 32 \<le> length raw"
  shows "measure_cfv H digest0 raw = Inl OutOfBounds"
proof -
  obtain n where n: "number_of_section_entry d = Suc n" using assms(4) not0_implies_Suc by blast
  have b: "data_offset s < 2 ^ 32" "raw_data_size s < 2 ^ 32"
    using le_take_bound [of 4 "take 32 (drop 16 metadata)"]
      le_take_bound [of 4 "drop 4 (take 32 (drop 16 metadata))"]
    by (simp_all add: assms(5) section_of_def min_def)
  have "u32 (data_offset s + raw_data_size s) = data_offset s + raw_data_size s - 2 ^ 32"
    using b assms(9) unfolding u32_def by (subst le_mod_geq) simp_all
  then have u: "\<not> u32 (data_offset s + raw_data_size s) > length raw" using assms(10) by simp
  have "length (drop (data_offset s) raw) < raw_data_size s"
    using assms(1,9) b by auto
  then have h: "hash_buf H EVP_sha384 (drop (data_offset s) raw) (raw_data_size s) = Inl OutOfBounds"
    by (simp add: hash_buf_def)
  have "cfv_sections H digest0 raw metadata (Suc n) 16 = Inl OutOfBounds"
    using assms(3,6-8) u h by (simp add: Let_def assms(5) [symmetric])
  then show ?thesis by (simp add: measure_cfv_def assms(2) n)
qed

section \<open>A small firmware file\<close>

text \<open>
  A file that consists of the metadata, one section of one page and the tail whose first word
  locates the metadata.
\<close>

definition sample_td :: "nat \<Rightarrow> nat \<Rightarrow> nat \<Rightarrow> nat \<Rightarrow> byte list" where
  "sample_td off sz addr ty = replicate 16 0 @ to_le 4 TDX_METADATA_SIGNATURE @ to_le 4 48 @ to_le 4 1 @ to_le 4 1
     @ to_le 4 off @ to_le 4 sz @ to_le 8 addr @ to_le 8 0x1000 @ to_le 4 ty @ to_le 4 0 @ replicate 48 0"

lemma length_sample_td [simp]: "length (sample_td off sz addr ty) = 112"
  by (simp add: sample_td_def)

lemma sample_td_load:
  "load_metadata (sample_td off sz addr ty) = Inr (\<lparr>d_signature = TDX_METADATA_SIGNATURE, d_length = 48,
     d_version = 1, number_of_section_entry = 1\<rparr>, take 48 (drop 16 (sample_td off sz addr ty)))"
proof -
  let ?r = "sample_td off sz addr ty"
  have s: "sub64 112 48 = 64" "sub64 112 32 = 80" "sub64 80 16 = 64" by (simp_all add: sub_small)
  have foot: "take 16 (drop 64 ?r) = replicate 16 0" "take 4 (drop 64 ?r) = replicate 4 0"
    by (simp_all add: sample_td_def)
  have ne: "replicate 16 0 \<noteq> guid_bytes OVMF_TABLE_FOOTER_GUID"
  proof
    assume "replicate 16 0 = guid_bytes OVMF_TABLE_FOOTER_GUID"
    then have "hd (replicate 16 0) = hd (guid_bytes OVMF_TABLE_FOOTER_GUID)" by (rule arg_cong)
    then show False by (simp add: guid_bytes_def OVMF_TABLE_FOOTER_GUID_def)
  qed
  have off: "get_ovmf_metadata_offset ?r = Inr 0"
    by (simp add: get_ovmf_metadata_offset_def s foot ne OVMF_TABLE_FOOTER_GUID_OFFSET_def
        TDVF_DESCRIPTOR_OFFSET_def rd32_def)
  have db: "drop 16 (take 32 ?r) = to_le 4 TDX_METADATA_SIGNATURE @ to_le 4 48 @ to_le 4 1 @ to_le 4 1"
    by (simp add: sample_td_def del: to_le_literal)
  have d: "descriptor_of (drop 16 (take 32 ?r)) = \<lparr>d_signature = TDX_METADATA_SIGNATURE, d_length = 48,
      d_version = 1, number_of_section_entry = 1\<rparr>"
    unfolding db descriptor_of_def by (simp add: le_to_le_small TDX_METADATA_SIGNATURE_def del: to_le_literal)
  show ?thesis
    by (simp add: load_metadata_def off d is_valid_descriptor_def)
qed

lemma sample_td_section:
  assumes "off < 2 ^ 32" "sz < 2 ^ 32" "addr < 2 ^ 64" "ty < 2 ^ 32"
  shows "section_of (take 32 (drop 16 (take 48 (drop 16 (sample_td off sz addr ty)))))
    = \<lparr>data_offset = off, raw_data_size = sz, memory_address = addr, memory_data_size = 0x1000,
       sec_type = ty, attributes = 0\<rparr>"
proof -
  have b: "take 32 (drop 16 (take 48 (drop 16 (sample_td off sz addr ty))))
      = to_le 4 off @ to_le 4 sz @ to_le 8 addr @ to_le 8 0x1000 @ to_le 4 ty @ to_le 4 0"
    by (simp add: sample_td_def del: to_le_literal)
  show ?thesis
    unfolding b section_of_def using assms by (simp add: le_to_le_small del: to_le_literal)
qed

theorem measure_ovmf_stream_witness:
  "measure_ovmf sum_digest [] (sample_td 0 0 0x1000 7) ''9.2.0''
    = Inr (sum_digest EVP_sha384 (td_call_mem_page_add 0x1000))"
proof -
  let ?d = "\<lparr>d_signature = TDX_METADATA_SIGNATURE, d_length = 48, d_version = 1, number_of_section_entry = 1\<rparr>"
  let ?m = "take 48 (drop 16 (sample_td 0 0 0x1000 7))"
  let ?s = "\<lparr>data_offset = 0, raw_data_size = 0, memory_address = 0x1000, memory_data_size = 0x1000,
       sec_type = 7, attributes = 0\<rparr>"
  have secs: "metadata_sections ?m 1 = [?s]"
    using sample_td_section [of 0 0 "0x1000" 7] by (simp add: metadata_sections_def)
  have "measure_ovmf sum_digest [] (sample_td 0 0 0x1000 7) ''9.2.0'' = Inr (sum_digest EVP_sha384
      (concat (map (section_stream ''9.2.0'' (sample_td 0 0 0x1000 7)) (metadata_sections ?m (number_of_section_entry ?d)))))"
    by (rule measure_ovmf_stream [OF _ _ sample_td_load])
      (use secs in \<open>simp_all add: section_sane_def section_inside_def EXTENDMR_def PAGE_SIZE_def
        TDX_METADATA_SECTION_TYPE_TD_INFO_def TDX_METADATA_SECTION_TYPE_MAX_def\<close>)
  then show ?thesis
    using secs by (simp add: section_stream_def adds_def extends_def NO_PAGE_ADD_def EXTENDMR_def
        page_gpa_def PAGE_SIZE_def)
qed

lemma sample_td_unsupported:
  "measure_ovmf sum_digest (replicate 48 0xAA) (sample_td 0 0 0x1000 7) ''10.0.0'' = Inr (replicate 48 0xAA)"
  by (rule measure_ovmf_abandoned_aux [OF sample_td_load]) simp_all

theorem measure_ovmf_abandoned_witness:
  "measure_ovmf sum_digest (replicate 48 0xAA) (sample_td 0 0 0x1000 7) ''10.0.0'' = Inr (replicate 48 0xAA)"
  by (rule measure_ovmf_abandoned [OF sample_td_load]) simp_all

lemma sample_td_cfv:
  "measure_cfv sum_digest [] (sample_td 8 16 0x1000 1)
    = Inr (sum_digest EVP_sha384 (take 16 (drop 8 (sample_td 8 16 0x1000 1))))"
proof -
  let ?m = "take 48 (drop 16 (sample_td 8 16 0x1000 1))"
  let ?s = "\<lparr>data_offset = 8, raw_data_size = 16, memory_address = 0x1000, memory_data_size = 0x1000,
       sec_type = 1, attributes = 0\<rparr>"
  have s: "section_of (take 32 (drop 16 ?m)) = ?s" by (rule sample_td_section) simp_all
  have "measure_cfv sum_digest [] (sample_td 8 16 0x1000 1)
      = Inr (sum_digest EVP_sha384 (take (raw_data_size ?s) (drop (data_offset ?s) (sample_td 8 16 0x1000 1))))"
    by (rule measure_cfv_volume_aux [where k = 0, OF _ sample_td_load])
      (use s in \<open>simp_all add: PAGE_SIZE_def TDX_METADATA_SECTION_TYPE_TDVF_def\<close>)
  then show ?thesis by simp
qed

theorem measure_cfv_volume_witness:
  "measure_cfv sum_digest [] (sample_td 8 16 0x1000 1)
    = Inr (sum_digest EVP_sha384 (take 16 (drop 8 (sample_td 8 16 0x1000 1))))"
proof -
  let ?m = "take 48 (drop 16 (sample_td 8 16 0x1000 1))"
  let ?s = "\<lparr>data_offset = 8, raw_data_size = 16, memory_address = 0x1000, memory_data_size = 0x1000,
       sec_type = 1, attributes = 0\<rparr>"
  have s: "section_of (take 32 (drop 16 ?m)) = ?s" by (rule sample_td_section) simp_all
  have "measure_cfv sum_digest [] (sample_td 8 16 0x1000 1)
      = Inr (sum_digest EVP_sha384 (take (raw_data_size ?s) (drop (data_offset ?s) (sample_td 8 16 0x1000 1))))"
    by (rule measure_cfv_volume [where k = 0, OF _ sample_td_load])
      (use s in \<open>simp_all add: PAGE_SIZE_def TDX_METADATA_SECTION_TYPE_TDVF_def\<close>)
  then show ?thesis by simp
qed

theorem measure_cfv_overflow_witness:
  "measure_cfv sum_digest [] (sample_td 0x80000000 0x80000010 0x1000 1) = Inl OutOfBounds"
proof -
  let ?m = "take 48 (drop 16 (sample_td 0x80000000 0x80000010 0x1000 1))"
  have s: "section_of (take 32 (drop 16 ?m)) = \<lparr>data_offset = 0x80000000, raw_data_size = 0x80000010,
      memory_address = 0x1000, memory_data_size = 0x1000, sec_type = 1, attributes = 0\<rparr>"
    by (rule sample_td_section) simp_all
  show ?thesis
    by (rule measure_cfv_overflow [OF _ sample_td_load _ _ refl])
      (simp_all only: s, simp_all add: PAGE_SIZE_def TDX_METADATA_SECTION_TYPE_TDVF_def)
qed

end
