(* ===== verification/TdxMrs.thy ===== *)
theory TdxMrs
  imports PcrSpec Mrtd
begin

text \<open>
  \<^verbatim>\<open>src/calculate-tdx-mrs/td_hob.c\<close> and \<^verbatim>\<open>src/calculate-tdx-mrs/mrs.c\<close>: the TD handoff block
  and the six TDX measurement registers, each with its event log entries, and the event lists
  that specify them. As for the TPM registers, \<open>H\<close>, \<open>fs\<close> and the stale values are
  parameters: \<open>stale_sep\<close> tells whether the pointer \<open>ev_separator\<close>, over whose declaration
  the early \<open>goto out\<close> jumps lead, happens to be non-null and is freed.
\<close>

section \<open>The TD handoff block\<close>

definition EFI_HOB_TYPE_HANDOFF :: nat where "EFI_HOB_TYPE_HANDOFF = 1"
definition EFI_HOB_TYPE_RESOURCE_DESCRIPTOR :: nat where "EFI_HOB_TYPE_RESOURCE_DESCRIPTOR = 3"
definition EFI_HOB_HANDOFF_TABLE_VERSION :: nat where "EFI_HOB_HANDOFF_TABLE_VERSION = 9"
definition BOOT_WITH_FULL_CONFIGURATION :: nat where "BOOT_WITH_FULL_CONFIGURATION = 0"
definition EFI_RESOURCE_SYSTEM_MEMORY :: nat where "EFI_RESOURCE_SYSTEM_MEMORY = 0"
definition EFI_RESOURCE_MEMORY_UNACCEPTED :: nat where "EFI_RESOURCE_MEMORY_UNACCEPTED = 7"
definition EFI_RESOURCE_ATTRIBUTES :: "32 word" where "EFI_RESOURCE_ATTRIBUTES = 0x1 OR 0x2 OR 0x4"
definition RESOURCE_DESCRIPTOR_LEN :: nat where "RESOURCE_DESCRIPTOR_LEN = 9"

text \<open>The structures of \<^verbatim>\<open>PiHob.h\<close>, field by field as they lie in memory.\<close>

definition EFI_HOB_GENERIC_HEADER :: "nat \<Rightarrow> nat \<Rightarrow> byte list" where
  "EFI_HOB_GENERIC_HEADER HobType HobLength = to_le 2 HobType @ to_le 2 HobLength @ to_le 4 0"

definition HANDOFF_SIZE :: nat where "HANDOFF_SIZE = 56"
definition RESOURCE_SIZE :: nat where "RESOURCE_SIZE = 48"

definition handoff_table :: "byte list" where
  "handoff_table = EFI_HOB_GENERIC_HEADER EFI_HOB_TYPE_HANDOFF HANDOFF_SIZE
     @ to_le 4 EFI_HOB_HANDOFF_TABLE_VERSION @ to_le 4 BOOT_WITH_FULL_CONFIGURATION
     @ to_le 8 0 @ to_le 8 0 @ to_le 8 0 @ to_le 8 0 @ to_le 8 0x8091f0"

definition resource_descriptor :: "nat \<Rightarrow> nat \<Rightarrow> nat \<Rightarrow> byte list" where
  "resource_descriptor ResourceType PhysicalStart ResourceLength =
     EFI_HOB_GENERIC_HEADER EFI_HOB_TYPE_RESOURCE_DESCRIPTOR RESOURCE_SIZE
     @ replicate 16 0 @ to_le 4 ResourceType @ to_le 4 (unat EFI_RESOURCE_ATTRIBUTES)
     @ to_le 8 PhysicalStart @ to_le 8 ResourceLength"

definition physical_start :: "nat list" where
  "physical_start = [0x0, 0x800000, 0x806000, 0x809000, 0x80b000, 0x80d000, 0x811000, 0x820000, 0x100000000]"

definition resource_length :: "nat list" where
  "resource_length = [0x800000, 0x6000, 0x3000, 0x2000, 0x2000, 0x4000, 0xF000, 0x7F7E0000, 0x80000000]"

definition resource_type :: "nat list" where
  "resource_type = [EFI_RESOURCE_MEMORY_UNACCEPTED, EFI_RESOURCE_SYSTEM_MEMORY,
     EFI_RESOURCE_MEMORY_UNACCEPTED, EFI_RESOURCE_SYSTEM_MEMORY,
     EFI_RESOURCE_SYSTEM_MEMORY, EFI_RESOURCE_MEMORY_UNACCEPTED,
     EFI_RESOURCE_SYSTEM_MEMORY, EFI_RESOURCE_MEMORY_UNACCEPTED,
     EFI_RESOURCE_MEMORY_UNACCEPTED]"

definition get_td_hob_size :: nat where
  "get_td_hob_size = HANDOFF_SIZE + RESOURCE_SIZE * RESOURCE_DESCRIPTOR_LEN"

text \<open>
  What \<open>print_td_hob\<close> prints for the record at \<open>offset\<close>. The pointer \<open>hob\<close> is declared inside
  the \<open>switch\<close> and set in the case of the handoff table only; the case of a resource descriptor
  reads the type and the length through it while it is indeterminate. \<open>hob0\<close> is the place in
  the block that it happens to point to, \<open>None\<close> when it points to no object.
\<close>

definition handoff_text :: "byte list \<Rightarrow> string" where
  "handoff_text h =
     ''EFI_HOB_HANDOFF_INFO_TABLE:'' @ nl
     @ tab @ ''HobType: '' @ dec (le (take 2 h)) @ nl
     @ tab @ ''HobLength: '' @ dec (le (take 2 (drop 2 h))) @ nl
     @ tab @ ''Version: '' @ ld (int32 (int (le (take 4 (drop 8 h))))) @ nl
     @ tab @ ''Boot Mode: '' @ ld (int32 (int (le (take 4 (drop 12 h))))) @ nl
     @ tab @ ''EfiMemoryTop: 0x'' @ hex (le (take 8 (drop 16 h))) @ nl
     @ tab @ ''EfiMemoryBottom: 0x'' @ hex (le (take 8 (drop 24 h))) @ nl
     @ tab @ ''EfiFreeMemoryTop: 0x'' @ hex (le (take 8 (drop 32 h))) @ nl
     @ tab @ ''EfiFreememoryBottom: 0x'' @ hex (le (take 8 (drop 40 h))) @ nl
     @ tab @ ''EfiEndOfHobList: 0x'' @ hex (le (take 8 (drop 48 h))) @ nl"

definition resource_text :: "nat \<Rightarrow> nat \<Rightarrow> byte list \<Rightarrow> string" where
  "resource_text HobType HobLength r =
     ''EFI_HOB_RESOURCE_DESCRIPTOR:'' @ nl
     @ tab @ ''HobType: '' @ dec HobType @ nl
     @ tab @ ''HobLength: '' @ dec HobLength @ nl
     @ tab @ ''GUID: '' @ hex_pad 8 (le (take 4 (drop 8 r))) @ ''-'' @ hex_pad 4 (le (take 2 (drop 12 r)))
       @ ''-'' @ hex_pad 4 (le (take 2 (drop 14 r))) @ ''-'' @ hex_string (take 2 (drop 16 r))
       @ ''-'' @ hex_string (take 6 (drop 18 r)) @ nl
     @ tab @ ''ResourceType: '' @ hex (le (take 4 (drop 24 r))) @ nl
     @ tab @ ''ResourceAttribute: '' @ hex (le (take 4 (drop 28 r))) @ nl
     @ tab @ ''PhysicalStart: '' @ hex (le (take 8 (drop 32 r))) @ nl
     @ tab @ ''ResourceLength: '' @ hex (le (take 8 (drop 40 r))) @ nl"

definition print_hob :: "nat option \<Rightarrow> byte list \<Rightarrow> nat \<Rightarrow> nat \<Rightarrow> string res" where
  "print_hob hob0 dat offset HobType =
     (if HobType = EFI_HOB_TYPE_HANDOFF then and_then (rd dat offset HANDOFF_SIZE) (\<lambda>h. Inr (handoff_text h))
      else if HobType = EFI_HOB_TYPE_RESOURCE_DESCRIPTOR then (case hob0 of
        None \<Rightarrow> Inl OutOfBounds
      | Some hob \<Rightarrow>
          and_then (rd16 dat hob) (\<lambda>ty.
          and_then (rd16 dat (hob + 2)) (\<lambda>len.
          and_then (rd dat offset RESOURCE_SIZE) (\<lambda>r. Inr (resource_text ty len r)))))
      else Inr [])"

text \<open>
  The walk over the block by the lengths in its headers; \<open>DEBUG\<close> evaluates its arguments only
  when \<open>debug\<close> is set.
\<close>

function print_hobs :: "bool \<Rightarrow> nat option \<Rightarrow> byte list \<Rightarrow> nat \<Rightarrow> nat \<Rightarrow> string res" where
  "print_hobs debug hob0 dat len offset =
     (if offset < len then
        and_then (rd16 dat offset) (\<lambda>HobType.
        and_then (if debug then print_hob hob0 dat offset HobType else Inr []) (\<lambda>text.
        and_then (rd16 dat (offset + 2)) (\<lambda>HobLength.
        if HobLength = 0 then Inl Hangs
        else and_then (print_hobs debug hob0 dat len (offset + HobLength)) (\<lambda>rest. Inr (text @ rest)))))
      else Inr [])"
  by pat_completeness auto
termination by (relation "measure (\<lambda>(_, _, _, len, off). len - off)") auto

declare print_hobs.simps [simp del]

definition print_td_hob :: "bool \<Rightarrow> nat option \<Rightarrow> byte list \<Rightarrow> nat \<Rightarrow> string res" where
  "print_td_hob debug hob0 dat len =
     and_then (print_hobs debug hob0 dat len 0) (\<lambda>text.
       Inr ((if debug then ''Printing EFI handoff tables'' @ nl else []) @ text))"

text \<open>
  The loop writes the descriptors one after the other behind the handoff table. The result is
  the block and the text printed.
\<close>

definition create_td_hob :: "bool \<Rightarrow> nat option \<Rightarrow> byte list \<Rightarrow> (byte list \<times> string) res" where
  "create_td_hob debug hob0 dest =
     (if length dest < get_td_hob_size then Inl (Fail (-1))
      else and_then (wr dest 0 handoff_table) (\<lambda>dest.
        and_then (fold_res (\<lambda>i dest. wr dest (HANDOFF_SIZE + RESOURCE_SIZE * i)
            (resource_descriptor (resource_type ! i) (physical_start ! i) (resource_length ! i)))
          [0..<RESOURCE_DESCRIPTOR_LEN] dest) (\<lambda>dest.
        and_then (print_td_hob debug hob0 dest get_td_hob_size) (\<lambda>text. Inr (dest, text)))))"

section \<open>The registers\<close>

abbreviation sha384 :: evp_md where "sha384 \<equiv> EVP_sha384"

type_synonym tdx_state = "eventlog_t mstate"

abbreviation mr_add :: "digest \<Rightarrow> nat \<Rightarrow> string \<Rightarrow> byte list \<Rightarrow> string \<Rightarrow> tdx_state \<Rightarrow> tdx_state res" where
  "mr_add H idx name hash desc \<equiv> log_and_extend H tdx_evlog_add sha384 idx name hash desc"

abbreviation measures_mr :: "digest \<Rightarrow> nat \<Rightarrow> event list \<Rightarrow> tdx_state \<Rightarrow> tdx_state res" where
  "measures_mr H idx \<equiv> measures H tdx_evlog_add sha384 idx"

definition reset_mr :: "tdx_state \<Rightarrow> tdx_state" where
  "reset_mr s = s\<lparr>mr := zeros 48\<rparr>"

text \<open>The early exits, which free the indeterminate pointer.\<close>

definition early_out :: "bool \<Rightarrow> 'a res \<Rightarrow> 'a res" where
  "early_out stale m = (case m of Inl (Fail n) \<Rightarrow> Inl (if stale then OutOfBounds else Fail n) | _ \<Rightarrow> m)"

definition mr_separator :: "digest \<Rightarrow> nat \<Rightarrow> tdx_state \<Rightarrow> tdx_state res" where
  "mr_separator H idx s =
     and_then (hash_buf H sha384 (zeros 4) 4) (\<lambda>h. mr_add H idx ''EV_SEPARATOR'' h ''HASH(00000000)'' s)"

definition mr_action :: "digest \<Rightarrow> nat \<Rightarrow> string \<Rightarrow> tdx_state \<Rightarrow> tdx_state res" where
  "mr_action H idx a s =
     and_then (hash_buf H sha384 (bytes_of a) (length a)) (\<lambda>h. mr_add H idx ''EV_EFI_ACTION'' h a s)"

text \<open>MRSEAM and MRTD are set, not extended.\<close>

definition calculate_mrseam :: "digest \<Rightarrow> filesys \<Rightarrow> string \<Rightarrow> tdx_state \<Rightarrow> tdx_state res" where
  "calculate_mrseam H fs tdx_module s =
     and_then (fail_minus1 (hash_file H sha384 fs tdx_module)) (\<lambda>hash_mrseam.
     and_then (log_only tdx_evlog_add INDEX_MRSEAM ''TDX-Module'' hash_mrseam
        ''SEAMLDR Measurement: TDX-Module'' (reset_mr s)) (\<lambda>s.
       Inr (s\<lparr>mr := hash_mrseam\<rparr>)))"

definition calculate_mrtd ::
  "digest \<Rightarrow> filesys \<Rightarrow> byte list \<Rightarrow> string \<Rightarrow> string \<Rightarrow> tdx_state \<Rightarrow> tdx_state res" where
  "calculate_mrtd H fs digest0 ovmf_file qemu_version s =
     and_then (read_file fs ovmf_file) (\<lambda>ovmf_buf.
     and_then (measure_ovmf H digest0 ovmf_buf qemu_version) (\<lambda>hash_mrtd.
     and_then (log_only tdx_evlog_add INDEX_MRTD ''OVMF'' hash_mrtd
        ''TDX Module Measurement: Initial TD contents (OVMF)'' (reset_mr s)) (\<lambda>s.
       Inr (s\<lparr>mr := hash_mrtd\<rparr>))))"

text \<open>
  Without \<^verbatim>\<open>--verbose\<close>, as everywhere in these theories. With it, the printing of the block ends
  in the indeterminate pointer.
\<close>

definition measure_td_hob :: "digest \<Rightarrow> byte list \<Rightarrow> tdx_state \<Rightarrow> tdx_state res" where
  "measure_td_hob H stack s =
     and_then (create_td_hob False None stack) (\<lambda>(td_hob, _).
     and_then (hash_buf H sha384 td_hob get_td_hob_size) (\<lambda>h.
       mr_add H INDEX_RTMR0 ''TD Hob'' h ''TD Hob passed from host VMM to guest firmware'' s))"

definition measure_config_fv ::
  "digest \<Rightarrow> filesys \<Rightarrow> byte list \<Rightarrow> string option \<Rightarrow> tdx_state \<Rightarrow> tdx_state res" where
  "measure_config_fv H fs digest0 ovmf_file s =
     (case ovmf_file of None \<Rightarrow> Inr s
      | Some f \<Rightarrow>
          and_then (read_file fs f) (\<lambda>ovmf_buf.
          and_then (measure_cfv H digest0 ovmf_buf) (\<lambda>hash_cfv.
            mr_add H INDEX_RTMR0 ''Configuration FV'' hash_cfv ''Configuration Firmware Volume'' s)))"

definition calculate_rtmr0 ::
  "digest \<Rightarrow> filesys \<Rightarrow> bool \<Rightarrow> byte list \<Rightarrow> byte list \<Rightarrow> string option \<Rightarrow> acpi_files_t \<Rightarrow> string
    \<Rightarrow> char16 list \<Rightarrow> string list option \<Rightarrow> string option \<Rightarrow> string option \<Rightarrow> string option \<Rightarrow> string option
    \<Rightarrow> string option \<Rightarrow> tdx_state \<Rightarrow> tdx_state res" where
  "calculate_rtmr0 H fs stale_sep stack digest0 ovmf_file cfg ovmf_version boot_order bootxxxx
      secure_boot pk kek db dbx s =
     and_then (measure_td_hob H stack (reset_mr s)) (\<lambda>s.
     and_then (early_out stale_sep (measure_config_fv H fs digest0 ovmf_file s)) (\<lambda>s.
     and_then (early_out stale_sep
        (measure_secure_boot_variables H tdx_evlog_add sha384 INDEX_RTMR0 fs secure_boot pk kek db dbx s)) (\<lambda>s.
     and_then (mr_separator H INDEX_RTMR0 s) (\<lambda>s.
     and_then (calculate_acpi_tables H tdx_evlog_add sha384 INDEX_RTMR0 cfg s) (\<lambda>s.
     and_then (calculate_efi_boot_vars H tdx_evlog_add sha384 INDEX_RTMR0 fs boot_order bootxxxx s) (\<lambda>s.
       if ovmf_version = ''edk2-stable202408.01'' then mr_separator H INDEX_RTMR0 s else Inr s))))))"

text \<open>
  RTMR1. A failing image measurement and a failing dump jump to \<open>out\<close> with the return code 0
  of the call before them, so the caller is told of success: in the first case the register
  stays zero, in the second it holds the kernel only.
\<close>

definition prepare_td_kernel :: "filesys \<Rightarrow> string option \<Rightarrow> byte list \<Rightarrow> byte list res" where
  "prepare_td_kernel fs config_file buf =
     (case config_file of None \<Rightarrow> Inr buf
      | Some c \<Rightarrow> and_then (config_load fs zero_config c) (config_prepare_kernel_pecoff buf))"

definition calculate_rtmr1 ::
  "digest \<Rightarrow> disk \<Rightarrow> filesys \<Rightarrow> bool \<Rightarrow> bool \<Rightarrow> string \<Rightarrow> string option \<Rightarrow> string option \<Rightarrow> string
    \<Rightarrow> tdx_state \<Rightarrow> (tdx_state \<times> filesys) res" where
  "calculate_rtmr1 H disk fs st stale_sep kernel_file config_file dump_kernel_path ovmf_version s =
     and_then (early_out stale_sep (LoadPeImage fs kernel_file)) (\<lambda>kernel_buf.
     and_then (early_out stale_sep (prepare_td_kernel fs config_file kernel_buf)) (\<lambda>kernel_buf.
     case MeasurePeImage H sha384 st kernel_buf of
       Inl (Fail n) \<Rightarrow> if stale_sep then Inl OutOfBounds else Inr (reset_mr s, fs)
     | Inl e \<Rightarrow> Inl e
     | Inr hash_kernel \<Rightarrow>
       and_then (mr_add H INDEX_RTMR1 (basename kernel_file) hash_kernel ''Linux Kernel PE/COFF Image'' (reset_mr s)) (\<lambda>s.
       case (case dump_kernel_path of None \<Rightarrow> (0, fs) | Some p \<Rightarrow> write_file disk fs kernel_buf p) of (ret, fs) \<Rightarrow>
       if ret \<noteq> 0 then if stale_sep then Inl OutOfBounds else Inr (s, fs) else
       and_then (mr_action H INDEX_RTMR1 ''Calling EFI Application from Boot Option'' s) (\<lambda>s.
       and_then (if ovmf_version \<noteq> ''edk2-stable202408.01'' then mr_separator H INDEX_RTMR1 s else Inr s) (\<lambda>s.
       and_then (mr_action H INDEX_RTMR1 ''Exit Boot Services Invocation'' s) (\<lambda>s.
       and_then (mr_action H INDEX_RTMR1 ''Exit Boot Services Returned with Success'' s) (\<lambda>s.
         Inr (s, fs))))))))"

definition calculate_rtmr2 ::
  "digest \<Rightarrow> filesys \<Rightarrow> string \<Rightarrow> nat \<Rightarrow> tdx_state \<Rightarrow> tdx_state res" where
  "calculate_rtmr2 H fs cmdline_file trailing_zeros s =
     and_then (fail_minus1 (read_file fs cmdline_file)) (\<lambda>cmdline_buf.
     and_then (convert_to_char16 cmdline_buf (length cmdline_buf) trailing_zeros) (\<lambda>(wcmdline, cmdline_len).
     and_then (hash_buf H sha384 (char16_bytes wcmdline) cmdline_len) (\<lambda>h.
       mr_add H INDEX_RTMR2 ''EV_EVENT_TAG'' h cmdline_file (reset_mr s))))"

definition calculate_rtmr3 :: "tdx_state \<Rightarrow> tdx_state res" where
  "calculate_rtmr3 s = Inr (reset_mr s)"

end
