(* ===== verification/TdxSpec.thy ===== *)
theory TdxSpec
  imports TdxMrs
begin

text \<open>
  The specification of \<^verbatim>\<open>src/calculate-tdx-mrs/mrs.c\<close>: RTMR0, RTMR1 and RTMR2 are the replay
  of explicit event lists under SHA-384, with the differences between the firmware versions
  written out. The TD handoff block is compared with an independent reader of such blocks, its
  debug listing reads an indeterminate pointer, and a kernel that is no PE image or cannot be
  dumped leaves an incomplete register.
\<close>

section \<open>The handoff block\<close>

definition td_hob_bytes :: "byte list" where
  "td_hob_bytes = handoff_table @ concat (map (\<lambda>i.
     resource_descriptor (resource_type ! i) (physical_start ! i) (resource_length ! i)) [0..<9])"

lemma length_handoff_table [simp]: "length handoff_table = 56"
  by (simp add: handoff_table_def EFI_HOB_GENERIC_HEADER_def)

lemma length_resource_descriptor [simp]: "length (resource_descriptor t p l) = 48"
  by (simp add: resource_descriptor_def EFI_HOB_GENERIC_HEADER_def)

lemma td_hob_size: "get_td_hob_size = 488"
  by (simp add: get_td_hob_size_def HANDOFF_SIZE_def RESOURCE_SIZE_def RESOURCE_DESCRIPTOR_LEN_def)

text \<open>A loop that fills a buffer with records of one size.\<close>

lemma fold_res_fill:
  assumes "\<And>i. length (f i) = k" and "length pre + k * n + length rest = length buf"
    and "buf = pre @ mid @ rest" and "length mid = k * n"
  shows "fold_res (\<lambda>i b. wr b (length pre + k * i) (f i)) [0..<n] buf
    = Inr (pre @ concat (map f [0..<n]) @ rest)"
  using assms(2-4)
proof (induction n arbitrary: buf mid rest)
  case (Suc n)
  let ?mid = "take (k * n) mid" and ?last = "drop (k * n) mid"
  have "fold_res (\<lambda>i b. wr b (length pre + k * i) (f i)) [0..<n] buf
      = Inr (pre @ concat (map f [0..<n]) @ ?last @ rest)"
    by (rule Suc.IH [of "?last @ rest" buf ?mid]) (use Suc.prems in \<open>simp_all add: append_assoc [symmetric] del: append_assoc\<close>)
  moreover have "wr (pre @ concat (map f [0..<n]) @ ?last @ rest) (length pre + k * n) (f n)
      = Inr (pre @ concat (map f [0..<n]) @ f n @ rest)"
  proof -
    have len: "length (concat (map f [0..<n])) = k * n"
      by (induction n) (simp_all add: assms(1))
    have "length ?last = k" using Suc.prems(3) by simp
    then show ?thesis by (simp add: wr_def len assms(1))
  qed
  ultimately show ?case by (simp add: fold_res_append)
qed simp

lemma fill_td_hob:
  assumes "length dest = get_td_hob_size"
  shows "and_then (wr dest 0 handoff_table) (\<lambda>dest.
      fold_res (\<lambda>i dest. wr dest (HANDOFF_SIZE + RESOURCE_SIZE * i)
        (resource_descriptor (resource_type ! i) (physical_start ! i) (resource_length ! i)))
      [0..<RESOURCE_DESCRIPTOR_LEN] dest) = Inr td_hob_bytes"
proof -
  have len: "length dest = 488" using assms td_hob_size by simp
  have w: "wr dest 0 handoff_table = Inr (handoff_table @ drop 56 dest)"
    using len by (simp add: wr_def)
  have f: "fold_res (\<lambda>i d. wr d (length handoff_table + 48 * i)
        (resource_descriptor (resource_type ! i) (physical_start ! i) (resource_length ! i))) [0..<9]
        (handoff_table @ drop 56 dest)
      = Inr (handoff_table @ concat (map (\<lambda>i. resource_descriptor (resource_type ! i) (physical_start ! i)
          (resource_length ! i)) [0..<9]) @ [])"
    by (rule fold_res_fill [where mid = "drop 56 dest"]) (use len in simp_all)
  show ?thesis
    unfolding td_hob_bytes_def HANDOFF_SIZE_def RESOURCE_SIZE_def RESOURCE_DESCRIPTOR_LEN_def
    using w f by simp
qed

lemma create_td_hob_eq:
  assumes "length dest = get_td_hob_size"
  shows "create_td_hob debug hob0 dest
    = and_then (print_td_hob debug hob0 td_hob_bytes get_td_hob_size) (\<lambda>text. Inr (td_hob_bytes, text))"
  using arg_cong [OF fill_td_hob [OF assms], of "\<lambda>m. and_then m (\<lambda>dest.
      and_then (print_td_hob debug hob0 dest get_td_hob_size) (\<lambda>text. Inr (dest, text)))"] assms
  by (simp add: create_td_hob_def and_then_assoc)

lemma length_td_hob_bytes: "length td_hob_bytes = get_td_hob_size"
  by (simp add: td_hob_bytes_def length_concat comp_def sum_list_triv td_hob_size)

text \<open>
  A block of records each of which starts with its type and its length is walked record by
  record.
\<close>

definition hob_type :: "byte list \<Rightarrow> nat" where "hob_type r = le (take 2 r)"

definition hob_ok :: "byte list \<Rightarrow> bool" where
  "hob_ok r \<longleftrightarrow> 4 \<le> length r \<and> le (take 2 (drop 2 r)) = length r"

lemma read_hob:
  assumes "hob_ok r"
  shows "rd16 (pre @ r @ post) (length pre) = Inr (hob_type r)"
    "rd16 (pre @ r @ post) (length pre + 2) = Inr (length r)"
  using assms by (simp_all add: hob_ok_def rd16_def hob_type_def)

lemma print_records:
  assumes "list_all hob_ok rs" and "dat = pre @ concat rs"
    and "\<And>pre r post. \<lbrakk>r \<in> set rs; dat = pre @ r @ post\<rbrakk> \<Longrightarrow>
      (if debug then print_hob hob0 dat (length pre) (hob_type r) else Inr []) = Inr (f r)"
  shows "print_hobs debug hob0 dat (length dat) (length pre) = Inr (concat (map f rs))"
  using assms
proof (induction rs arbitrary: pre)
  case (Cons r rs)
  have r: "hob_ok r" "0 < length r" using Cons.prems(1) by (auto simp: hob_ok_def)
  have d: "dat = pre @ r @ concat rs" using Cons.prems(2) by simp
  have "print_hobs debug hob0 dat (length dat) (length (pre @ r)) = Inr (concat (map f rs))"
    by (rule Cons.IH) (use Cons.prems in auto)
  then show ?case
    using r read_hob [OF r(1), of pre "concat rs"] Cons.prems(3) [OF _ d] d
    by (subst print_hobs.simps) auto
qed (simp add: print_hobs.simps)

lemma handoff_hob: "hob_ok handoff_table" "hob_type handoff_table = 1"
  by (simp_all add: hob_ok_def hob_type_def handoff_table_def EFI_HOB_GENERIC_HEADER_def le_to_le_small
      HANDOFF_SIZE_def EFI_HOB_TYPE_HANDOFF_def)

lemma resource_hob: "hob_ok (resource_descriptor t p l)" "hob_type (resource_descriptor t p l) = 3"
  by (simp_all add: hob_ok_def hob_type_def resource_descriptor_def EFI_HOB_GENERIC_HEADER_def le_to_le_small
      RESOURCE_SIZE_def EFI_HOB_TYPE_RESOURCE_DESCRIPTOR_def)

definition td_hob_records :: "byte list list" where
  "td_hob_records = handoff_table # map (\<lambda>i.
     resource_descriptor (resource_type ! i) (physical_start ! i) (resource_length ! i)) [0..<9]"

lemma td_hob_records: "td_hob_bytes = concat td_hob_records" "list_all hob_ok td_hob_records"
  by (simp_all add: td_hob_bytes_def td_hob_records_def list_all_iff handoff_hob resource_hob)

text \<open>Without debug output nothing is read through the indeterminate pointer.\<close>

lemma print_td_hob_quiet: "print_td_hob False hob0 td_hob_bytes get_td_hob_size = Inr []"
  using print_records [OF td_hob_records(2), of td_hob_bytes "[]" False hob0 "\<lambda>_. []"]
  by (simp add: print_td_hob_def td_hob_records(1) [symmetric] length_td_hob_bytes)

lemma create_td_hob_aux:
  "length dest = get_td_hob_size \<Longrightarrow> create_td_hob False hob0 dest = Inr (td_hob_bytes, [])"
  by (simp add: create_td_hob_eq print_td_hob_quiet)

section \<open>The handoff block as the firmware reads it\<close>

text \<open>
  A reader of handoff blocks, written down from the structures of the Platform Initialization
  specification: records of the type 1 have 56 bytes, those of the type 3 have 48.
\<close>

datatype hob =
    Handoff (hob_version: nat) (hob_boot_mode: nat) (hob_addresses: "nat list")
  | Resource (hob_owner: "byte list") (hob_resource: nat) (hob_attributes: nat) (hob_start: nat) (hob_size: nat)

definition le_at :: "nat \<Rightarrow> nat \<Rightarrow> byte list \<Rightarrow> nat" where
  "le_at off w r = le (take w (drop off r))"

definition parse_hob :: "byte list \<Rightarrow> hob option" where
  "parse_hob r =
     (if le_at 0 2 r = 1 \<and> length r = 56
      then Some (Handoff (le_at 8 4 r) (le_at 12 4 r) [le_at 16 8 r, le_at 24 8 r, le_at 32 8 r, le_at 40 8 r, le_at 48 8 r])
      else if le_at 0 2 r = 3 \<and> length r = 48
      then Some (Resource (take 16 (drop 8 r)) (le_at 24 4 r) (le_at 28 4 r) (le_at 32 8 r) (le_at 40 8 r))
      else None)"

fun parse_hobs :: "nat \<Rightarrow> byte list \<Rightarrow> hob list option" where
  "parse_hobs 0 bs = (if bs = [] then Some [] else None)"
| "parse_hobs (Suc n) bs =
     (let len = le_at 2 2 bs in
      if length bs < 8 \<or> length bs < len then None
      else case parse_hob (take len bs) of None \<Rightarrow> None
           | Some h \<Rightarrow> map_option (Cons h) (parse_hobs n (drop len bs)))"

lemma parse_records:
  "list_all (\<lambda>r. hob_ok r \<and> 8 \<le> length r \<and> parse_hob r = Some (f r)) rs
    \<Longrightarrow> parse_hobs (length rs) (concat rs) = Some (map f rs)"
  by (induction rs) (auto simp: hob_ok_def le_at_def)

lemma parse_handoff: "parse_hob handoff_table = Some (Handoff 9 0 [0, 0, 0, 0, 0x8091f0])"
  by (simp add: parse_hob_def le_at_def handoff_table_def EFI_HOB_GENERIC_HEADER_def
      EFI_HOB_TYPE_HANDOFF_def EFI_HOB_HANDOFF_TABLE_VERSION_def BOOT_WITH_FULL_CONFIGURATION_def)

lemma parse_resource:
  assumes "t < 2 ^ 32" "p < 2 ^ 64" "l < 2 ^ 64"
  shows "parse_hob (resource_descriptor t p l) = Some (Resource (zeros 16) t 7 p l)"
  using assms le_to_le_small [of t 4] le_to_le_small [of p 8] le_to_le_small [of l 8]
  by (simp add: parse_hob_def le_at_def resource_descriptor_def EFI_HOB_GENERIC_HEADER_def
      EFI_HOB_TYPE_RESOURCE_DESCRIPTOR_def EFI_RESOURCE_ATTRIBUTES_def zeros_def)

text \<open>
  The memory map of the virtual machine: the type of each region (0: system memory, 7: memory
  that is not yet accepted), its first address and the first address behind it.
\<close>

definition td_memory_map :: "(nat \<times> nat \<times> nat) list" where
  "td_memory_map =
     [(7, 0x0, 0x800000), (0, 0x800000, 0x806000), (7, 0x806000, 0x809000), (0, 0x809000, 0x80b000),
      (0, 0x80b000, 0x80d000), (7, 0x80d000, 0x811000), (0, 0x811000, 0x820000),
      (7, 0x820000, 0x80000000), (7, 0x100000000, 0x180000000)]"

lemma td_hob_records_map:
  "td_hob_records = handoff_table # map (\<lambda>(t, a, b). resource_descriptor t a (b - a)) td_memory_map"
proof -
  have "[0..<9] = [0, 1, 2, 3, 4, 5, 6, 7, 8]" by code_simp
  then show ?thesis
    by (simp add: td_hob_records_def td_memory_map_def resource_type_def physical_start_def resource_length_def
        EFI_RESOURCE_SYSTEM_MEMORY_def EFI_RESOURCE_MEMORY_UNACCEPTED_def)
qed

lemma td_hob_parsed:
  "parse_hobs 10 td_hob_bytes = Some (Handoff 9 0 [0, 0, 0, 0, 0x8091f0]
     # map (\<lambda>(t, a, b). Resource (zeros 16) t 7 a (b - a)) td_memory_map)"
proof -
  have p: "parse_hob (resource_descriptor t a (b - a)) = Some (Resource (zeros 16) t 7 a (b - a))"
    if "(t, a, b) \<in> set td_memory_map" for t a b
    using that by (intro parse_resource) (auto simp: td_memory_map_def)
  have "parse_hobs (length td_hob_records) (concat td_hob_records) = Some (map (the \<circ> parse_hob) td_hob_records)"
    by (rule parse_records)
      (auto simp: td_hob_records_map list_all_iff handoff_hob resource_hob parse_handoff p)
  also have "map (the \<circ> parse_hob) td_hob_records = Handoff 9 0 [0, 0, 0, 0, 0x8091f0]
     # map (\<lambda>(t, a, b). Resource (zeros 16) t 7 a (b - a)) td_memory_map"
    by (auto simp: td_hob_records_map parse_handoff p)
  finally show ?thesis by (simp add: td_hob_records(1) td_hob_records_def)
qed

text \<open>
  C31. Whatever the buffer holds, the TD handoff block that is built in it fills it exactly, and
  reading it back record by record gives the handoff table and the memory map of the machine:
  nine regions without gap or overlap up to 2 GiB and one from 4 GiB to 6 GiB. The end address
  in the table is that of the block at 0x809000 with its end marker of 8 bytes.
\<close>

theorem create_td_hob_layout:
  assumes "length dest = get_td_hob_size"
  shows "\<exists>hob. create_td_hob False hob0 dest = Inr (hob, []) \<and> length hob = get_td_hob_size
    \<and> parse_hobs 10 hob = Some (Handoff 9 0 [0, 0, 0, 0, 0x809000 + get_td_hob_size + 8]
        # map (\<lambda>(t, a, b). Resource (zeros 16) t 7 a (b - a)) td_memory_map)"
  using create_td_hob_aux [OF assms, of hob0] td_hob_parsed by (simp add: length_td_hob_bytes td_hob_size)

theorem create_td_hob_layout_witness:
  "\<exists>hob. create_td_hob False None (replicate 488 0xCC) = Inr (hob, []) \<and> length hob = get_td_hob_size
    \<and> parse_hobs 10 hob = Some (Handoff 9 0 [0, 0, 0, 0, 0x809000 + get_td_hob_size + 8]
        # map (\<lambda>(t, a, b). Resource (zeros 16) t 7 a (b - a)) td_memory_map)"
  by (rule create_td_hob_layout) (simp add: td_hob_size)

section \<open>The listing of the handoff block\<close>

lemma print_handoff:
  assumes "length h = HANDOFF_SIZE"
  shows "print_hob hob0 (pre @ h @ post) (length pre) 1 = Inr (handoff_text h)"
  using assms by (simp add: print_hob_def EFI_HOB_TYPE_HANDOFF_def rd_def)

lemma print_resource:
  assumes "length r = RESOURCE_SIZE" and "dat = pre @ r @ post"
    and "rd16 dat 0 = Inr t" "rd16 dat 2 = Inr l"
  shows "print_hob (Some 0) dat (length pre) 3 = Inr (resource_text t l r)"
  using assms by (simp add: print_hob_def EFI_HOB_TYPE_HANDOFF_def EFI_HOB_TYPE_RESOURCE_DESCRIPTOR_def rd_def numeral_2_eq_2)

text \<open>
  C32. With debug output, building the block ends in undefined behaviour: the listing reads
  the type and length of the first resource descriptor through a pointer that is only set for
  the handoff table. Where the pointer keeps its value from the previous record, the listing
  claims the type 1 and the length 56 of the handoff table for every resource descriptor.
\<close>

theorem print_td_hob_indeterminate:
  assumes "length dest = get_td_hob_size"
  shows "create_td_hob True None dest = Inl OutOfBounds
    \<and> create_td_hob True (Some 0) dest = Inr (td_hob_bytes, ''Printing EFI handoff tables'' @ nl
        @ handoff_text handoff_table @ concat (map (\<lambda>(t, a, b). resource_text 1 56 (resource_descriptor t a (b - a))) td_memory_map))"
proof
  let ?rs = "map (\<lambda>(t, a, b). resource_descriptor t a (b - a)) td_memory_map"
  let ?f = "\<lambda>r. if hob_type r = 1 then handoff_text r else resource_text 1 56 r"
  have b: "td_hob_bytes = handoff_table @ concat ?rs" by (simp add: td_hob_records(1) td_hob_records_map)
  have l: "length handoff_table = HANDOFF_SIZE" "length (resource_descriptor t a n) = RESOURCE_SIZE" for t a n
    by (simp_all add: HANDOFF_SIZE_def RESOURCE_SIZE_def)
  have h: "rd16 td_hob_bytes 0 = Inr 1" "rd16 td_hob_bytes 2 = Inr 56"
    using read_hob [OF handoff_hob(1), of "[]"] handoff_hob(2) by (simp_all add: b numeral_2_eq_2)
  show "create_td_hob True (Some 0) dest = Inr (td_hob_bytes, ''Printing EFI handoff tables'' @ nl
      @ handoff_text handoff_table @ concat (map (\<lambda>(t, a, b). resource_text 1 56 (resource_descriptor t a (b - a))) td_memory_map))"
  proof -
    have "print_hobs True (Some 0) td_hob_bytes (length td_hob_bytes) (length ([] :: byte list)) = Inr (concat (map ?f td_hob_records))"
    proof (rule print_records [OF td_hob_records(2)])
      fix pre r post assume r: "r \<in> set td_hob_records" "td_hob_bytes = pre @ r @ post"
      show "(if True then print_hob (Some 0) td_hob_bytes (length pre) (hob_type r) else Inr []) = Inr (?f r)"
        using r(1) print_handoff [OF l(1), of "Some 0" pre post] print_resource [OF l(2) _ h, of pre _ _ _ post] r(2)
        by (auto simp: td_hob_records_map handoff_hob resource_hob)
    qed (simp add: td_hob_records(1))
    then show ?thesis
      by (simp add: create_td_hob_eq [OF assms] print_td_hob_def length_td_hob_bytes td_hob_records_map
          handoff_hob resource_hob comp_def case_prod_unfold)
  qed
  have "print_hob None td_hob_bytes 0 1 = Inr (handoff_text handoff_table)"
    using print_handoff [OF l(1), of None "[]"] by (simp add: b)
  moreover have "rd16 td_hob_bytes 56 = Inr 3"
    using read_hob(1) [OF resource_hob(1), of handoff_table 7 0 "0x800000"] by (simp add: b td_memory_map_def resource_hob)
  ultimately have "print_hobs True None td_hob_bytes 488 0 = Inl OutOfBounds"
    using h by (simp add: print_hobs.simps [of _ _ _ _ 0] print_hobs.simps [of _ _ _ _ 56] print_hob_def
        EFI_HOB_TYPE_HANDOFF_def EFI_HOB_TYPE_RESOURCE_DESCRIPTOR_def numeral_2_eq_2)
  then show "create_td_hob True None dest = Inl OutOfBounds"
    by (simp add: create_td_hob_eq [OF assms] print_td_hob_def td_hob_size)
qed

theorem print_td_hob_indeterminate_witness:
  "create_td_hob True None (replicate 488 0xCC) = Inl OutOfBounds
    \<and> create_td_hob True (Some 0) (replicate 488 0xCC) = Inr (td_hob_bytes, ''Printing EFI handoff tables'' @ nl
        @ handoff_text handoff_table @ concat (map (\<lambda>(t, a, b). resource_text 1 56 (resource_descriptor t a (b - a))) td_memory_map))"
  by (rule print_td_hob_indeterminate) (simp add: td_hob_size)

section \<open>Shared lemmas\<close>

lemma tdx_add_not_Fail: "tdx_evlog_add l i n h d \<noteq> Inl (Fail k)"
  by (auto simp: tdx_evlog_add_def append_slot_def rd_def)

lemma measures_mr_not_Fail: "measures_mr H i evs s \<noteq> Inl (Fail k)"
proof -
  have "log_events tdx_evlog_add i evs l \<noteq> Inl (Fail k)" for l
  proof (induction evs arbitrary: l)
    case (Cons e evs)
    obtain n h d where e: "e = (n, h, d)" by (cases e)
    show ?case
      using Cons.IH tdx_add_not_Fail [of l i n h d k]
      by (cases "tdx_evlog_add l i n h d") (auto simp: e)
  qed simp
  then show ?thesis by (cases "log_events tdx_evlog_add i evs (evlog s)") (auto simp: measures_def)
qed

lemma early_out_simps [simp]:
  "early_out st (Inr x) = Inr x"
  "early_out st (measures_mr H i evs s) = measures_mr H i evs s"
  using measures_mr_not_Fail [of H i evs s]
  by (simp add: early_out_def, cases "measures_mr H i evs s") (auto simp: early_out_def split: fault.splits)

lemma reset_mr_facts [simp]: "length (mr (reset_mr s)) = 48" "evlog (reset_mr s) = evlog s"
  by (simp_all add: reset_mr_def)

definition mr_separator_event :: "digest \<Rightarrow> event" where
  "mr_separator_event H = (''EV_SEPARATOR'', H sha384 (zeros 4), ''HASH(00000000)'')"

definition mr_action_event :: "digest \<Rightarrow> string \<Rightarrow> event" where
  "mr_action_event H a = (''EV_EFI_ACTION'', H sha384 (bytes_of a), a)"

lemma mr_step_measures:
  assumes "digest_ok H" "length (mr s) = 48"
  shows "mr_separator H idx s = measures_mr H idx [mr_separator_event H] s"
    and "mr_action H idx a s = measures_mr H idx [mr_action_event H a] s"
  using assms
  by (simp_all add: mr_separator_def mr_action_def mr_separator_event_def mr_action_event_def
      hash_buf_def log_and_extend_measures)

text \<open>Steps in sequence, each a list of events.\<close>

lemma then_measures:
  assumes "digest_ok H" and "length (mr s) = 48" and "m = measures_mr H i xs s"
    and "\<And>s'. length (mr s') = 48 \<Longrightarrow> g s' = measures_mr H i ys s'"
  shows "and_then m g = measures_mr H i (xs @ ys) s"
  unfolding assms(3) by (rule and_then_measures [OF assms(1)]) (simp_all add: assms)

section \<open>RTMR0\<close>

definition cfv_event :: "digest \<Rightarrow> byte list \<Rightarrow> event" where
  "cfv_event H h = (''Configuration FV'', h, ''Configuration Firmware Volume'')"

definition rtmr0_events ::
  "digest \<Rightarrow> filesys \<Rightarrow> byte list option \<Rightarrow> acpi_files_t \<Rightarrow> string \<Rightarrow> char16 list \<Rightarrow> string list option
    \<Rightarrow> string option \<Rightarrow> string option \<Rightarrow> string option \<Rightarrow> string option \<Rightarrow> string option \<Rightarrow> event list" where
  "rtmr0_events H fs cfv cfg ovmf_version order boots secure_boot pk kek db dbx =
     [(''TD Hob'', H sha384 td_hob_bytes, ''TD Hob passed from host VMM to guest firmware'')]
     @ (case cfv of None \<Rightarrow> [] | Some h \<Rightarrow> [cfv_event H h])
     @ secure_boot_events H sha384 fs secure_boot pk kek db dbx
     @ [mr_separator_event H]
     @ acpi_events H sha384 cfg
     @ boot_var_events H sha384 fs order boots
     @ (if ovmf_version = ''edk2-stable202408.01'' then [mr_separator_event H] else [])"

text \<open>The digest of the configuration volume, where a firmware file is given.\<close>

definition cfv_digest :: "digest \<Rightarrow> filesys \<Rightarrow> byte list \<Rightarrow> string option \<Rightarrow> byte list option \<Rightarrow> bool" where
  "cfv_digest H fs digest0 ovmf_file cfv \<longleftrightarrow>
     (case (ovmf_file, cfv) of (None, None) \<Rightarrow> True
      | (Some f, Some h) \<Rightarrow> length h = 48
          \<and> (case fs f of None \<Rightarrow> False | Some b \<Rightarrow> measure_cfv H digest0 b = Inr h)
      | _ \<Rightarrow> False)"

lemma measure_config_fv_measures:
  assumes "digest_ok H" "length (mr s) = 48" and c: "cfv_digest H fs digest0 ovmf_file cfv"
  shows "measure_config_fv H fs digest0 ovmf_file s
    = measures_mr H INDEX_RTMR0 (case cfv of None \<Rightarrow> [] | Some h \<Rightarrow> [cfv_event H h]) s"
  using assms
  by (auto simp: measure_config_fv_def cfv_digest_def cfv_event_def read_file_def log_and_extend_measures
      split: option.splits)

lemma measure_td_hob_measures:
  assumes "digest_ok H" "length (mr s) = 48" "length stack = get_td_hob_size"
  shows "measure_td_hob H stack s = measures_mr H INDEX_RTMR0
    [(''TD Hob'', H sha384 td_hob_bytes, ''TD Hob passed from host VMM to guest firmware'')] s"
  using assms create_td_hob_aux [OF assms(3)]
  by (simp add: measure_td_hob_def hash_buf_def log_and_extend_measures length_td_hob_bytes)

lemma calculate_rtmr0_aux:
  assumes H: "digest_ok H" and "length stack = get_td_hob_size"
    and "cfv_digest H fs digest0 ovmf_file cfv"
    and "list_all (var_file_ok fs) [secure_boot, pk, kek, db, dbx]"
    and "acpi_ok cfg" and "boot_files_ok fs boots"
  shows "calculate_rtmr0 H fs stale_sep stack digest0 ovmf_file cfg ovmf_version order boots
      secure_boot pk kek db dbx s
    = measures_mr H INDEX_RTMR0
        (rtmr0_events H fs cfv cfg ovmf_version order boots secure_boot pk kek db dbx) (reset_mr s)"
  unfolding calculate_rtmr0_def rtmr0_events_def
  by (intro then_measures [OF H] measure_td_hob_measures H assms)
    (auto simp: measure_config_fv_measures [OF H _ assms(3)]
      measure_secure_boot_variables_measures [OF H assms(4), where md = sha384, simplified]
      calculate_acpi_tables_measures [OF H assms(5), where md = sha384, simplified]
      calculate_efi_boot_vars_measures [OF H assms(6), where md = sha384, simplified]
      mr_step_measures [OF H])

text \<open>
  C12. RTMR0 measures the TD handoff block, the configuration volume when a firmware file is
  given, the five secure-boot variables, the separator, the ACPI blobs and the boot variables,
  and a second separator for the one firmware version that extends it; for well-formed inputs
  the register is the replay of these events and the log records exactly them.
\<close>

theorem calculate_rtmr0_measures:
  assumes H: "digest_ok H" and "length stack = get_td_hob_size"
    and "cfv_digest H fs digest0 ovmf_file cfv"
    and "list_all (var_file_ok fs) [secure_boot, pk, kek, db, dbx]"
    and "acpi_ok cfg" and "boot_files_ok fs boots"
  shows "calculate_rtmr0 H fs stale_sep stack digest0 ovmf_file cfg ovmf_version order boots
      secure_boot pk kek db dbx s
    = measures_mr H INDEX_RTMR0
        (rtmr0_events H fs cfv cfg ovmf_version order boots secure_boot pk kek db dbx) (reset_mr s)"
  using assms by (rule calculate_rtmr0_aux)

definition init_tdx :: tdx_state where
  "init_tdx = \<lparr>mr = zeros 48, evlog = empty_log FORMAT_JSON MR_LEN\<rparr>"

theorem calculate_rtmr0_measures_witness:
  "calculate_rtmr0 sum_digest [''fd'' \<mapsto> sample_td 8 16 0x1000 1, ''db.var'' \<mapsto> [7, 0, 0, 0, 1, 2]] True
      (replicate 488 9) [] (Some ''fd'') no_acpi ''edk2-stable202502'' [0] None None None None (Some ''db.var'') None init_tdx
   = measures_mr sum_digest INDEX_RTMR0
      (rtmr0_events sum_digest [''fd'' \<mapsto> sample_td 8 16 0x1000 1, ''db.var'' \<mapsto> [7, 0, 0, 0, 1, 2]]
        (Some (sum_digest sha384 (take 16 (drop 8 (sample_td 8 16 0x1000 1))))) no_acpi ''edk2-stable202502'' [0] None
        None None None (Some ''db.var'') None) (reset_mr init_tdx)"
proof (rule calculate_rtmr0_measures [OF sum_digest_ok])
  show "cfv_digest sum_digest [''fd'' \<mapsto> sample_td 8 16 0x1000 1, ''db.var'' \<mapsto> [7, 0, 0, 0, 1, 2]] []
      (Some ''fd'') (Some (sum_digest sha384 (take 16 (drop 8 (sample_td 8 16 0x1000 1)))))"
    using sample_td_cfv by (simp add: cfv_digest_def length_digest [OF sum_digest_ok])
qed (simp_all add: td_hob_size var_file_ok_def acpi_ok_def no_acpi_def boot_files_ok_def)

section \<open>RTMR1 and RTMR2\<close>

definition td_kernel_image :: "filesys \<Rightarrow> string option \<Rightarrow> string \<Rightarrow> byte list option" where
  "td_kernel_image fs config_file k = (case fs k of None \<Rightarrow> None
     | Some b \<Rightarrow> (case prepare_td_kernel fs config_file b of Inl e \<Rightarrow> None | Inr b' \<Rightarrow> Some b'))"

definition rtmr1_events :: "digest \<Rightarrow> byte list \<Rightarrow> string \<Rightarrow> string \<Rightarrow> event list" where
  "rtmr1_events H image_bytes kernel_file ovmf_version =
     [(basename kernel_file, H sha384 (authenticode_stream image_bytes), ''Linux Kernel PE/COFF Image'')]
     @ [mr_action_event H ''Calling EFI Application from Boot Option'']
     @ (if ovmf_version \<noteq> ''edk2-stable202408.01'' then [mr_separator_event H] else [])
     @ [mr_action_event H ''Exit Boot Services Invocation'']
     @ [mr_action_event H ''Exit Boot Services Returned with Success'']"

lemma td_kernel_imageD:
  assumes "td_kernel_image fs cf k = Some b"
  obtains b0 where "fs k = Some b0" and "prepare_td_kernel fs cf b0 = Inr b"
  using assms by (auto simp: td_kernel_image_def split: option.splits sum.splits)

lemma calculate_rtmr1_aux:
  assumes H: "digest_ok H" and "td_kernel_image fs cf k = Some b" and "measurable b" and "dump_ok disk b dump"
  shows "calculate_rtmr1 H disk fs st stale_sep k cf dump ver s
    = and_then (measures_mr H INDEX_RTMR1 (rtmr1_events H b k ver) (reset_mr s)) (\<lambda>s. Inr (s, dumped b dump fs))"
proof -
  obtain b0 where b0: "fs k = Some b0" "prepare_td_kernel fs cf b0 = Inr b"
    using assms(2) by (rule td_kernel_imageD)
  have w: "(case dump of None \<Rightarrow> (0, fs) | Some p \<Rightarrow> write_file disk fs b p) = (0, dumped b dump fs)"
    using assms(4) by (cases dump) (simp_all add: write_file_dumped)
  let ?tail = "\<lambda>s. and_then (mr_action H INDEX_RTMR1 ''Calling EFI Application from Boot Option'' s) (\<lambda>s.
       and_then (if ver \<noteq> ''edk2-stable202408.01'' then mr_separator H INDEX_RTMR1 s else Inr s) (\<lambda>s.
       and_then (mr_action H INDEX_RTMR1 ''Exit Boot Services Invocation'' s)
         (mr_action H INDEX_RTMR1 ''Exit Boot Services Returned with Success'')))"
  have all: "and_then (mr_add H INDEX_RTMR1 (basename k) (H sha384 (authenticode_stream b))
        ''Linux Kernel PE/COFF Image'' (reset_mr s)) ?tail
      = measures_mr H INDEX_RTMR1 (rtmr1_events H b k ver) (reset_mr s)"
    unfolding rtmr1_events_def
    by (intro then_measures [OF H]) (auto simp: log_and_extend_measures H mr_step_measures [OF H])
  show ?thesis
    unfolding all [symmetric] calculate_rtmr1_def
    using b0 by (simp add: LoadPeImage_def MeasurePeImage_measurable [OF assms(3)] and_then_assoc w)
qed

text \<open>
  C33. RTMR1 measures the Authenticode digest of the kernel as the boot loader leaves it in
  memory, the boot action, the separator unless the firmware is edk2-stable202408.01, and the
  two exit-boot-services actions; and a dump, if requested, is the measured image.
\<close>

theorem calculate_rtmr1_measures:
  assumes H: "digest_ok H" and "td_kernel_image fs cf k = Some b" and "measurable b" and "dump_ok disk b dump"
  shows "calculate_rtmr1 H disk fs st stale_sep k cf dump ver s
    = and_then (measures_mr H INDEX_RTMR1 (rtmr1_events H b k ver) (reset_mr s)) (\<lambda>s. Inr (s, dumped b dump fs))"
  using assms by (rule calculate_rtmr1_aux)

theorem calculate_rtmr1_measures_witness:
  "calculate_rtmr1 sum_digest (\<lambda>_. Some 10000) [''/boot/k'' \<mapsto> sample_unsigned] False True ''/boot/k'' None (Some ''dump'')
      ''edk2-stable202502'' init_tdx
   = and_then (measures_mr sum_digest INDEX_RTMR1 (rtmr1_events sum_digest sample_unsigned ''/boot/k'' ''edk2-stable202502'')
        (reset_mr init_tdx))
      (\<lambda>s. Inr (s, dumped sample_unsigned (Some ''dump'') [''/boot/k'' \<mapsto> sample_unsigned]))"
  by (rule calculate_rtmr1_measures [OF sum_digest_ok])
    (simp_all add: td_kernel_image_def prepare_td_kernel_def sample_signed_measurable dump_ok_def)

text \<open>
  C40. A dump of the kernel that cannot be written ends the calculation of RTMR1 behind the
  kernel event, with the return code 0 of an earlier call: the caller is told of success and
  gets the replay of the kernel alone, without the actions and the separator (unless the
  uninitialised pointer that the exit frees happens to be non-null).
\<close>

theorem calculate_rtmr1_dump_failed:
  assumes H: "digest_ok H" and k: "td_kernel_image fs cf k = Some b" and b: "measurable b"
    and d: "\<not> dump_ok disk b dump" and wf: "tdx_wf (evlog s)"
  shows "if stale_sep then calculate_rtmr1 H disk fs st stale_sep k cf dump ver s = Inl OutOfBounds
    else (\<exists>s' fs'. calculate_rtmr1 H disk fs st stale_sep k cf dump ver s = Inr (s', fs')
      \<and> mr s' = Hash.extend H sha384 (zeros 48) (H sha384 (authenticode_stream b))
      \<and> slot_text (evlog s') INDEX_RTMR1 = slot_text (evlog s) INDEX_RTMR1
          @ tdx_log_entry (evlog s) INDEX_RTMR1 (basename k) (H sha384 (authenticode_stream b)) ''Linux Kernel PE/COFF Image'')"
proof -
  obtain b0 where b0: "fs k = Some b0" "prepare_td_kernel fs cf b0 = Inr b"
    using k by (rule td_kernel_imageD)
  let ?ev = "(basename k, H sha384 (authenticode_stream b), ''Linux Kernel PE/COFF Image'')"
  obtain p where p: "dump = Some p" using d by (cases dump) auto
  obtain ret fs' where w: "write_file disk fs b p = (ret, fs')" "ret \<noteq> 0"
    using write_file_failed [of disk b p fs] d p by (cases "write_file disk fs b p") auto
  have add: "mr_add H INDEX_RTMR1 (fst ?ev) (fst (snd ?ev)) (snd (snd ?ev)) (reset_mr s)
      = measures_mr H INDEX_RTMR1 [?ev] (reset_mr s)"
    by (simp add: log_and_extend_measures H)
  have wf': "tdx_wf (evlog (reset_mr s))" and i: "INDEX_RTMR1 < MR_LEN"
    using wf by (simp_all add: reset_mr_def INDEX_RTMR1_def MR_LEN_def)
  obtain s' where s': "measures_mr H INDEX_RTMR1 [?ev] (reset_mr s) = Inr s'"
    "mr s' = replay H sha384 (mr (reset_mr s)) (map (fst \<circ> snd) [?ev])"
    "slot_text (evlog s') INDEX_RTMR1 = slot_text (evlog (reset_mr s)) INDEX_RTMR1
        @ concat (map (\<lambda>(n, h, d). tdx_log_entry (evlog (reset_mr s)) INDEX_RTMR1 n h d) [?ev])"
    using tdx.measures_total [OF wf' i, of "[?ev]" H sha384] H by auto
  have "calculate_rtmr1 H disk fs st stale_sep k cf dump ver s = (if stale_sep then Inl OutOfBounds else Inr (s', fs'))"
    using b0 add s'(1) w p
    by (simp add: calculate_rtmr1_def LoadPeImage_def MeasurePeImage_measurable [OF b])
  moreover have "mr s' = Hash.extend H sha384 (zeros 48) (H sha384 (authenticode_stream b))"
    using s'(2) by (simp add: reset_mr_def replay_def)
  moreover have "slot_text (evlog s') INDEX_RTMR1 = slot_text (evlog s) INDEX_RTMR1
      @ tdx_log_entry (evlog s) INDEX_RTMR1 (basename k) (H sha384 (authenticode_stream b)) ''Linux Kernel PE/COFF Image''"
    using s'(3) by (simp add: reset_mr_def)
  ultimately show ?thesis by (cases stale_sep) auto
qed

theorem calculate_rtmr1_dump_failed_witness:
  "\<exists>s' fs'. calculate_rtmr1 sum_digest (\<lambda>_. Some 5) [''/boot/k'' \<mapsto> sample_unsigned] False False ''/boot/k'' None (Some ''dump'')
        ''edk2-stable202502'' init_tdx = Inr (s', fs')
      \<and> mr s' = Hash.extend sum_digest sha384 (zeros 48) (sum_digest sha384 (authenticode_stream sample_unsigned))
      \<and> slot_text (evlog s') INDEX_RTMR1 = slot_text (evlog init_tdx) INDEX_RTMR1
          @ tdx_log_entry (evlog init_tdx) INDEX_RTMR1 (basename ''/boot/k'') (sum_digest sha384 (authenticode_stream sample_unsigned))
              ''Linux Kernel PE/COFF Image''"
proof -
  have w: "\<not> dump_ok (\<lambda>_. Some 5) sample_unsigned (Some ''dump'')" by (simp add: dump_ok_def)
  have k: "td_kernel_image [''/boot/k'' \<mapsto> sample_unsigned] None ''/boot/k'' = Some sample_unsigned"
    by (simp add: td_kernel_image_def prepare_td_kernel_def)
  have wf: "tdx_wf (evlog init_tdx)" by (simp add: init_tdx_def)
  show ?thesis
    using calculate_rtmr1_dump_failed [OF sum_digest_ok k sample_signed_measurable(2) w wf,
        where stale_sep = False and st = False and ver = "''edk2-stable202502''"]
    by (simp only: if_False)
qed


text \<open>
  Fact. A kernel file that is not a PE image does not make the calculation of RTMR1 fail: the
  error of the image measurement leads to the exit with return code 0, so the caller gets
  success with the all-zero register and an unchanged log (unless the uninitialised pointer
  that the exit frees happens to be non-null).
\<close>

theorem calculate_rtmr1_unmeasurable:
  assumes "td_kernel_image fs cf k = Some b" and "MeasurePeImage H sha384 st b = Inl (Fail e)"
  shows "calculate_rtmr1 H disk fs st stale_sep k cf dump ver s
    = (if stale_sep then Inl OutOfBounds else Inr (s\<lparr>mr := zeros 48\<rparr>, fs))"
proof -
  obtain b0 where "fs k = Some b0" "prepare_td_kernel fs cf b0 = Inr b"
    using assms(1) by (rule td_kernel_imageD)
  then show ?thesis
    by (simp add: calculate_rtmr1_def LoadPeImage_def assms(2) reset_mr_def)
qed

theorem calculate_rtmr1_unmeasurable_witness:
  "calculate_rtmr1 sum_digest (\<lambda>_. None) [''k'' \<mapsto> []] False False ''k'' None None ''edk2-stable202502'' init_tdx
    = Inr (init_tdx\<lparr>mr := zeros 48\<rparr>, [''k'' \<mapsto> []])"
proof -
  obtain e where "MeasurePeImage sum_digest sha384 False [] = Inl (Fail e)"
    using MeasurePeImage_empty [of sum_digest sha384] by auto
  then show ?thesis
    using calculate_rtmr1_unmeasurable [where disk = "\<lambda>_. None" and fs = "[''k'' \<mapsto> []]" and cf = None and k = "''k''" and b = "[]" and H = sum_digest
        and st = False and stale_sep = False]
    by (simp add: td_kernel_image_def prepare_td_kernel_def)
qed

text \<open>
  Fact. RTMR2 is one event: the digest of the command line file widened to UTF-16 with the
  requested number of zero units behind it, logged under the name of the file.
\<close>

theorem calculate_rtmr2_measures:
  assumes "digest_ok H" and "fs f = Some b"
  shows "calculate_rtmr2 H fs f tz s = measures_mr H INDEX_RTMR2
    [(''EV_EVENT_TAG'', H sha384 (char16_bytes (map scast b @ replicate tz 0)), f)] (reset_mr s)"
proof -
  have h: "hash_buf H sha384 (char16_bytes (map scast b @ replicate tz 0)) (length b * 2 + tz * 2)
      = Inr (H sha384 (char16_bytes (map scast b @ replicate tz 0)))"
    by (simp add: hash_buf_def)
  have w: "convert_to_char16 b (length b) tz = Inr (map scast b @ replicate tz 0, length b * 2 + tz * 2)"
    by (simp add: convert_to_char16_def)
  show ?thesis
    unfolding calculate_rtmr2_def read_file_def assms(2) option.case fail_minus1_Inr and_then_simps w prod.case h
    using assms(1) by (simp add: log_and_extend_measures)
qed

theorem calculate_rtmr2_measures_witness:
  "calculate_rtmr2 sum_digest [''cmd'' \<mapsto> [0x71]] ''cmd'' 1 init_tdx = measures_mr sum_digest INDEX_RTMR2
    [(''EV_EVENT_TAG'', sum_digest sha384 (char16_bytes (map scast [0x71 :: byte] @ replicate 1 0)), ''cmd'')] (reset_mr init_tdx)"
  by (rule calculate_rtmr2_measures [OF sum_digest_ok]) simp

text \<open>
  Fact. MRTD is set, not extended: when the firmware measurement returns a digest, the
  register is exactly that digest and the log gets one entry with it. With an unsupported
  QEMU version this publishes the indeterminate bytes of the digest buffer as MRTD.
\<close>

theorem calculate_mrtd_sets:
  assumes "fs f = Some b" and "measure_ovmf H digest0 b ver = Inr h"
    and "tdx_wf (evlog s)" and "48 \<le> length h"
  shows "\<exists>l. calculate_mrtd H fs digest0 f ver s = Inr \<lparr>mr = h, evlog = l\<rparr>
    \<and> slot_text l INDEX_MRTD = slot_text (evlog s) INDEX_MRTD
        @ tdx_log_entry (evlog s) INDEX_MRTD ''OVMF'' h ''TDX Module Measurement: Initial TD contents (OVMF)''"
proof -
  have i: "INDEX_MRTD < MR_LEN" by (simp add: INDEX_MRTD_def MR_LEN_def)
  obtain l where l: "tdx_evlog_add (evlog s) INDEX_MRTD ''OVMF'' h
      ''TDX Module Measurement: Initial TD contents (OVMF)'' = Inr l"
    using tdx.add_total [OF assms(3) i assms(4)] by blast
  have "calculate_mrtd H fs digest0 f ver s = Inr \<lparr>mr = h, evlog = l\<rparr>"
    by (simp add: calculate_mrtd_def read_file_def assms(1,2) log_only_def l reset_mr_def)
  then show ?thesis using tdx.add_text [OF assms(3) l] by blast
qed

theorem calculate_mrtd_sets_witness:
  "\<exists>l. calculate_mrtd sum_digest [''fd'' \<mapsto> sample_td 0 0 0x1000 7] (replicate 48 0xAA) ''fd'' ''10.0.0'' init_tdx
      = Inr \<lparr>mr = replicate 48 0xAA, evlog = l\<rparr>
    \<and> slot_text l INDEX_MRTD = slot_text (evlog init_tdx) INDEX_MRTD
        @ tdx_log_entry (evlog init_tdx) INDEX_MRTD ''OVMF'' (replicate 48 0xAA) ''TDX Module Measurement: Initial TD contents (OVMF)''"
  by (rule calculate_mrtd_sets [where b = "sample_td 0 0 0x1000 7"])
    (simp_all add: sample_td_unsupported init_tdx_def)

end
