(* ===== verification/Cli.thy ===== *)
theory Cli
  imports EventLog KernelConfig
begin

text \<open>
  What the \<open>main\<close> functions of the tools share: the loop over the command line arguments,
  lists of numbers, and the printing of logs and of register values. An option that is
  unknown, lacks its argument or has a bad value ends the program with -1. The text of the
  usage and of error messages is not modelled.
\<close>

section \<open>Arguments\<close>

text \<open>
  \<open>step opts a rest\<close> handles the option \<open>a\<close>, where \<open>rest\<close> are the arguments after it, and
  returns how many of them it consumes.
\<close>

function parse_args :: "('o \<Rightarrow> string \<Rightarrow> string list \<Rightarrow> (nat \<times> 'o) res) \<Rightarrow> string list \<Rightarrow> 'o \<Rightarrow> 'o res" where
  "parse_args step [] opts = Inr opts"
| "parse_args step (a # rest) opts = and_then (step opts a rest) (\<lambda>(n, opts'). parse_args step (drop n rest) opts')"
  by pat_completeness auto
termination by (relation "measure (\<lambda>(step, args, opts). length args)") auto

text \<open>Options with one argument and flags.\<close>

definition usage :: "'a res" where "usage = Inl (Fail (-1))"

definition value_of :: "string list \<Rightarrow> (string \<Rightarrow> 'o res) \<Rightarrow> (nat \<times> 'o) res" where
  "value_of rest f = (case rest of [] \<Rightarrow> usage | v # _ \<Rightarrow> and_then (f v) (\<lambda>opts'. Inr (1, opts')))"

definition flag :: "'o \<Rightarrow> (nat \<times> 'o) res" where "flag opts' = Inr (0, opts')"

lemma value_of_Cons [simp]: "value_of (v # rest) f = and_then (f v) (\<lambda>opts'. Inr (1, opts'))"
  by (simp add: value_of_def)

lemma value_of_Nil [simp]: "value_of [] f = usage"
  by (simp add: value_of_def)

text \<open>Options that take their argument without a look at \<open>argc\<close>; the vector ends with a null pointer.\<close>

definition value_or_null :: "string list \<Rightarrow> (string option \<Rightarrow> 'o) \<Rightarrow> (nat \<times> 'o) res" where
  "value_or_null rest f = Inr (1, f (case rest of [] \<Rightarrow> None | v # _ \<Rightarrow> Some v))"

text \<open>A comma separated list of numbers, converted to \<open>w\<close> bits.\<close>

definition number_list :: "nat \<Rightarrow> string \<Rightarrow> nat list" where
  "number_list w s = map (\<lambda>t. nat (strtol 0 t mod 2 ^ w)) (strtok_all (\<lambda>c. c = CHR '','') s)"

text \<open>\<open>-f\<close>/\<open>--format\<close>\<close>

definition format_of :: "string \<Rightarrow> format_t res" where
  "format_of s = (if s = ''json'' then Inr FORMAT_JSON else if s = ''text'' then Inr FORMAT_TEXT else usage)"

text \<open>Removal of a trailing slash; the last character of an empty argument does not exist.\<close>

definition strip_slash :: "string \<Rightarrow> string res" where
  "strip_slash p = (if p = [] then Inl OutOfBounds
     else Inr (if last p = CHR ''/'' then butlast p else p))"

text \<open>\<open>--addzeros\<close>\<close>

definition trailing_zeros_of :: "string \<Rightarrow> nat res" where
  "trailing_zeros_of s = (let num = strtol 0 s in if num < 0 then usage else Inr (nat num))"

section \<open>Output\<close>

text \<open>The last comma and the newline behind it become the closing bracket.\<close>

definition close_bracket :: "string \<Rightarrow> string res" where
  "close_bracket l = and_then (check (2 \<le> length l) OutOfBounds) (\<lambda>_. Inr (take (length l - 2) l @ '']''))"

fun print_objects :: "('a \<Rightarrow> string res) \<Rightarrow> 'a list \<Rightarrow> string res" where
  "print_objects obj [] = Inr []"
| "print_objects obj [x] = obj x"
| "print_objects obj (x # y # xs) =
     and_then (obj x) (\<lambda>t. and_then (print_objects obj (y # xs)) (\<lambda>r. Inr (t @ '','' @ nl @ r)))"

fun print_all :: "('a \<Rightarrow> string res) \<Rightarrow> 'a list \<Rightarrow> string res" where
  "print_all item [] = Inr []"
| "print_all item (x # xs) = and_then (item x) (\<lambda>t. and_then (print_all item xs) (\<lambda>r. Inr (t @ r)))"

lemma print_objects_join:
  "(\<And>x. x \<in> set xs \<Longrightarrow> obj x = Inr (g x)) \<Longrightarrow> print_objects obj xs = Inr (join ('','' @ nl) (map g xs))"
  by (induction obj xs rule: print_objects.induct) auto

lemma print_all_concat:
  "(\<And>x. x \<in> set xs \<Longrightarrow> item x = Inr (g x)) \<Longrightarrow> print_all item xs = Inr (concat (map g xs))"
  by (induction xs) auto

lemma close_bracket_objects:
  "objs \<noteq> [] \<Longrightarrow> close_bracket (concat (map with_comma objs)) = Inr (join ('','' @ nl) objs @ '']'')"
proof -
  assume ne: "objs \<noteq> []"
  have "2 \<le> length (concat (map with_comma objs))"
    using ne by (simp add: with_comma_join nl_def)
  then show ?thesis using close_array [OF ne refl] by (simp add: close_bracket_def)
qed

lemma join_append:
  "\<lbrakk>xs \<noteq> []; ys \<noteq> []\<rbrakk> \<Longrightarrow> join sep (xs @ ys) = join sep xs @ sep @ join sep ys"
  by (induction sep xs rule: join.induct; cases ys) auto

end
