(* ===== verification/SrtmMain.thy ===== *)
theory SrtmMain
  imports PcrSpec Cli
begin

text \<open>
  \<^verbatim>\<open>src/calculate-srtm-pcrs/main.c\<close>: options, the calculation of the selected PCRs with a shared
  event log, and the printing of event log, summary and aggregate.
\<close>

section \<open>Options\<close>

record srtm_opts =
  s_format :: format_t
  s_eventlog :: bool
  s_summary :: bool
  s_aggregate :: bool
  s_pcrs :: "nat list"
  s_ovmf :: "string option"
  s_config :: "string option"
  s_kernel :: "string option"
  s_initrd :: "string option"
  s_drivers :: "string list"
  s_bootloaders :: "string list"
  s_bootxxxx :: "string list"
  s_secureboot :: "string option"
  s_pk :: "string option"
  s_kek :: "string option"
  s_db :: "string option"
  s_dbx :: "string option"
  s_grubcmds :: "string option"
  s_sbat :: "string option"
  s_cmdline :: "string option"
  s_zeros :: nat
  s_acpi :: acpi_files_t
  s_paths :: "string list"
  s_gpt :: "string option"
  s_boot_order :: "char16 list"
  s_dump_pei :: "string option"
  s_dump_dxe :: "string option"

definition acpi_unset :: acpi_files_t where
  "acpi_unset = \<lparr>acpi_tables = None, acpi_tables_size = -1, acpi_rsdp = None, acpi_rsdp_size = -1,
     table_loader = None, table_loader_size = -1, tpm_log = None, tpm_log_size = -1\<rparr>"

definition srtm_defaults :: srtm_opts where
  "srtm_defaults = \<lparr>s_format = FORMAT_TEXT, s_eventlog = False, s_summary = False, s_aggregate = False,
     s_pcrs = [], s_ovmf = None, s_config = None, s_kernel = None, s_initrd = None, s_drivers = [],
     s_bootloaders = [], s_bootxxxx = [], s_secureboot = None, s_pk = None, s_kek = None, s_db = None,
     s_dbx = None, s_grubcmds = None, s_sbat = None, s_cmdline = None, s_zeros = 1, s_acpi = acpi_unset,
     s_paths = [], s_gpt = None, s_boot_order = [], s_dump_pei = None, s_dump_dxe = None\<rparr>"

text \<open>The loop over the arguments, in two parts; first the options from \<open>--acpirsdp\<close> on.\<close>

definition srtm_option_files :: "filesys \<Rightarrow> srtm_opts \<Rightarrow> string \<Rightarrow> string list \<Rightarrow> (nat \<times> srtm_opts) res" where
  "srtm_option_files fs opts a rest =
     (if a = ''--acpirsdp'' then value_of rest (\<lambda>v.
        if get_file_size fs v < 0 then usage
        else Inr (opts\<lparr>s_acpi := (s_acpi opts)\<lparr>acpi_rsdp_size := get_file_size fs v, acpi_rsdp := read_file_new fs v\<rparr>\<rparr>))
      else if a = ''--acpitables'' then value_of rest (\<lambda>v.
        if get_file_size fs v < 0 then usage
        else Inr (opts\<lparr>s_acpi := (s_acpi opts)\<lparr>acpi_tables_size := get_file_size fs v, acpi_tables := read_file_new fs v\<rparr>\<rparr>))
      else if a = ''--tableloader'' then value_of rest (\<lambda>v.
        if get_file_size fs v < 0 then usage
        else Inr (opts\<lparr>s_acpi := (s_acpi opts)\<lparr>table_loader_size := get_file_size fs v, table_loader := read_file_new fs v\<rparr>\<rparr>))
      else if a = ''--tpmlog'' then value_of rest (\<lambda>v.
        if get_file_size fs v < 0 then usage
        else Inr (opts\<lparr>s_acpi := (s_acpi opts)\<lparr>tpm_log_size := get_file_size fs v, tpm_log := read_file_new fs v\<rparr>\<rparr>))
      else if a = ''--path'' then
        value_of rest (\<lambda>v. and_then (strip_slash v) (\<lambda>p. Inr (opts\<lparr>s_paths := s_paths opts @ [p]\<rparr>)))
      else if a = ''--gpt'' then value_or_null rest (\<lambda>v. opts\<lparr>s_gpt := v\<rparr>)
      else if a = ''--bootorder'' then
        value_of rest (\<lambda>v. Inr (opts\<lparr>s_boot_order := s_boot_order opts @ map of_nat (number_list 16 v)\<rparr>))
      else if a = ''--dumppei'' then value_or_null rest (\<lambda>v. opts\<lparr>s_dump_pei := v\<rparr>)
      else if a = ''--dumpdxe'' then value_or_null rest (\<lambda>v. opts\<lparr>s_dump_dxe := v\<rparr>)
      else usage)"

definition srtm_option :: "filesys \<Rightarrow> srtm_opts \<Rightarrow> string \<Rightarrow> string list \<Rightarrow> (nat \<times> srtm_opts) res" where
  "srtm_option fs opts a rest =
     (if a = ''-f'' \<or> a = ''--format'' then value_of rest (\<lambda>v. and_then (format_of v) (\<lambda>f. Inr (opts\<lparr>s_format := f\<rparr>)))
      else if a = ''-e'' \<or> a = ''--eventlog'' then flag (opts\<lparr>s_eventlog := True\<rparr>)
      else if a = ''-s'' \<or> a = ''--summary'' then flag (opts\<lparr>s_summary := True\<rparr>)
      else if a = ''-a'' \<or> a = ''--aggregate'' then flag (opts\<lparr>s_aggregate := True\<rparr>)
      else if a = ''-p'' \<or> a = ''--pcrs'' then
        value_of rest (\<lambda>v. Inr (opts\<lparr>s_pcrs := s_pcrs opts @ number_list 32 v\<rparr>))
      else if a = ''--verbose'' then flag opts
      else if a = ''-o'' \<or> a = ''--ovmf'' then value_of rest (\<lambda>v. Inr (opts\<lparr>s_ovmf := Some v\<rparr>))
      else if a = ''-c'' \<or> a = ''--config'' then value_of rest (\<lambda>v. Inr (opts\<lparr>s_config := Some v\<rparr>))
      else if a = ''-k'' \<or> a = ''--kernel'' then value_of rest (\<lambda>v. Inr (opts\<lparr>s_kernel := Some v\<rparr>))
      else if a = ''-r'' \<or> a = ''--initrd'' then value_of rest (\<lambda>v. Inr (opts\<lparr>s_initrd := Some v\<rparr>))
      else if a = ''--driver'' then value_of rest (\<lambda>v. Inr (opts\<lparr>s_drivers := s_drivers opts @ [v]\<rparr>))
      else if a = ''--bootloader'' then value_of rest (\<lambda>v. Inr (opts\<lparr>s_bootloaders := s_bootloaders opts @ [v]\<rparr>))
      else if a = ''--bootxxxx'' then value_of rest (\<lambda>v. Inr (opts\<lparr>s_bootxxxx := s_bootxxxx opts @ [v]\<rparr>))
      else if a = ''--secureboot'' then value_of rest (\<lambda>v. Inr (opts\<lparr>s_secureboot := Some v\<rparr>))
      else if a = ''--pk'' then value_of rest (\<lambda>v. Inr (opts\<lparr>s_pk := Some v\<rparr>))
      else if a = ''--kek'' then value_of rest (\<lambda>v. Inr (opts\<lparr>s_kek := Some v\<rparr>))
      else if a = ''--db'' then value_of rest (\<lambda>v. Inr (opts\<lparr>s_db := Some v\<rparr>))
      else if a = ''--dbx'' then value_of rest (\<lambda>v. Inr (opts\<lparr>s_dbx := Some v\<rparr>))
      else if a = ''--grubcmds'' then value_of rest (\<lambda>v. Inr (opts\<lparr>s_grubcmds := Some v\<rparr>))
      else if a = ''--sbatlevel'' then value_of rest (\<lambda>v. Inr (opts\<lparr>s_sbat := Some v\<rparr>))
      else if a = ''--cmdline'' then value_of rest (\<lambda>v. Inr (opts\<lparr>s_cmdline := Some v\<rparr>))
      else if a = ''--addzeros'' then
        value_of rest (\<lambda>v. and_then (trailing_zeros_of v) (\<lambda>n. Inr (opts\<lparr>s_zeros := n\<rparr>)))
      else srtm_option_files fs opts a rest)"

definition srtm_options :: "filesys \<Rightarrow> string list \<Rightarrow> srtm_opts res" where
  "srtm_options fs args =
     (if length args < 2 then usage
      else and_then (parse_args (srtm_option fs) args srtm_defaults) (\<lambda>opts.
        Inr (if s_boot_order opts = [] then opts\<lparr>s_boot_order := [0]\<rparr> else opts)))"

text \<open>The checks after the loop.\<close>

definition srtm_checks :: "srtm_opts \<Rightarrow> unit res" where
  "srtm_checks opts =
     and_then (check (list_all (\<lambda>n. \<not> n \<ge> MAX_PCRS) (s_pcrs opts)) (Fail (-1))) (\<lambda>_.
     and_then (check (\<not> (s_kernel opts = None \<and> s_bootloaders opts = [] \<and> contains (s_pcrs opts) 4)) (Fail (-1))) (\<lambda>_.
     and_then (check (\<not> (s_ovmf opts = None \<and> contains (s_pcrs opts) 0)) (Fail (-1))) (\<lambda>_.
       check (\<not> (s_cmdline opts = None \<and> contains (s_pcrs opts) 9)) (Fail (-1)))))"

section \<open>Calculation\<close>

text \<open>
  What the calculation depends on beside the options: the digest function, the LZMA decoder,
  the directory tree with its depth, where files can be written, and the indeterminate contents of fresh memory.
\<close>

record srtm_env =
  e_digest :: digest
  e_decode :: lzma_decode
  e_garbage :: "nat \<Rightarrow> byte list"
  e_base :: nat
  e_tree :: tree
  e_depth :: nat
  e_stale_sep :: bool
  e_stale_image :: bool
  e_gpt_buf :: string
  e_slack :: "byte list"
  e_disk :: disk

type_synonym registers = "eventlog_t \<times> byte list list"

text \<open>One block \<open>if (contains(pcr_nums, len_pcr_nums, i)) { if (calculate_pcr...(pcr[i], ...)) goto out; }\<close>\<close>

definition if_selected :: "nat list \<Rightarrow> nat \<Rightarrow> (srtm_state \<Rightarrow> srtm_state res) \<Rightarrow> registers \<Rightarrow> registers res" where
  "if_selected nums i calc r =
     (if contains nums i then
        and_then (fail_minus1 (calc \<lparr>mr = snd r ! i, evlog = fst r\<rparr>)) (\<lambda>s.
          Inr (evlog s, (snd r)[i := mr s]))
      else Inr r)"

definition null_list :: "'a list \<Rightarrow> 'a list option" where
  "null_list xs = (if xs = [] then None else Some xs)"

definition srtm_calculate :: "srtm_env \<Rightarrow> srtm_opts \<Rightarrow> registers \<Rightarrow> registers res" where
  "srtm_calculate E opts r =
     (let H = e_digest E; T = e_tree E; nums = s_pcrs opts in
      and_then
        (if contains nums 0 then
           and_then (fail_minus1 (calculate_pcr0 H (e_decode E) (e_garbage E) (e_base E) (e_disk E) (contents T) (the (s_ovmf opts))
             (s_dump_pei opts) (s_dump_dxe opts) \<lparr>mr = snd r ! 0, evlog = fst r\<rparr>)) (\<lambda>(s, fs).
             Inr ((evlog s, (snd r)[0 := mr s]), fs))
         else Inr (r, contents T)) (\<lambda>(r, fs).
      and_then (if_selected nums 1 (calculate_pcr1 H fs (e_stale_sep E) (s_acpi opts) (s_boot_order opts) (null_list (s_bootxxxx opts))) r) (\<lambda>r.
      and_then (if_selected nums 2 (calculate_pcr2 H fs (e_stale_image E) (s_drivers opts)) r) (\<lambda>r.
      and_then (if_selected nums 3 (calculate_pcr3 H) r) (\<lambda>r.
      and_then (if_selected nums 4 (calculate_pcr4 H fs (e_stale_image E) (s_kernel opts) (s_config opts)
         (map_option (map Some) (null_list (s_bootloaders opts)))) r) (\<lambda>r.
      and_then (if_selected nums 5 (calculate_pcr5 H fs (e_gpt_buf E) (s_gpt opts)) r) (\<lambda>r.
      and_then (if_selected nums 6 (calculate_pcr6 H) r) (\<lambda>r.
      and_then (if_selected nums 7 (calculate_pcr7 H fs (s_sbat opts) (s_secureboot opts) (s_pk opts) (s_kek opts) (s_db opts) (s_dbx opts)) r) (\<lambda>r.
      and_then (if_selected nums 8 (calculate_pcr8 H fs (e_slack E) (s_grubcmds opts)) r) (\<lambda>r.
        if_selected nums 9 (calculate_pcr9 H (T\<lparr>contents := fs\<rparr>) (e_depth E) (s_cmdline opts) (s_zeros opts) (s_initrd opts)
          (null_list (s_paths opts))) r))))))))))"

section \<open>Output\<close>

fun srtm_print_log :: "format_t \<Rightarrow> string option list \<Rightarrow> nat list \<Rightarrow> string res" where
  "srtm_print_log f l [] = Inr []"
| "srtm_print_log f l (i # ns) = (case l ! i of None \<Rightarrow> Inl (Fail (-1))
     | Some t \<Rightarrow>
         and_then (if f = FORMAT_JSON \<and> ns = [] then close_bracket t else Inr t) (\<lambda>t.
         and_then (srtm_print_log f l ns) (\<lambda>r. Inr (t @ r))))"

definition srtm_event_log :: "format_t \<Rightarrow> string option list \<Rightarrow> nat list \<Rightarrow> string res" where
  "srtm_event_log f l nums =
     and_then (srtm_print_log f l nums) (\<lambda>t. Inr ((if f = FORMAT_JSON then ''['' else []) @ t @ nl))"

definition srtm_summary_object :: "byte list list \<Rightarrow> nat \<Rightarrow> string res" where
  \<open>srtm_summary_object pcrs i =
     and_then (print_data_no_lf (pcrs ! i) 32 None) (\<lambda>v.
       Inr (''{'' @ nl @ tab @ ''"type":"TPM Reference Value",'' @ nl @ tab @ ''"subtype":"PCR Summary",''
         @ nl @ tab @ ''"index":'' @ dec i @ '','' @ nl @ tab @ ''"sha256":"'' @ v @ ''",''
         @ nl @ tab @ ''"description":"PCR'' @ dec i @ ''"'' @ nl @ ''}''))\<close>

definition srtm_summary_line :: "byte list list \<Rightarrow> nat \<Rightarrow> string res" where
  "srtm_summary_line pcrs i =
     and_then (print_data (pcrs ! i) 32 None) (\<lambda>v. Inr (''PCR'' @ dec i @ '': '' @ v))"

definition srtm_summary :: "format_t \<Rightarrow> byte list list \<Rightarrow> nat list \<Rightarrow> string res" where
  "srtm_summary f pcrs nums = (case f of
     FORMAT_JSON \<Rightarrow> and_then (print_objects (srtm_summary_object pcrs) nums) (\<lambda>t. Inr (''['' @ t @ '']'' @ nl))
   | FORMAT_TEXT \<Rightarrow> print_all (srtm_summary_line pcrs) nums)"

text \<open>The digest of the selected PCRs; \<open>md_update\<close> is the loop of \<open>EVP_DigestUpdate\<close>.\<close>

fun md_update :: "byte list list \<Rightarrow> nat list \<Rightarrow> byte list \<Rightarrow> byte list res" where
  "md_update pcrs [] ctx = Inr ctx"
| "md_update pcrs (i # ns) ctx = and_then (rd (pcrs ! i) 0 32) (\<lambda>v. md_update pcrs ns (ctx @ v))"

definition print_aggregate :: "digest \<Rightarrow> format_t \<Rightarrow> byte list list \<Rightarrow> nat list \<Rightarrow> string res" where
  \<open>print_aggregate H f pcrs nums =
     and_then (md_update pcrs nums []) (\<lambda>ctx.
     let aggregate = H EVP_sha256 ctx in
     case f of
       FORMAT_JSON \<Rightarrow> and_then (print_data_no_lf aggregate 32 None) (\<lambda>v.
         Inr (''{'' @ nl @ tab @ ''"type":"TPM PCR Aggregate",'' @ nl @ tab @ ''"sha256":"'' @ v @ ''"'' @ nl @ ''}'' @ nl))
     | FORMAT_TEXT \<Rightarrow> and_then (print_data aggregate 32 None) (\<lambda>v. Inr (''PCR Aggregate: '' @ v)))\<close>

definition srtm_report :: "digest \<Rightarrow> srtm_opts \<Rightarrow> registers \<Rightarrow> string res" where
  "srtm_report H opts r =
     and_then (if s_eventlog opts then srtm_event_log (s_format opts) (log (fst r)) (s_pcrs opts) else Inr []) (\<lambda>t1.
     and_then (if s_summary opts then srtm_summary (s_format opts) (snd r) (s_pcrs opts) else Inr []) (\<lambda>t2.
     and_then (if s_aggregate opts then print_aggregate H (s_format opts) (snd r) (s_pcrs opts) else Inr []) (\<lambda>t3.
       Inr (t1 @ t2 @ t3))))"

text \<open>The output of the program; \<open>stack\<close> is the indeterminate array of PCR values.\<close>

definition srtm_main :: "srtm_env \<Rightarrow> byte list list \<Rightarrow> string list \<Rightarrow> string res" where
  "srtm_main E stack args =
     and_then (srtm_options (contents (e_tree E)) args) (\<lambda>opts.
     and_then (srtm_checks opts) (\<lambda>_.
     and_then (srtm_calculate E opts (empty_log (s_format opts) MAX_PCRS, stack)) (srtm_report (e_digest E) opts)))"

end
