(* ===== verification/TdxMain.thy ===== *)
theory TdxMain
  imports TdxSpec SrtmMain
begin

text \<open>
  \<^verbatim>\<open>src/calculate-tdx-mrs/main.c\<close>: options, the calculation of the selected measurement registers
  with a shared event log, and the printing of event log and summary.
\<close>

section \<open>Options\<close>

record tdx_opts =
  t_config :: "string option"
  t_kernel :: "string option"
  t_ramdisk :: "string option"
  t_cmdline :: "string option"
  t_ovmf :: "string option"
  t_module :: "string option"
  t_dump :: "string option"
  t_version :: string
  t_secureboot :: "string option"
  t_pk :: "string option"
  t_kek :: "string option"
  t_db :: "string option"
  t_dbx :: "string option"
  t_boot_order :: "char16 list"
  t_bootxxxx :: "string list"
  t_zeros :: nat
  t_eventlog :: bool
  t_summary :: bool
  t_mrs :: "nat list"
  t_format :: format_t
  t_acpi :: acpi_files_t
  t_qemu :: string

definition tdx_defaults :: tdx_opts where
  "tdx_defaults = \<lparr>t_config = None, t_kernel = None, t_ramdisk = None, t_cmdline = None, t_ovmf = None,
     t_module = None, t_dump = None, t_version = ''edk2-stable202502'', t_secureboot = None, t_pk = None,
     t_kek = None, t_db = None, t_dbx = None, t_boot_order = [], t_bootxxxx = [], t_zeros = 1,
     t_eventlog = False, t_summary = False, t_mrs = [], t_format = FORMAT_TEXT, t_acpi = acpi_unset,
     t_qemu = ''9.2.0''\<rparr>"

text \<open>The loop over the arguments, in two parts; first the options from \<open>--bootxxxx\<close> on.\<close>

definition tdx_option_rest :: "tdx_opts \<Rightarrow> string \<Rightarrow> string list \<Rightarrow> (nat \<times> tdx_opts) res" where
  "tdx_option_rest opts a rest =
     (if a = ''--bootxxxx'' then value_of rest (\<lambda>v. Inr (opts\<lparr>t_bootxxxx := t_bootxxxx opts @ [v]\<rparr>))
      else if a = ''--secureboot'' then value_of rest (\<lambda>v. Inr (opts\<lparr>t_secureboot := Some v\<rparr>))
      else if a = ''--pk'' then value_of rest (\<lambda>v. Inr (opts\<lparr>t_pk := Some v\<rparr>))
      else if a = ''--kek'' then value_of rest (\<lambda>v. Inr (opts\<lparr>t_kek := Some v\<rparr>))
      else if a = ''--db'' then value_of rest (\<lambda>v. Inr (opts\<lparr>t_db := Some v\<rparr>))
      else if a = ''--dbx'' then value_of rest (\<lambda>v. Inr (opts\<lparr>t_dbx := Some v\<rparr>))
      else if a = ''--bootorder'' then
        value_of rest (\<lambda>v. Inr (opts\<lparr>t_boot_order := t_boot_order opts @ map of_nat (number_list 16 v)\<rparr>))
      else if a = ''-f'' \<or> a = ''--format'' then
        value_of rest (\<lambda>v. and_then (format_of v) (\<lambda>f. Inr (opts\<lparr>t_format := f\<rparr>)))
      else if a = ''-m'' \<or> a = ''--mrs'' then
        value_of rest (\<lambda>v. Inr (opts\<lparr>t_mrs := t_mrs opts @ number_list 32 v\<rparr>))
      else if a = ''-e'' \<or> a = ''--eventlog'' then flag (opts\<lparr>t_eventlog := True\<rparr>)
      else if a = ''-s'' \<or> a = ''--summary'' then flag (opts\<lparr>t_summary := True\<rparr>)
      else if a = ''--verbose'' then flag opts
      else if a = ''--dumpkernel'' then value_or_null rest (\<lambda>v. opts\<lparr>t_dump := v\<rparr>)
      else usage)"

text \<open>Unlike \<^verbatim>\<open>calculate-srtm-pcrs\<close>, an empty ACPI file is refused.\<close>

definition tdx_option :: "filesys \<Rightarrow> tdx_opts \<Rightarrow> string \<Rightarrow> string list \<Rightarrow> (nat \<times> tdx_opts) res" where
  "tdx_option fs opts a rest =
     (if a = ''-c'' \<or> a = ''--config'' then value_of rest (\<lambda>v. Inr (opts\<lparr>t_config := Some v\<rparr>))
      else if a = ''-k'' \<or> a = ''--kernel'' then value_of rest (\<lambda>v. Inr (opts\<lparr>t_kernel := Some v\<rparr>))
      else if a = ''--cmdline'' then value_of rest (\<lambda>v. Inr (opts\<lparr>t_cmdline := Some v\<rparr>))
      else if a = ''--addzeros'' then
        value_of rest (\<lambda>v. and_then (trailing_zeros_of v) (\<lambda>n. Inr (opts\<lparr>t_zeros := n\<rparr>)))
      else if a = ''-r'' \<or> a = ''--ramdisk'' then value_of rest (\<lambda>v. Inr (opts\<lparr>t_ramdisk := Some v\<rparr>))
      else if a = ''-o'' \<or> a = ''--ovmf'' then value_of rest (\<lambda>v. Inr (opts\<lparr>t_ovmf := Some v\<rparr>))
      else if a = ''--ovmfversion'' then value_of rest (\<lambda>v. Inr (opts\<lparr>t_version := v\<rparr>))
      else if a = ''-q'' \<or> a = ''--qemuversion'' then value_of rest (\<lambda>v. Inr (opts\<lparr>t_qemu := v\<rparr>))
      else if a = ''--tdxmodule'' then value_of rest (\<lambda>v. Inr (opts\<lparr>t_module := Some v\<rparr>))
      else if a = ''-a'' \<or> a = ''--acpirsdp'' then value_of rest (\<lambda>v.
        if get_file_size fs v \<le> 0 then usage
        else Inr (opts\<lparr>t_acpi := (t_acpi opts)\<lparr>acpi_rsdp_size := get_file_size fs v, acpi_rsdp := read_file_new fs v\<rparr>\<rparr>))
      else if a = ''-t'' \<or> a = ''--acpitables'' then value_of rest (\<lambda>v.
        if get_file_size fs v \<le> 0 then usage
        else Inr (opts\<lparr>t_acpi := (t_acpi opts)\<lparr>acpi_tables_size := get_file_size fs v, acpi_tables := read_file_new fs v\<rparr>\<rparr>))
      else if a = ''-l'' \<or> a = ''--tableloader'' then value_of rest (\<lambda>v.
        if get_file_size fs v \<le> 0 then usage
        else Inr (opts\<lparr>t_acpi := (t_acpi opts)\<lparr>table_loader_size := get_file_size fs v, table_loader := read_file_new fs v\<rparr>\<rparr>))
      else tdx_option_rest opts a rest)"

definition tdx_options :: "filesys \<Rightarrow> string list \<Rightarrow> tdx_opts res" where
  "tdx_options fs args =
     (if length args < 2 then usage
      else and_then (parse_args (tdx_option fs) args tdx_defaults) (\<lambda>opts.
        Inr (if t_boot_order opts = [] then opts\<lparr>t_boot_order := [0]\<rparr> else opts)))"

text \<open>
  The checks after the loop. The firmware is required for MRTD; the second disjunct of the
  test repeats the first, so it is not required for RTMR0.
\<close>

definition tdx_checks :: "tdx_opts \<Rightarrow> unit res" where
  "tdx_checks opts = (let nums = t_mrs opts in
     and_then (check (\<not> (t_kernel opts = None \<and> contains nums INDEX_RTMR1)) (Fail (-1))) (\<lambda>_.
     and_then (check (\<not> (t_ovmf opts = None \<and> (contains nums INDEX_MRTD \<or> contains nums INDEX_MRTD))) (Fail (-1))) (\<lambda>_.
     and_then (check (\<not> (t_module opts = None \<and> contains nums INDEX_MRSEAM)) (Fail (-1))) (\<lambda>_.
     and_then (check (\<not> (t_cmdline opts = None \<and> contains nums INDEX_RTMR2)) (Fail (-1))) (\<lambda>_.
     and_then (check (nums \<noteq> []) (Fail (-1))) (\<lambda>_.
       check (list_all (\<lambda>n. \<not> n \<ge> MR_LEN) nums) (Fail (-1))))))))"

section \<open>Calculation\<close>

record tdx_env =
  t_digest :: digest
  t_files :: filesys
  t_stale_sep :: bool
  t_stale_image :: bool
  t_hob_stack :: "byte list"
  t_mrtd_stack :: "byte list"
  t_cfv_stack :: "byte list"
  t_disk :: disk

definition tdx_calculate :: "tdx_env \<Rightarrow> tdx_opts \<Rightarrow> registers \<Rightarrow> registers res" where
  "tdx_calculate E opts r =
     (let H = t_digest E; fs = t_files E; nums = t_mrs opts in
      and_then (if_selected nums INDEX_MRSEAM (calculate_mrseam H fs (the (t_module opts))) r) (\<lambda>r.
      and_then (if_selected nums INDEX_MRTD (calculate_mrtd H fs (t_mrtd_stack E) (the (t_ovmf opts)) (t_qemu opts)) r) (\<lambda>r.
      and_then (if_selected nums INDEX_RTMR0 (calculate_rtmr0 H fs (t_stale_sep E) (t_hob_stack E) (t_cfv_stack E)
         (t_ovmf opts) (t_acpi opts) (t_version opts) (t_boot_order opts) (null_list (t_bootxxxx opts))
         (t_secureboot opts) (t_pk opts) (t_kek opts) (t_db opts) (t_dbx opts)) r) (\<lambda>r.
      and_then
        (if contains nums INDEX_RTMR1 then
           and_then (fail_minus1 (calculate_rtmr1 H (t_disk E) fs (t_stale_image E) (t_stale_sep E) (the (t_kernel opts)) (t_config opts)
             (t_dump opts) (t_version opts) \<lparr>mr = snd r ! INDEX_RTMR1, evlog = fst r\<rparr>)) (\<lambda>(s, fs).
             Inr ((evlog s, (snd r)[INDEX_RTMR1 := mr s]), fs))
         else Inr (r, fs)) (\<lambda>(r, fs).
      and_then (if_selected nums INDEX_RTMR2 (calculate_rtmr2 H fs (the (t_cmdline opts)) (t_zeros opts)) r) (\<lambda>r.
        if_selected nums INDEX_RTMR3 calculate_rtmr3 r))))))"

section \<open>Output\<close>

definition last_entry_json :: "format_t \<Rightarrow> string option list \<Rightarrow> nat \<Rightarrow> bool" where
  "last_entry_json f l index =
     (if f \<noteq> FORMAT_JSON then False
      else if index = MR_LEN - 1 then True
      else list_all (\<lambda>i. l ! i = None) [index + 1..<MR_LEN])"

text \<open>The bracket is stored in the log itself.\<close>

fun tdx_print_log :: "format_t \<Rightarrow> string option list \<Rightarrow> nat list \<Rightarrow> string res" where
  "tdx_print_log f l [] = Inr []"
| "tdx_print_log f l (i # ns) = (case l ! i of None \<Rightarrow> tdx_print_log f l ns
     | Some t \<Rightarrow>
         and_then (if last_entry_json f l i then close_bracket t else Inr t) (\<lambda>t.
         and_then (tdx_print_log f (l[i := Some t]) ns) (\<lambda>r. Inr (t @ r))))"

definition tdx_event_log :: "format_t \<Rightarrow> string option list \<Rightarrow> nat list \<Rightarrow> string res" where
  "tdx_event_log f l nums =
     and_then (tdx_print_log f l nums) (\<lambda>t. Inr ((if f = FORMAT_JSON then ''['' else []) @ t @ nl))"

definition tdx_summary_object :: "byte list list \<Rightarrow> nat \<Rightarrow> string res" where
  \<open>tdx_summary_object mrs i =
     and_then (print_data_no_lf (mrs ! i) 48 None) (\<lambda>v.
       Inr (''{'' @ nl @ tab @ ''"type":"TDX Reference Value",'' @ nl @ tab @ ''"subtype":"MR Summary",''
         @ nl @ tab @ ''"index":'' @ dec i @ '','' @ nl @ tab @ ''"sha384":"'' @ v @ ''",''
         @ nl @ tab @ ''"description":"'' @ index_to_mr i @ ''"'' @ nl @ ''}''))\<close>

definition tdx_summary_line :: "byte list list \<Rightarrow> nat \<Rightarrow> string res" where
  "tdx_summary_line mrs i =
     and_then (print_data (mrs ! i) 48 None) (\<lambda>v. Inr (''Name: '' @ index_to_mr i @ v))"

definition tdx_summary :: "format_t \<Rightarrow> byte list list \<Rightarrow> nat list \<Rightarrow> string res" where
  "tdx_summary f mrs nums = (case f of
     FORMAT_JSON \<Rightarrow> and_then (print_objects (tdx_summary_object mrs) nums) (\<lambda>t. Inr (''['' @ t @ '']'' @ nl))
   | FORMAT_TEXT \<Rightarrow> print_all (tdx_summary_line mrs) nums)"

definition tdx_report :: "tdx_opts \<Rightarrow> registers \<Rightarrow> string res" where
  "tdx_report opts r =
     and_then (if t_eventlog opts then tdx_event_log (t_format opts) (log (fst r)) (t_mrs opts) else Inr []) (\<lambda>t1.
     and_then (if t_summary opts then tdx_summary (t_format opts) (snd r) (t_mrs opts) else Inr []) (\<lambda>t2.
       Inr (t1 @ t2)))"

definition tdx_main :: "tdx_env \<Rightarrow> byte list list \<Rightarrow> string list \<Rightarrow> string res" where
  "tdx_main E stack args =
     and_then (tdx_options (t_files E) args) (\<lambda>opts.
     and_then (tdx_checks opts) (\<lambda>_.
     and_then (tdx_calculate E opts (empty_log (t_format opts) MR_LEN, stack)) (tdx_report opts)))"

end
