(* ===== verification/SrtmSpec.thy ===== *)
theory SrtmSpec
  imports SrtmMain
begin

text \<open>
  What \<^verbatim>\<open>calculate-srtm-pcrs\<close> computes as a whole: from the command line to the printed report,
  every register is the replay of the events of its log.
\<close>

section \<open>The events of the selected registers\<close>

definition files_of :: "srtm_env \<Rightarrow> filesys" where
  "files_of E = contents (e_tree E)"

text \<open>The main firmware volume inside the firmware image.\<close>

definition main_volume :: "byte list \<Rightarrow> byte list" where
  "main_volume ovmf = (let start = le (take 8 (drop 32 ovmf)) in
     take (le (take 8 (drop (start + 32) ovmf))) (drop start ovmf))"

definition fvmain_of :: "srtm_env \<Rightarrow> srtm_opts \<Rightarrow> byte list option" where
  "fvmain_of E opts = (case s_ovmf opts of None \<Rightarrow> None | Some name \<Rightarrow>
     (case files_of E name of None \<Rightarrow> None | Some ovmf \<Rightarrow>
        if ovmf_main_volume ovmf (main_volume ovmf)
        then (case extract_lzma_fvmain_new (e_decode E) (e_garbage E) (main_volume ovmf) (e_base E) of
            Inr (Some fv) \<Rightarrow> if fvmain_ok fv then Some fv else None
          | _ \<Rightarrow> None)
        else None))"

definition grub_commands :: "srtm_env \<Rightarrow> srtm_opts \<Rightarrow> byte list option" where
  "grub_commands E opts = (case s_grubcmds opts of None \<Rightarrow> None | Some f \<Rightarrow> files_of E f)"

definition srtm_events :: "srtm_env \<Rightarrow> srtm_opts \<Rightarrow> nat \<Rightarrow> event list" where
  "srtm_events E opts i = (let H = e_digest E; fs = files_of E in
     if i = 0 then pcr0_events H (the (fvmain_of E opts))
     else if i = 1 then pcr1_events H fs (s_acpi opts) (s_boot_order opts) (null_list (s_bootxxxx opts))
     else if i = 2 then pcr2_events H fs (s_drivers opts)
     else if i = 4 then pcr4_events H fs (s_kernel opts) (s_config opts) (s_bootloaders opts)
     else if i = 5 then [separator_event H, action_event H exit_invocation, action_event H exit_success]
     else if i = 7 then pcr7_events H fs (s_sbat opts) (s_secureboot opts) (s_pk opts) (s_kek opts) (s_db opts) (s_dbx opts)
     else if i = 8 then pcr8_events H (the (grub_commands E opts))
     else if i = 9 then pcr9_events H (e_tree E) (e_depth E) (s_cmdline opts) (s_zeros opts) (s_initrd opts)
       (null_list (s_paths opts))
     else [separator_event H])"

text \<open>
  Inputs that a register can be calculated from. For PCR 5 the partition table is left out
  here: with it, log and register disagree (\<open>calculate_pcr5_order\<close>).
\<close>

definition no_dump :: "srtm_opts \<Rightarrow> bool" where
  "no_dump opts \<longleftrightarrow> s_dump_pei opts = None \<and> s_dump_dxe opts = None"

definition grub_ok :: "srtm_env \<Rightarrow> srtm_opts \<Rightarrow> bool" where
  "grub_ok E opts = (case grub_commands E opts of None \<Rightarrow> False | Some cmds \<Rightarrow>
     0 \<notin> set cmds \<and> strtok_all (\<lambda>c. c = 0x0A) cmds \<noteq> [] \<and> e_slack E \<noteq> [] \<and> hd (e_slack E) = 0)"

definition cmdline_ok :: "srtm_env \<Rightarrow> srtm_opts \<Rightarrow> bool" where
  "cmdline_ok E opts \<longleftrightarrow> list_all (path_ok (e_tree E) (e_depth E)) (s_paths opts)
     \<and> s_cmdline opts \<noteq> None \<and> files_of E (the (s_cmdline opts)) \<noteq> None
     \<and> (s_initrd opts = None \<or> files_of E (the (s_initrd opts)) \<noteq> None)"

definition srtm_ok :: "srtm_env \<Rightarrow> srtm_opts \<Rightarrow> nat \<Rightarrow> bool" where
  "srtm_ok E opts i = (let fs = files_of E in
     if i = 0 then no_dump opts \<and> fvmain_of E opts \<noteq> None
     else if i = 1 then acpi_ok (s_acpi opts) \<and> boot_files_ok fs (null_list (s_bootxxxx opts))
     else if i = 2 then list_all (image_ok fs) (s_drivers opts)
     else if i = 4 then \<not> (s_kernel opts = None \<and> s_bootloaders opts = [])
       \<and> list_all (image_ok fs) (s_bootloaders opts) \<and> kernel_ok fs (s_config opts) (s_kernel opts)
     else if i = 5 then s_gpt opts = None
     else if i = 7 then list_all (var_file_ok fs) [s_secureboot opts, s_pk opts, s_kek opts, s_db opts, s_dbx opts]
     else if i = 8 then grub_ok E opts
     else if i = 9 then cmdline_ok E opts
     else i = 3 \<or> i = 6)"

lemma srtm_ok_le: "srtm_ok E opts i \<Longrightarrow> i \<le> 9"
  by (auto simp: srtm_ok_def Let_def split: if_splits)

lemma separator_event_ok: "digest_ok H \<Longrightarrow> events_ok sha256 [separator_event H]"
  by (simp add: separator_event_def)

lemma events_ok_map: "(\<And>x. x \<in> set xs \<Longrightarrow> events_ok md [f x]) \<Longrightarrow> events_ok md (map f xs)"
  by (induction xs) (auto simp: events_ok_def)

lemma srtm_events_ok:
  assumes "digest_ok (e_digest E)" shows "events_ok sha256 (srtm_events E opts i)"
  using assms
  by (auto simp: srtm_events_def Let_def pcr0_events_def pcr1_events_def pcr2_events_def pcr4_events_def
      pcr7_events_def pcr8_events_def pcr9_events_def separator_event_def action_event_def image_event_def
      file_event_def variable_event_def intro!: events_ok_map split: option.splits)

lemma srtm_events_nonempty:
  "srtm_ok E opts i \<Longrightarrow> srtm_events E opts i \<noteq> []"
  by (auto simp: srtm_events_def srtm_ok_def Let_def pcr0_events_def pcr1_events_def pcr2_events_def pcr4_events_def
      pcr7_events_def pcr8_events_def pcr9_events_def grub_ok_def cmdline_ok_def split: if_splits option.splits)

section \<open>Each calculation\<close>

lemma calculate_pcr5_aux:
  assumes H: "digest_ok H"
  shows "calculate_pcr5 H fs buf None s = measures_pcr H 5
    [separator_event H, action_event H exit_invocation, action_event H exit_success] (reset s)"
proof -
  have hb: "hash_buf H sha256 (bytes_of a) (length a) = Inr (H sha256 (bytes_of a))"
    "hash_buf H sha256 (zeros 4) 4 = Inr (H sha256 (zeros 4))" for a
    by (simp_all add: hash_buf_def)
  have he: "hash_extend H sha256 m (H sha256 x) (EVP_MD_size sha256) = Inr (Hash.extend H sha256 m (H sha256 x))"
    if "length m = 32" for m x
    using that H by (intro hash_extend_is_extend_aux) simp_all
  have ev: "action_event H a = (''EV_EFI_ACTION'', H sha256 (bytes_of a), snd (snd (action_event H a)))"
    "separator_event H = (''EV_SEPARATOR'', H sha256 (zeros 4), ''HASH(00000000)'')" for a
    by (simp_all add: action_event_def separator_event_def)
  obtain d1 d2 where d: "action_event H exit_invocation = (''EV_EFI_ACTION'', H sha256 (bytes_of exit_invocation), d1)"
    "action_event H exit_success = (''EV_EFI_ACTION'', H sha256 (bytes_of exit_success), d2)"
    by (simp add: action_event_def del: bytes_of_Cons)
  show ?thesis
    unfolding calculate_pcr5_def Let_def hb option.case and_then_simps d snd_conv ev(2) measures_def
      log_events.simps log_only_def and_then_assoc
    by (intro and_then_cong refl) (cases s, simp_all add: extend_only_def he [simplified] H reset_def del: bytes_of_Cons)
qed

lemma calculate_pcr4_null:
  "\<not> (kf = None \<and> bls = []) \<Longrightarrow>
    calculate_pcr4 H fs st kf cf (map_option (map Some) (null_list bls)) s
      = calculate_pcr4 H fs st kf cf (Some (map Some bls)) s"
  by (cases "bls = []") (auto simp: calculate_pcr4_def null_list_def)

lemma set_null_list: "null_list xs = Some ys \<Longrightarrow> ys = xs"
  by (auto simp: null_list_def split: if_splits)

lemma srtm_pcr1: "\<lbrakk>digest_ok (e_digest E); srtm_ok E opts 1\<rbrakk> \<Longrightarrow> calculate_pcr1 (e_digest E) (files_of E) st (s_acpi opts) (s_boot_order opts) (null_list (s_bootxxxx opts)) s
    = measures_pcr (e_digest E) 1 (srtm_events E opts 1) (reset s)"
  by (simp add: srtm_ok_def srtm_events_def calculate_pcr1_aux)

lemma srtm_pcr2: "\<lbrakk>digest_ok (e_digest E); srtm_ok E opts 2\<rbrakk> \<Longrightarrow> calculate_pcr2 (e_digest E) (files_of E) st (s_drivers opts) s
    = measures_pcr (e_digest E) 2 (srtm_events E opts 2) (reset s)"
  by (simp add: srtm_ok_def srtm_events_def list_all_iff calculate_pcr2_measures)

lemma srtm_pcr3: "digest_ok (e_digest E) \<Longrightarrow> calculate_pcr3 (e_digest E) s = measures_pcr (e_digest E) 3 (srtm_events E opts 3) (reset s)"
  by (simp add: srtm_events_def calculate_pcr3_def measure_separator_measures)

lemma srtm_pcr4: "\<lbrakk>digest_ok (e_digest E); srtm_ok E opts 4\<rbrakk> \<Longrightarrow> calculate_pcr4 (e_digest E) (files_of E) st (s_kernel opts) (s_config opts)
      (map_option (map Some) (null_list (s_bootloaders opts))) s
    = measures_pcr (e_digest E) 4 (srtm_events E opts 4) (reset s)"
  by (subst calculate_pcr4_null) (auto simp: srtm_ok_def srtm_events_def Let_def list_all_iff calculate_pcr4_aux)

lemma srtm_pcr5: "\<lbrakk>digest_ok (e_digest E); srtm_ok E opts 5\<rbrakk> \<Longrightarrow> calculate_pcr5 (e_digest E) (files_of E) buf (s_gpt opts) s
    = measures_pcr (e_digest E) 5 (srtm_events E opts 5) (reset s)"
  by (simp add: srtm_ok_def srtm_events_def Let_def calculate_pcr5_aux)

lemma srtm_pcr6: "digest_ok (e_digest E) \<Longrightarrow> calculate_pcr6 (e_digest E) s = measures_pcr (e_digest E) 6 (srtm_events E opts 6) (reset s)"
  by (simp add: srtm_events_def calculate_pcr6_def measure_separator_measures)

lemma srtm_pcr7: "\<lbrakk>digest_ok (e_digest E); srtm_ok E opts 7\<rbrakk> \<Longrightarrow> calculate_pcr7 (e_digest E) (files_of E) (s_sbat opts) (s_secureboot opts) (s_pk opts) (s_kek opts)
      (s_db opts) (s_dbx opts) s = measures_pcr (e_digest E) 7 (srtm_events E opts 7) (reset s)"
  by (simp add: srtm_ok_def srtm_events_def Let_def calculate_pcr7_aux)

lemma srtm_pcr8:
  assumes "digest_ok (e_digest E)" and "srtm_ok E opts 8"
  shows "calculate_pcr8 (e_digest E) (files_of E) (e_slack E) (s_grubcmds opts) s = measures_pcr (e_digest E) 8 (srtm_events E opts 8) (reset s)"
proof -
  from assms(2) obtain f cmds sl where "s_grubcmds opts = Some f" "files_of E f = Some cmds" "0 \<notin> set cmds" "e_slack E = 0 # sl"
    by (cases "e_slack E") (auto simp: srtm_ok_def grub_ok_def grub_commands_def split: option.splits)
  with calculate_pcr8_measures [OF assms(1), of "files_of E" f cmds sl s] show ?thesis
    by (simp add: srtm_events_def grub_commands_def)
qed

lemma srtm_pcr9:
  assumes "digest_ok (e_digest E)" and "srtm_ok E opts 9"
  shows "calculate_pcr9 (e_digest E) (e_tree E) (e_depth E) (s_cmdline opts) (s_zeros opts) (s_initrd opts) (null_list (s_paths opts)) s
    = measures_pcr (e_digest E) 9 (srtm_events E opts 9) (reset s)"
proof -
  have "calculate_pcr9 (e_digest E) (e_tree E) (e_depth E) (s_cmdline opts) (s_zeros opts) (s_initrd opts) (null_list (s_paths opts)) s
    = measures_pcr (e_digest E) 9 (pcr9_events (e_digest E) (e_tree E) (e_depth E) (s_cmdline opts) (s_zeros opts) (s_initrd opts) (null_list (s_paths opts))) (reset s)"
    by (rule calculate_pcr9_aux [OF assms(1)]) (use assms(2) in \<open>auto simp: srtm_ok_def cmdline_ok_def files_of_def dest: set_null_list\<close>)
  then show ?thesis by (simp add: srtm_events_def)
qed

lemma srtm_pcr0:
  assumes "digest_ok (e_digest E)" and "srtm_ok E opts 0"
  shows "calculate_pcr0 (e_digest E) (e_decode E) (e_garbage E) (e_base E) (e_disk E) (files_of E) (the (s_ovmf opts)) (s_dump_pei opts) (s_dump_dxe opts) s
    = and_then (measures_pcr (e_digest E) 0 (srtm_events E opts 0) (reset s)) (\<lambda>s. Inr (s, files_of E))"
proof -
  from assms(2) obtain name ovmf fv where f: "s_ovmf opts = Some name" "files_of E name = Some ovmf"
      "ovmf_main_volume ovmf (main_volume ovmf)"
      "extract_lzma_fvmain_new (e_decode E) (e_garbage E) (main_volume ovmf) (e_base E) = Inr (Some fv)" "fvmain_ok fv"
    by (auto simp: srtm_ok_def fvmain_of_def split: option.splits sum.splits if_splits)
  have "fvmain_of E opts = Some fv" by (simp add: fvmain_of_def f)
  then show ?thesis
    using calculate_pcr0_aux [where fs = "files_of E" and name = name and ovmf = ovmf and fvc = "main_volume ovmf"
        and fv = fv and s = s, OF assms(1) f(2-5)] assms(2) f(1)
    by (simp add: srtm_ok_def no_dump_def srtm_events_def)
qed

section \<open>All selected registers\<close>

text \<open>
  \<open>calculated\<close> describes event log and registers after the blocks for the PCRs below \<open>k\<close>.
\<close>

definition pcr_value :: "srtm_env \<Rightarrow> srtm_opts \<Rightarrow> nat \<Rightarrow> byte list" where
  "pcr_value E opts i = replay (e_digest E) sha256 (zeros 32) (map (fst \<circ> snd) (srtm_events E opts i))"

definition calculated :: "srtm_env \<Rightarrow> srtm_opts \<Rightarrow> nat \<Rightarrow> registers \<Rightarrow> bool" where
  "calculated E opts k r \<longleftrightarrow> srtm_wf (fst r) \<and> length (snd r) = MAX_PCRS
     \<and> srtm_log_entry (fst r) = srtm_log_entry (empty_log (s_format opts) MAX_PCRS)
     \<and> (\<forall>j. j < k \<longrightarrow> j \<in> set (s_pcrs opts) \<longrightarrow> snd r ! j = pcr_value E opts j
          \<and> slot_text (fst r) j = entries (empty_log (s_format opts) MAX_PCRS) j (srtm_events E opts j))
     \<and> (\<forall>j. k \<le> j \<longrightarrow> slot_text (fst r) j = [])"

lemma calculated_step:
  assumes r: "calculated E opts k r" and k: "k < MAX_PCRS" and H: "digest_ok (e_digest E)"
  shows "\<exists>s'. measures_pcr (e_digest E) k (srtm_events E opts k) (reset \<lparr>mr = snd r ! k, evlog = fst r\<rparr>) = Inr s'
    \<and> calculated E opts (Suc k) (evlog s', (snd r)[k := mr s'])"
proof -
  note r' = r [unfolded calculated_def]
  let ?s = "reset \<lparr>mr = snd r ! k, evlog = fst r\<rparr>"
  have len: "32 \<le> length h" if "(n, h, d) \<in> set (srtm_events E opts k)" for n h d
    using srtm_events_ok [OF H, of opts k] that by (auto simp: events_ok_def)
  have wf: "srtm_wf (evlog ?s)" using r' by simp
  obtain l' where l': "log_events srtm_evlog_add k (srtm_events E opts k) (fst r) = Inr l'" "srtm_wf l'"
    "srtm_log_entry l' = srtm_log_entry (fst r)"
    "slot_text l' k = slot_text (fst r) k @ entries (fst r) k (srtm_events E opts k)"
    "\<forall>j. j \<noteq> k \<longrightarrow> slot_text l' j = slot_text (fst r) j"
    using srtm.log_events_text [where evs = "srtm_events E opts k" and l = "fst r", OF _ k] r' len
    unfolding entries_def by blast
  have m: "measures_pcr (e_digest E) k (srtm_events E opts k) ?s = Inr \<lparr>mr = pcr_value E opts k, evlog = l'\<rparr>"
    using l'(1) by (simp add: measures_def pcr_value_def)
  have "calculated E opts (Suc k) (l', (snd r)[k := pcr_value E opts k])"
    using r' l'(2-5) k by (auto simp: calculated_def less_Suc_eq entries_def)
  with m show ?thesis by (intro exI [of _ "\<lparr>mr = pcr_value E opts k, evlog = l'\<rparr>"]) simp
qed

lemma calculated_skip:
  "\<lbrakk>calculated E opts k r; k \<notin> set (s_pcrs opts)\<rbrakk> \<Longrightarrow> calculated E opts (Suc k) r"
  by (auto simp: calculated_def less_Suc_eq)

lemma if_selected_calculated:
  assumes "calculated E opts k r" and "k < MAX_PCRS" and "digest_ok (e_digest E)"
    and "\<And>s. k \<in> set (s_pcrs opts) \<Longrightarrow> calc s = measures_pcr (e_digest E) k (srtm_events E opts k) (reset s)"
  shows "\<exists>r'. if_selected (s_pcrs opts) k calc r = Inr r' \<and> calculated E opts (Suc k) r'"
proof (cases "k \<in> set (s_pcrs opts)")
  case True
  with calculated_step [OF assms(1-3)] obtain s' where
    "calc \<lparr>mr = snd r ! k, evlog = fst r\<rparr> = Inr s'" "calculated E opts (Suc k) (evlog s', (snd r)[k := mr s'])"
    using assms(4) by auto
  with True show ?thesis by (simp add: if_selected_def)
qed (use assms(1) calculated_skip in \<open>simp add: if_selected_def\<close>)

lemma srtm_calculate_calculated:
  assumes H: "digest_ok (e_digest E)" and ok: "\<And>i. i \<in> set (s_pcrs opts) \<Longrightarrow> srtm_ok E opts i"
    and stack: "length stack = MAX_PCRS"
  shows "\<exists>r. srtm_calculate E opts (empty_log (s_format opts) MAX_PCRS, stack) = Inr r \<and> calculated E opts 10 r"
proof -
  have c0: "calculated E opts 0 (empty_log (s_format opts) MAX_PCRS, stack)"
    by (simp add: calculated_def stack)
  have k: "k < MAX_PCRS" if "k \<le> 9" for k using that by (simp add: MAX_PCRS_def)
  have T: "(e_tree E)\<lparr>contents := files_of E\<rparr> = e_tree E" by (simp add: files_of_def)
  note step = if_selected_calculated [OF _ k H]
  obtain r0 where r0: "calculated E opts 1 r0" "(if contains (s_pcrs opts) 0 then
           and_then (fail_minus1 (calculate_pcr0 (e_digest E) (e_decode E) (e_garbage E) (e_base E) (e_disk E) (files_of E) (the (s_ovmf opts))
             (s_dump_pei opts) (s_dump_dxe opts) \<lparr>mr = stack ! 0, evlog = empty_log (s_format opts) MAX_PCRS\<rparr>)) (\<lambda>(s, fs).
             Inr ((evlog s, stack[0 := mr s]), fs))
         else Inr ((empty_log (s_format opts) MAX_PCRS, stack), files_of E)) = Inr (r0, files_of E)"
  proof (cases "0 \<in> set (s_pcrs opts)")
    case True
    show thesis
      using calculated_step [OF c0 k H] that True by (auto simp: srtm_pcr0 [OF H ok [OF True]])
  qed (use calculated_skip [OF c0] that in auto)
  note step = if_selected_calculated [OF _ k H, simplified]
  obtain r1 where r1: "if_selected (s_pcrs opts) 1 (calculate_pcr1 (e_digest E) (files_of E) (e_stale_sep E) (s_acpi opts)
      (s_boot_order opts) (null_list (s_bootxxxx opts))) r0 = Inr r1" "calculated E opts (Suc 1) r1"
    using step [OF r0(1) _ srtm_pcr1 [OF H ok, where st = "e_stale_sep E"]] by auto
  obtain r2 where r2: "if_selected (s_pcrs opts) 2 (calculate_pcr2 (e_digest E) (files_of E) (e_stale_image E)
      (s_drivers opts)) r1 = Inr r2" "calculated E opts (Suc 2) r2"
    using step [OF r1(2) [unfolded Suc_1] _ srtm_pcr2 [OF H ok, where st = "e_stale_image E"]] by auto
  obtain r3 where r3: "if_selected (s_pcrs opts) 3 (calculate_pcr3 (e_digest E)) r2 = Inr r3" "calculated E opts (Suc 3) r3"
    using step [OF r2(2) [simplified] _ srtm_pcr3 [OF H]] by auto
  obtain r4 where r4: "if_selected (s_pcrs opts) 4 (calculate_pcr4 (e_digest E) (files_of E) (e_stale_image E)
      (s_kernel opts) (s_config opts) (map_option (map Some) (null_list (s_bootloaders opts)))) r3 = Inr r4"
      "calculated E opts (Suc 4) r4"
    using step [OF r3(2) [simplified] _ srtm_pcr4 [OF H ok, where st = "e_stale_image E"]] by auto
  obtain r5 where r5: "if_selected (s_pcrs opts) 5 (calculate_pcr5 (e_digest E) (files_of E) (e_gpt_buf E) (s_gpt opts)) r4
      = Inr r5" "calculated E opts (Suc 5) r5"
    using step [OF r4(2) [simplified] _ srtm_pcr5 [OF H ok, where buf = "e_gpt_buf E"]] by auto
  obtain r6 where r6: "if_selected (s_pcrs opts) 6 (calculate_pcr6 (e_digest E)) r5 = Inr r6" "calculated E opts (Suc 6) r6"
    using step [OF r5(2) [simplified] _ srtm_pcr6 [OF H]] by auto
  obtain r7 where r7: "if_selected (s_pcrs opts) 7 (calculate_pcr7 (e_digest E) (files_of E) (s_sbat opts)
      (s_secureboot opts) (s_pk opts) (s_kek opts) (s_db opts) (s_dbx opts)) r6 = Inr r7" "calculated E opts (Suc 7) r7"
    using step [OF r6(2) [simplified] _ srtm_pcr7 [OF H ok]] by auto
  obtain r8 where r8: "if_selected (s_pcrs opts) 8 (calculate_pcr8 (e_digest E) (files_of E) (e_slack E)
      (s_grubcmds opts)) r7 = Inr r8" "calculated E opts (Suc 8) r8"
    using step [OF r7(2) [simplified] _ srtm_pcr8 [OF H ok]] by auto
  obtain r9 where r9: "if_selected (s_pcrs opts) 9 (calculate_pcr9 (e_digest E) (e_tree E) (e_depth E) (s_cmdline opts)
      (s_zeros opts) (s_initrd opts) (null_list (s_paths opts))) r8 = Inr r9" "calculated E opts (Suc 9) r9"
    using step [OF r8(2) [simplified] _ srtm_pcr9 [OF H ok]] by auto
  have "srtm_calculate E opts (empty_log (s_format opts) MAX_PCRS, stack) = Inr r9"
    unfolding srtm_calculate_def Let_def files_of_def [symmetric] fst_conv snd_conv r0(2) and_then_simps prod.case T
      r1(1) r2(1) r3(1) r4(1) r5(1) r6(1) r7(1) r8(1) by (rule r9(1))
  with r9(2) show ?thesis by simp
qed

section \<open>The printed report\<close>

definition srtm_json :: "nat \<Rightarrow> event \<Rightarrow> string" where
  \<open>srtm_json i = (\<lambda>(n, h, d).
     ''{'' @ nl @ tab @ ''"type":"TPM Reference Value",'' @ nl @ tab @ ''"subtype":"'' @ n @ ''",''
       @ nl @ tab @ ''"index":'' @ dec i @ '','' @ nl @ tab @ ''"sha256":"'' @ hex_string h @ ''",''
       @ nl @ tab @ ''"description":"PCR'' @ dec i @ '': '' @ d @ ''"'' @ nl @ ''}'')\<close>

definition srtm_value_json :: "nat \<Rightarrow> byte list \<Rightarrow> string" where
  \<open>srtm_value_json i v =
     ''{'' @ nl @ tab @ ''"type":"TPM Reference Value",'' @ nl @ tab @ ''"subtype":"PCR Summary",''
       @ nl @ tab @ ''"index":'' @ dec i @ '','' @ nl @ tab @ ''"sha256":"'' @ hex_string v @ ''",''
       @ nl @ tab @ ''"description":"PCR'' @ dec i @ ''"'' @ nl @ ''}''\<close>

text \<open>Entries of 4096 or more characters are cut off by \<open>snprintf\<close>.\<close>

definition fits :: "nat \<Rightarrow> event \<Rightarrow> bool" where
  "fits i ev \<longleftrightarrow> length (srtm_json i ev) + 2 < 4096"

lemma srtm_log_entry_json:
  assumes "length h = 32" and "fits i (n, h, d)"
  shows "srtm_log_entry (empty_log FORMAT_JSON k) i n h d = with_comma (srtm_json i (n, h, d))"
proof -
  have e: "srtm_entry FORMAT_JSON i n (hex_string h) d = with_comma (srtm_json i (n, h, d))"
    by (simp add: srtm_entry_def with_comma_def srtm_json_def)
  have "length (with_comma (srtm_json i (n, h, d))) < 4096"
    using assms(2) by (simp add: fits_def with_comma_def nl_def)
  then show ?thesis using assms(1) by (simp add: srtm_log_entry_def empty_log_def e)
qed

lemma entries_json:
  assumes "events_ok sha256 evs" and "list_all (fits i) evs"
  shows "entries (empty_log FORMAT_JSON k) i evs = concat (map with_comma (map (srtm_json i) evs))"
  using assms
proof (induction evs)
  case (Cons ev evs)
  obtain n h d where "ev = (n, h, d)" by (cases ev)
  with Cons show ?case by (simp add: entries_def srtm_log_entry_json)
qed (simp add: entries_def)

lemma srtm_print_log_json:
  assumes "ns \<noteq> []" and "\<And>i. i \<in> set ns \<Longrightarrow> objs i \<noteq> [] \<and> l ! i = Some (concat (map with_comma (objs i)))"
  shows "srtm_print_log FORMAT_JSON l ns = Inr (join ('','' @ nl) (concat (map objs ns)) @ '']'')"
  using assms
proof (induction ns)
  case (Cons i ns)
  then have i: "objs i \<noteq> []" "l ! i = Some (concat (map with_comma (objs i)))" by simp_all
  show ?case
  proof (cases "ns = []")
    case True
    then show ?thesis using i by (simp add: close_bracket_objects)
  next
    case False
    then have "concat (map objs ns) \<noteq> []" using Cons.prems(2) by (cases ns) auto
    then have "join ('','' @ nl) (objs i @ concat (map objs ns))
        = concat (map with_comma (objs i)) @ join ('','' @ nl) (concat (map objs ns))"
      using i(1) by (simp add: join_append with_comma_join)
    with False Cons.IH Cons.prems(2) i(2) show ?thesis by simp
  qed
qed simp

lemma srtm_summary_json:
  assumes "\<And>i. i \<in> set ns \<Longrightarrow> pcrs ! i = v i \<and> length (v i) = 32"
  shows "srtm_summary FORMAT_JSON pcrs ns = Inr (json_array (map (\<lambda>i. srtm_value_json i (v i)) ns) @ nl)"
proof -
  have "print_objects (srtm_summary_object pcrs) ns = Inr (join ('','' @ nl) (map (\<lambda>i. srtm_value_json i (v i)) ns))"
    by (rule print_objects_join)
      (use assms in \<open>simp add: srtm_summary_object_def srtm_value_json_def print_data_no_lf_def\<close>)
  then show ?thesis by (simp add: srtm_summary_def json_array_def)
qed

lemma md_update_values:
  "(\<And>i. i \<in> set ns \<Longrightarrow> pcrs ! i = v i \<and> length (v i) = 32)
    \<Longrightarrow> md_update pcrs ns ctx = Inr (ctx @ concat (map v ns))"
  by (induction ns arbitrary: ctx) auto

lemma srtm_checks_ok:
  assumes "\<And>i. i \<in> set (s_pcrs opts) \<Longrightarrow> srtm_ok E opts i"
  shows "srtm_checks opts = Inr ()"
proof -
  have "list_all (\<lambda>n. \<not> MAX_PCRS \<le> n) (s_pcrs opts)"
    using srtm_ok_le [OF assms] by (fastforce simp: list_all_iff MAX_PCRS_def)
  moreover have "\<not> (s_kernel opts = None \<and> s_bootloaders opts = [] \<and> contains (s_pcrs opts) 4)"
    using assms [of 4] by (auto simp: srtm_ok_def Let_def)
  moreover have "\<not> (s_ovmf opts = None \<and> contains (s_pcrs opts) 0)"
    using assms [of 0] by (auto simp: srtm_ok_def fvmain_of_def)
  moreover have "\<not> (s_cmdline opts = None \<and> contains (s_pcrs opts) 9)"
    using assms [of 9] by (auto simp: srtm_ok_def cmdline_ok_def)
  ultimately show ?thesis by (simp add: srtm_checks_def check_def)
qed

lemma slot_text_Some: "\<lbrakk>slot_text l i = t; t \<noteq> []\<rbrakk> \<Longrightarrow> log l ! i = Some t"
  by (auto simp: slot_text_def split: if_splits option.splits)

lemma length_pcr_value: "digest_ok (e_digest E) \<Longrightarrow> length (pcr_value E opts i) = 32"
  by (simp add: pcr_value_def length_replay)

lemma calculated_values:
  assumes "calculated E opts 10 r" and "\<And>i. i \<in> set (s_pcrs opts) \<Longrightarrow> srtm_ok E opts i" and "digest_ok (e_digest E)"
    and "i \<in> set (s_pcrs opts)"
  shows "snd r ! i = pcr_value E opts i \<and> length (pcr_value E opts i) = 32"
  using assms(1) srtm_ok_le [OF assms(2) [OF assms(4)]] assms(4) length_pcr_value [OF assms(3)]
  by (simp add: calculated_def)

lemma calculated_log:
  assumes "calculated E opts 10 r" and "\<And>i. i \<in> set (s_pcrs opts) \<Longrightarrow> srtm_ok E opts i" and "digest_ok (e_digest E)"
    and "i \<in> set (s_pcrs opts)" and "list_all (fits i) (srtm_events E opts i)" and "s_format opts = FORMAT_JSON"
  shows "log (fst r) ! i = Some (concat (map with_comma (map (srtm_json i) (srtm_events E opts i))))"
proof (rule slot_text_Some)
  show "slot_text (fst r) i = concat (map with_comma (map (srtm_json i) (srtm_events E opts i)))"
    using assms(1) srtm_ok_le [OF assms(2) [OF assms(4)]] assms(4,6)
      entries_json [OF srtm_events_ok [OF assms(3)] assms(5), of MAX_PCRS]
    by (simp add: calculated_def)
  show "concat (map with_comma (map (srtm_json i) (srtm_events E opts i))) \<noteq> []"
    using srtm_events_nonempty [OF assms(2) [OF assms(4)]] by (cases "srtm_events E opts i") (auto simp: with_comma_def)
qed

definition aggregate_json :: "byte list \<Rightarrow> string" where
  \<open>aggregate_json v = ''{'' @ nl @ tab @ ''"type":"TPM PCR Aggregate",'' @ nl @ tab @ ''"sha256":"''
     @ hex_string v @ ''"'' @ nl @ ''}'' @ nl\<close>

text \<open>
  C1. The JSON report of \<^verbatim>\<open>calculate-srtm-pcrs\<close>, from the command line to the output: when the
  inputs of the selected PCRs are well formed, the program prints a JSON array with exactly the
  events of the selected registers in the order of the selection, then an array with one value
  per register, which is the replay of the digests of its events in the log before, then the
  digest of these values.
\<close>

theorem srtm_report_replays:
  assumes H: "digest_ok (e_digest E)" and args: "srtm_options (files_of E) args = Inr opts"
    and stack: "length stack = MAX_PCRS"
    and ok: "\<And>i. i \<in> set (s_pcrs opts) \<Longrightarrow> srtm_ok E opts i"
    and fits: "\<And>i. i \<in> set (s_pcrs opts) \<Longrightarrow> list_all (fits i) (srtm_events E opts i)"
    and sel: "s_pcrs opts \<noteq> []" "s_format opts = FORMAT_JSON" "s_eventlog opts" "s_summary opts" "s_aggregate opts"
  shows "srtm_main E stack args = Inr
    (json_array (concat (map (\<lambda>i. map (srtm_json i) (srtm_events E opts i)) (s_pcrs opts))) @ nl
     @ json_array (map (\<lambda>i. srtm_value_json i (pcr_value E opts i)) (s_pcrs opts)) @ nl
     @ aggregate_json (e_digest E EVP_sha256 (concat (map (pcr_value E opts) (s_pcrs opts)))))"
proof -
  obtain r where r: "srtm_calculate E opts (empty_log (s_format opts) MAX_PCRS, stack) = Inr r" "calculated E opts 10 r"
    using srtm_calculate_calculated [OF H ok stack] by blast
  note vals = calculated_values [OF r(2) ok H]
  have "srtm_event_log FORMAT_JSON (log (fst r)) (s_pcrs opts)
      = Inr (json_array (concat (map (\<lambda>i. map (srtm_json i) (srtm_events E opts i)) (s_pcrs opts))) @ nl)"
    unfolding srtm_event_log_def
    by (subst srtm_print_log_json [OF sel(1), where objs = "\<lambda>i. map (srtm_json i) (srtm_events E opts i)"])
      (use srtm_events_nonempty [OF ok] calculated_log [OF r(2) ok H _ fits sel(2)] in \<open>auto simp: json_array_def\<close>)
  moreover have "srtm_summary FORMAT_JSON (snd r) (s_pcrs opts)
      = Inr (json_array (map (\<lambda>i. srtm_value_json i (pcr_value E opts i)) (s_pcrs opts)) @ nl)"
    by (rule srtm_summary_json [OF vals])
  moreover have "print_aggregate (e_digest E) FORMAT_JSON (snd r) (s_pcrs opts)
      = Inr (aggregate_json (e_digest E EVP_sha256 (concat (map (pcr_value E opts) (s_pcrs opts)))))"
    using H by (simp add: print_aggregate_def md_update_values [OF vals] print_data_no_lf_def aggregate_json_def)
  ultimately show ?thesis
    using sel(2-5) r(1)
    by (simp add: srtm_main_def args [unfolded files_of_def] srtm_checks_ok [OF ok] srtm_report_def)
qed

definition sample_env :: srtm_env where
  "sample_env = \<lparr>e_digest = sum_digest, e_decode = (\<lambda>p src d. (True, [])), e_garbage = (\<lambda>n. replicate n 0), e_base = 0,
     e_tree = sample_tree, e_depth = 1, e_stale_sep = False, e_stale_image = False, e_gpt_buf = [], e_slack = [], e_disk = (\<lambda>_. None)\<rparr>"

definition sample_args :: "string list" where
  "sample_args = [''--pcrs'', ''3,2'', ''-e'', ''-s'', ''-a'', ''-f'', ''json'']"

definition sample_opts :: srtm_opts where
  "sample_opts = srtm_defaults\<lparr>s_format := FORMAT_JSON, s_eventlog := True, s_summary := True, s_aggregate := True,
     s_pcrs := [3, 2], s_boot_order := [0]\<rparr>"

lemma sample_args_opts: "srtm_options fs sample_args = Inr sample_opts"
proof -
  have t: "strtok_all (\<lambda>c. c = CHR '','') ''3,2'' = [''3'', ''2'']" by (simp add: strtok_all_def)
  have d: "strtol 0 ''3'' = 3" "strtol 0 ''2'' = 2"
    by (simp_all add: strtol_def Let_def isspace_def digit_value_def is_digit_def hex_prefix_def)
  have n: "number_list 32 ''3,2'' = [3, 2]" by (simp add: number_list_def t d)
  have opt: "srtm_option fs opts ''--pcrs'' rest = value_of rest (\<lambda>v. Inr (opts\<lparr>s_pcrs := s_pcrs opts @ number_list 32 v\<rparr>))"
    "srtm_option fs opts ''-e'' rest = flag (opts\<lparr>s_eventlog := True\<rparr>)"
    "srtm_option fs opts ''-s'' rest = flag (opts\<lparr>s_summary := True\<rparr>)"
    "srtm_option fs opts ''-a'' rest = flag (opts\<lparr>s_aggregate := True\<rparr>)"
    "srtm_option fs opts ''-f'' rest = value_of rest (\<lambda>v. and_then (format_of v) (\<lambda>f. Inr (opts\<lparr>s_format := f\<rparr>)))"
    for opts rest by (simp_all add: srtm_option_def)
  show ?thesis
    by (simp add: srtm_options_def sample_args_def sample_opts_def opt n flag_def format_of_def srtm_defaults_def)
qed

theorem srtm_report_replays_witness:
  "srtm_main sample_env (replicate 24 []) sample_args = Inr
    (json_array [srtm_json 3 (separator_event sum_digest), srtm_json 2 (separator_event sum_digest)] @ nl
     @ json_array [srtm_value_json 3 (pcr_value sample_env sample_opts 3), srtm_value_json 2 (pcr_value sample_env sample_opts 2)] @ nl
     @ aggregate_json (sum_digest EVP_sha256 (pcr_value sample_env sample_opts 3 @ pcr_value sample_env sample_opts 2)))"
proof -
  have p: "s_pcrs sample_opts = [3, 2]" "s_drivers sample_opts = []" "e_digest sample_env = sum_digest"
    by (simp_all add: sample_opts_def srtm_defaults_def sample_env_def)
  have ev: "srtm_events sample_env sample_opts 3 = [separator_event sum_digest]"
    "srtm_events sample_env sample_opts 2 = [separator_event sum_digest]"
    by (simp_all add: srtm_events_def pcr2_events_def p)
  have digit: "dec i = [digit i]" if "i < 10" for i
    using that by (simp add: dec_def num_base.simps [of _ i])
  have fits: "fits i (separator_event sum_digest)" if "i < 10" for i
    using that by (simp add: fits_def srtm_json_def separator_event_def nl_def tab_def digit length_digest [OF sum_digest_ok])
  have flags: "s_format sample_opts = FORMAT_JSON" "s_eventlog sample_opts" "s_summary sample_opts" "s_aggregate sample_opts"
    by (simp_all add: sample_opts_def)
  have ok: "srtm_ok sample_env sample_opts i \<and> list_all (fits i) (srtm_events sample_env sample_opts i)"
    if "i \<in> set (s_pcrs sample_opts)" for i
  proof -
    have "i = 3 \<or> i = 2" using that by (simp add: p)
    then show ?thesis using fits [of 3] fits [of 2] by (elim disjE) (simp_all add: ev srtm_ok_def p)
  qed
  have "srtm_main sample_env (replicate 24 []) sample_args = Inr
    (json_array (concat (map (\<lambda>i. map (srtm_json i) (srtm_events sample_env sample_opts i)) (s_pcrs sample_opts))) @ nl
     @ json_array (map (\<lambda>i. srtm_value_json i (pcr_value sample_env sample_opts i)) (s_pcrs sample_opts)) @ nl
     @ aggregate_json (e_digest sample_env EVP_sha256 (concat (map (pcr_value sample_env sample_opts) (s_pcrs sample_opts)))))"
    by (rule srtm_report_replays) (use ok flags sample_args_opts in \<open>simp_all add: p sum_digest_ok MAX_PCRS_def\<close>)
  then show ?thesis by (simp only: p ev list.map concat.simps append.simps append_Nil2)
qed

text \<open>
  Fact. PCR numbers 10 to 23 pass the check of the options, but no code calculates them: the
  summary prints the indeterminate contents of the array of results, and the event log cannot
  be printed.
\<close>

theorem uncalculated_pcr_printed:
  assumes args: "srtm_options (files_of E) args = Inr opts" and sel: "s_pcrs opts = [i]" "10 \<le> i" "i < MAX_PCRS"
    and stack: "length (stack ! i) = 32" and plain: "s_format opts = FORMAT_TEXT" "s_summary opts" "\<not> s_aggregate opts"
  shows "srtm_main E stack args
    = (if s_eventlog opts then Inl (Fail (-1)) else Inr (''PCR'' @ dec i @ '': '' @ hex_string_upper (stack ! i) @ nl))"
proof -
  have checks: "srtm_checks opts = Inr ()" using sel by (simp add: srtm_checks_def check_def)
  have calc: "srtm_calculate E opts r = Inr r" for r
    using sel by (simp add: srtm_calculate_def if_selected_def)
  have nolog: "log (empty_log FORMAT_TEXT MAX_PCRS) ! i = None" using sel by (simp add: empty_log_def)
  show ?thesis
    using plain stack sel(1) nolog
    by (simp add: srtm_main_def args [unfolded files_of_def] checks calc srtm_report_def srtm_event_log_def
        srtm_summary_def srtm_summary_line_def print_data_def)
qed

lemma summary_option: "srtm_option fs opts ''-s'' rest = flag (opts\<lparr>s_summary := True\<rparr>)"
  "srtm_option fs opts ''-p'' rest = value_of rest (\<lambda>v. Inr (opts\<lparr>s_pcrs := s_pcrs opts @ number_list 32 v\<rparr>))"
  by (simp_all add: srtm_option_def)

theorem uncalculated_pcr_printed_witness:
  "srtm_main sample_env (replicate 24 (replicate 32 0xA5)) [''-p'', ''10'', ''-s'']
    = Inr (''PCR'' @ dec 10 @ '': '' @ hex_string_upper (replicate 32 0xA5) @ nl)"
proof -
  have t: "strtok_all (\<lambda>c. c = CHR '','') ''10'' = [''10'']" by (simp add: strtok_all_def)
  have d: "strtol 0 ''10'' = 10"
    by (simp add: strtol_def Let_def isspace_def digit_value_def is_digit_def hex_prefix_def)
  have n: "number_list 32 ''10'' = [10]" by (simp add: number_list_def t d)
  let ?opts = "srtm_defaults\<lparr>s_pcrs := [10], s_summary := True, s_boot_order := [0]\<rparr>"
  have "srtm_options (files_of sample_env) [''-p'', ''10'', ''-s''] = Inr ?opts"
    by (simp add: srtm_options_def summary_option n flag_def srtm_defaults_def)
  from uncalculated_pcr_printed [OF this, of 10 "replicate 24 (replicate 32 0xA5)"]
  show ?thesis by (simp add: srtm_defaults_def MAX_PCRS_def)
qed

end
