(* ===== verification/TdxMainSpec.thy ===== *)
theory TdxMainSpec
  imports TdxMain SrtmSpec
begin

text \<open>
  What \<^verbatim>\<open>calculate-tdx-mrs\<close> computes as a whole: from the command line to the printed report.
\<close>

section \<open>The events of the selected registers\<close>

definition mrtd_digest :: "tdx_env \<Rightarrow> tdx_opts \<Rightarrow> byte list option" where
  "mrtd_digest E opts = (case t_ovmf opts of None \<Rightarrow> None | Some f \<Rightarrow>
     (case t_files E f of None \<Rightarrow> None | Some b \<Rightarrow>
       (case measure_ovmf (t_digest E) (t_mrtd_stack E) b (t_qemu opts) of Inl e \<Rightarrow> None | Inr h \<Rightarrow> Some h)))"

definition cfv_of :: "tdx_env \<Rightarrow> tdx_opts \<Rightarrow> byte list option" where
  "cfv_of E opts = (case t_ovmf opts of None \<Rightarrow> None | Some f \<Rightarrow>
     (case t_files E f of None \<Rightarrow> None | Some b \<Rightarrow>
       (case measure_cfv (t_digest E) (t_cfv_stack E) b of Inl e \<Rightarrow> None | Inr h \<Rightarrow> Some h)))"

definition td_kernel_of :: "tdx_env \<Rightarrow> tdx_opts \<Rightarrow> byte list option" where
  "td_kernel_of E opts = (case t_kernel opts of None \<Rightarrow> None | Some k \<Rightarrow> td_kernel_image (t_files E) (t_config opts) k)"

definition file_of :: "tdx_env \<Rightarrow> string option \<Rightarrow> byte list option" where
  "file_of E name = (case name of None \<Rightarrow> None | Some f \<Rightarrow> t_files E f)"

definition tdx_events :: "tdx_env \<Rightarrow> tdx_opts \<Rightarrow> nat \<Rightarrow> event list" where
  "tdx_events E opts i = (let H = t_digest E in
     if i = INDEX_MRSEAM then
       [(''TDX-Module'', H sha384 (the (file_of E (t_module opts))), ''SEAMLDR Measurement: TDX-Module'')]
     else if i = INDEX_MRTD then
       [(''OVMF'', the (mrtd_digest E opts), ''TDX Module Measurement: Initial TD contents (OVMF)'')]
     else if i = INDEX_RTMR0 then
       rtmr0_events H (t_files E) (cfv_of E opts) (t_acpi opts) (t_version opts) (t_boot_order opts)
         (null_list (t_bootxxxx opts)) (t_secureboot opts) (t_pk opts) (t_kek opts) (t_db opts) (t_dbx opts)
     else if i = INDEX_RTMR1 then rtmr1_events H (the (td_kernel_of E opts)) (the (t_kernel opts)) (t_version opts)
     else if i = INDEX_RTMR2 then
       [(''EV_EVENT_TAG'', H sha384 (char16_bytes (map scast (the (file_of E (t_cmdline opts))) @ replicate (t_zeros opts) 0)),
         the (t_cmdline opts))]
     else [])"

text \<open>MRSEAM and MRTD are digests of the TDX module; the RTMRs are replays.\<close>

definition tdx_value :: "tdx_env \<Rightarrow> tdx_opts \<Rightarrow> nat \<Rightarrow> byte list" where
  "tdx_value E opts i =
     (if i = INDEX_MRSEAM \<or> i = INDEX_MRTD then fst (snd (hd (tdx_events E opts i)))
      else replay (t_digest E) sha384 (zeros 48) (map (fst \<circ> snd) (tdx_events E opts i)))"

definition tdx_ok :: "tdx_env \<Rightarrow> tdx_opts \<Rightarrow> nat \<Rightarrow> bool" where
  "tdx_ok E opts i = (let fs = t_files E in
     if i = INDEX_MRSEAM then file_of E (t_module opts) \<noteq> None
     else if i = INDEX_MRTD then (case mrtd_digest E opts of None \<Rightarrow> False | Some h \<Rightarrow> length h = 48)
     else if i = INDEX_RTMR0 then length (t_hob_stack E) = get_td_hob_size
       \<and> cfv_digest (t_digest E) fs (t_cfv_stack E) (t_ovmf opts) (cfv_of E opts)
       \<and> list_all (var_file_ok fs) [t_secureboot opts, t_pk opts, t_kek opts, t_db opts, t_dbx opts]
       \<and> acpi_ok (t_acpi opts) \<and> boot_files_ok fs (null_list (t_bootxxxx opts))
     else if i = INDEX_RTMR1 then t_dump opts = None
       \<and> (case td_kernel_of E opts of None \<Rightarrow> False | Some b \<Rightarrow> measurable b)
     else if i = INDEX_RTMR2 then file_of E (t_cmdline opts) \<noteq> None
     else i = INDEX_RTMR3)"

lemmas index_simps = INDEX_MRSEAM_def INDEX_MRTD_def INDEX_RTMR0_def INDEX_RTMR1_def INDEX_RTMR2_def
  INDEX_RTMR3_def MR_LEN_def

lemma tdx_ok_less: "tdx_ok E opts i \<Longrightarrow> i < MR_LEN"
  by (auto simp: tdx_ok_def index_simps Let_def split: if_splits)

lemma tdx_events_ok:
  assumes "digest_ok (t_digest E)" and ok: "tdx_ok E opts i"
  shows "events_ok sha384 (tdx_events E opts i)"
proof -
  have "events_ok sha384 (rtmr0_events H fs cfv cfg ver order boots sb pk kek db dbx)"
    if "digest_ok H" "cfv_digest H fs d0 f cfv" for H fs cfv cfg ver order boots sb pk kek db dbx d0 f
    using that by (auto simp: rtmr0_events_def mr_separator_event_def cfv_event_def cfv_digest_def split: option.splits)
  then show ?thesis
    using assms
    by (auto simp: tdx_events_def tdx_ok_def Let_def rtmr1_events_def mr_separator_event_def mr_action_event_def
        split: option.splits if_splits)
qed

section \<open>Each calculation\<close>

text \<open>Every calculation logs its events and sets its register.\<close>

definition tdx_effect :: "tdx_env \<Rightarrow> tdx_opts \<Rightarrow> nat \<Rightarrow> tdx_state \<Rightarrow> tdx_state res" where
  "tdx_effect E opts i s = and_then (log_events tdx_evlog_add i (tdx_events E opts i) (evlog s)) (\<lambda>l.
     Inr \<lparr>mr = tdx_value E opts i, evlog = l\<rparr>)"

lemma measures_effect:
  "\<lbrakk>i \<noteq> INDEX_MRSEAM; i \<noteq> INDEX_MRTD\<rbrakk>
    \<Longrightarrow> measures_mr (t_digest E) i (tdx_events E opts i) (reset_mr s) = tdx_effect E opts i s"
  by (simp add: measures_def tdx_effect_def tdx_value_def reset_mr_def)

lemma effect_mrseam:
  assumes "tdx_ok E opts INDEX_MRSEAM"
  shows "calculate_mrseam (t_digest E) (t_files E) (the (t_module opts)) s = tdx_effect E opts INDEX_MRSEAM s"
proof -
  obtain f b where f: "t_module opts = Some f" "t_files E f = Some b"
    using assms by (auto simp: tdx_ok_def file_of_def split: option.splits)
  then show ?thesis
    by (cases s) (simp add: calculate_mrseam_def tdx_effect_def tdx_events_def tdx_value_def file_of_def hash_file_eq
      log_only_def and_then_assoc reset_mr_def)
qed

lemma effect_mrtd:
  assumes "tdx_ok E opts INDEX_MRTD"
  shows "calculate_mrtd (t_digest E) (t_files E) (t_mrtd_stack E) (the (t_ovmf opts)) (t_qemu opts) s
    = tdx_effect E opts INDEX_MRTD s"
proof -
  obtain f b h where f: "t_ovmf opts = Some f" "t_files E f = Some b"
      "measure_ovmf (t_digest E) (t_mrtd_stack E) b (t_qemu opts) = Inr h"
    using assms by (auto simp: tdx_ok_def index_simps mrtd_digest_def split: option.splits sum.splits)
  then have "mrtd_digest E opts = Some h" by (simp add: mrtd_digest_def)
  then show ?thesis using f
    by (cases s) (simp add: calculate_mrtd_def tdx_effect_def tdx_events_def tdx_value_def read_file_def
      log_only_def and_then_assoc reset_mr_def index_simps)
qed

lemma effect_rtmr0:
  assumes "digest_ok (t_digest E)" and "tdx_ok E opts INDEX_RTMR0"
  shows "calculate_rtmr0 (t_digest E) (t_files E) st (t_hob_stack E) (t_cfv_stack E) (t_ovmf opts) (t_acpi opts)
      (t_version opts) (t_boot_order opts) (null_list (t_bootxxxx opts)) (t_secureboot opts) (t_pk opts) (t_kek opts)
      (t_db opts) (t_dbx opts) s = tdx_effect E opts INDEX_RTMR0 s"
proof -
  have ev: "tdx_events E opts INDEX_RTMR0 = rtmr0_events (t_digest E) (t_files E) (cfv_of E opts) (t_acpi opts)
      (t_version opts) (t_boot_order opts) (null_list (t_bootxxxx opts)) (t_secureboot opts) (t_pk opts) (t_kek opts)
      (t_db opts) (t_dbx opts)"
    by (simp add: tdx_events_def index_simps)
  have ok: "length (t_hob_stack E) = get_td_hob_size"
    "cfv_digest (t_digest E) (t_files E) (t_cfv_stack E) (t_ovmf opts) (cfv_of E opts)"
    "list_all (var_file_ok (t_files E)) [t_secureboot opts, t_pk opts, t_kek opts, t_db opts, t_dbx opts]"
    "acpi_ok (t_acpi opts)" "boot_files_ok (t_files E) (null_list (t_bootxxxx opts))"
    using assms(2) by (simp_all add: tdx_ok_def index_simps Let_def)
  have "tdx_effect E opts INDEX_RTMR0 s = measures_mr (t_digest E) INDEX_RTMR0 (tdx_events E opts INDEX_RTMR0) (reset_mr s)"
    by (rule measures_effect [symmetric]) (simp_all add: index_simps)
  then show ?thesis unfolding ev using calculate_rtmr0_aux [OF assms(1) ok] by simp
qed

lemma effect_rtmr1:
  assumes "digest_ok (t_digest E)" and "tdx_ok E opts INDEX_RTMR1"
  shows "calculate_rtmr1 (t_digest E) (t_disk E) (t_files E) st ss (the (t_kernel opts)) (t_config opts) (t_dump opts) (t_version opts) s
    = and_then (tdx_effect E opts INDEX_RTMR1 s) (\<lambda>s. Inr (s, t_files E))"
proof -
  obtain k b where k: "t_kernel opts = Some k" "td_kernel_image (t_files E) (t_config opts) k = Some b" "measurable b" "t_dump opts = None"
    using assms(2) by (auto simp: tdx_ok_def index_simps td_kernel_of_def split: option.splits)
  have "tdx_events E opts INDEX_RTMR1 = rtmr1_events (t_digest E) b k (t_version opts)"
    by (simp add: tdx_events_def index_simps td_kernel_of_def k)
  then show ?thesis
    using calculate_rtmr1_aux [OF assms(1) k(2,3)] measures_effect [of INDEX_RTMR1 E opts s]
    by (simp add: k(1,4) index_simps)
qed

lemma effect_rtmr2:
  assumes "digest_ok (t_digest E)" and "tdx_ok E opts INDEX_RTMR2"
  shows "calculate_rtmr2 (t_digest E) (t_files E) (the (t_cmdline opts)) (t_zeros opts) s = tdx_effect E opts INDEX_RTMR2 s"
proof -
  obtain f b where f: "t_cmdline opts = Some f" "t_files E f = Some b"
    using assms(2) by (auto simp: tdx_ok_def index_simps file_of_def split: option.splits)
  show ?thesis
    using calculate_rtmr2_measures [where fs = "t_files E" and f = f and b = b, OF assms(1) f(2)] measures_effect [of INDEX_RTMR2 E opts s]
    by (simp add: f tdx_events_def index_simps file_of_def)
qed

lemma effect_rtmr3: "calculate_rtmr3 s = tdx_effect E opts INDEX_RTMR3 s"
  by (simp add: calculate_rtmr3_def tdx_effect_def tdx_events_def tdx_value_def index_simps reset_mr_def)

section \<open>All selected registers\<close>

text \<open>\<open>tdx_done\<close> describes event log and registers after the blocks for the registers in \<open>S\<close>.\<close>

definition tdx_entries :: "eventlog_t \<Rightarrow> nat \<Rightarrow> event list \<Rightarrow> string" where
  "tdx_entries l i evs = concat (map (\<lambda>(n, h, d). tdx_log_entry l i n h d) evs)"

definition tdx_done :: "tdx_env \<Rightarrow> tdx_opts \<Rightarrow> nat set \<Rightarrow> registers \<Rightarrow> bool" where
  "tdx_done E opts S r \<longleftrightarrow> tdx_wf (fst r) \<and> length (snd r) = MR_LEN
     \<and> tdx_log_entry (fst r) = tdx_log_entry (empty_log (t_format opts) MR_LEN)
     \<and> (\<forall>j\<in>S \<inter> set (t_mrs opts). snd r ! j = tdx_value E opts j)
     \<and> (\<forall>j<MR_LEN. log (fst r) ! j = (if j \<in> S \<inter> set (t_mrs opts) \<and> tdx_events E opts j \<noteq> []
          then Some (tdx_entries (empty_log (t_format opts) MR_LEN) j (tdx_events E opts j)) else None))"

lemma log_events_slot:
  assumes "log_events tdx_evlog_add i evs l = Inr l'" and "tdx_wf l" and "log l ! i = None" and "i < MR_LEN"
  shows "log l' ! i = (if evs = [] then None else Some (tdx_entries l i evs))
    \<and> (\<forall>j. j \<noteq> i \<longrightarrow> log l' ! j = log l ! j)"
proof -
  have gen: "log l' ! i = (if evs = [] then log l ! i
        else Some ((case log l ! i of None \<Rightarrow> [] | Some t \<Rightarrow> t) @ tdx_entries l i evs))
      \<and> (\<forall>j. j \<noteq> i \<longrightarrow> log l' ! j = log l ! j)"
    if "log_events tdx_evlog_add i evs l = Inr l'" "tdx_wf l" for evs l
    using that
  proof (induction evs arbitrary: l)
    case (Cons ev evs)
    obtain n h d where ev: "ev = (n, h, d)" by (cases ev)
    from Cons.prems(1) obtain l1 where l1: "tdx_evlog_add l i n h d = Inr l1" "log_events tdx_evlog_add i evs l1 = Inr l'"
      by (auto simp: ev res_simps)
    have wf1: "tdx_wf l1" and e1: "tdx_log_entry l1 = tdx_log_entry l"
      using tdx.add_wf [OF Cons.prems(2) l1(1)] tdx.add_entry [OF Cons.prems(2) l1(1)] by simp_all
    have "log l1 ! i = Some ((case log l ! i of None \<Rightarrow> [] | Some t \<Rightarrow> t) @ tdx_log_entry l i n h d)
        \<and> (\<forall>j. j \<noteq> i \<longrightarrow> log l1 ! j = log l ! j)"
      using l1(1) assms(4) Cons.prems(2)
      by (auto simp: tdx_evlog_add_def tdx_log_entry_def append_slot_def tdx_wf_def res_simps split: option.splits if_splits)
    with Cons.IH [OF l1(2) wf1] show ?case by (simp add: ev tdx_entries_def e1)
  qed (simp add: tdx_entries_def)
  from gen [OF assms(1,2)] assms(3) show ?thesis by simp
qed

lemma tdx_done_step:
  assumes r: "tdx_done E opts S r" and i: "i < MR_LEN" "i \<notin> S" "i \<in> set (t_mrs opts)" and H: "digest_ok (t_digest E)" and ok: "tdx_ok E opts i"
  shows "\<exists>s'. tdx_effect E opts i \<lparr>mr = snd r ! i, evlog = fst r\<rparr> = Inr s'
    \<and> tdx_done E opts (insert i S) (evlog s', (snd r)[i := mr s'])"
proof -
  note r' = r [unfolded tdx_done_def]
  have len: "48 \<le> length h" if "(n, h, d) \<in> set (tdx_events E opts i)" for n h d
    using tdx_events_ok [OF H ok] that by (auto simp: events_ok_def)
  obtain l' where l': "log_events tdx_evlog_add i (tdx_events E opts i) (fst r) = Inr l'" "tdx_wf l'"
    "tdx_log_entry l' = tdx_log_entry (fst r)"
    using tdx.log_events_text [where evs = "tdx_events E opts i" and l = "fst r", OF _ i(1)] r' len by blast
  have none: "log (fst r) ! i = None" using r' i by simp
  have eff: "tdx_effect E opts i \<lparr>mr = snd r ! i, evlog = fst r\<rparr> = Inr \<lparr>mr = tdx_value E opts i, evlog = l'\<rparr>"
    by (simp add: tdx_effect_def l'(1))
  have e: "tdx_entries (fst r) j = tdx_entries (empty_log (t_format opts) MR_LEN) j" for j
    using r' by (intro ext) (simp add: tdx_entries_def)
  have slots: "log l' ! j = (if j \<in> insert i S \<inter> set (t_mrs opts) \<and> tdx_events E opts j \<noteq> []
      then Some (tdx_entries (empty_log (t_format opts) MR_LEN) j (tdx_events E opts j)) else None)" if "j < MR_LEN" for j
    using log_events_slot [OF l'(1) _ none i(1)] r' that i(3) by (cases "j = i") (simp_all add: e)
  have vals: "(snd r)[i := tdx_value E opts i] ! j = tdx_value E opts j" if "j \<in> S \<inter> set (t_mrs opts)" for j
    using r' i that by (cases "j = i") simp_all
  have "tdx_done E opts (insert i S) (l', (snd r)[i := tdx_value E opts i])"
    using vals r' l'(2,3) i slots unfolding tdx_done_def by simp
  with eff show ?thesis by (intro exI [of _ "\<lparr>mr = tdx_value E opts i, evlog = l'\<rparr>"]) simp
qed

lemma if_selected_tdx:
  assumes r: "tdx_done E opts S r" and i: "i < MR_LEN" "i \<notin> S" and H: "digest_ok (t_digest E)"
    and ok: "\<And>j. j \<in> set (t_mrs opts) \<Longrightarrow> tdx_ok E opts j"
    and calc: "\<And>s. i \<in> set (t_mrs opts) \<Longrightarrow> calc s = tdx_effect E opts i s"
  shows "\<exists>r'. if_selected (t_mrs opts) i calc r = Inr r' \<and> tdx_done E opts (insert i S) r'"
proof (cases "i \<in> set (t_mrs opts)")
  case True
  with tdx_done_step [OF r i True H ok [OF True]] calc show ?thesis by (auto simp: if_selected_def)
next
  case False
  then have "tdx_done E opts (insert i S) r" using r by (auto simp: tdx_done_def)
  with False show ?thesis by (simp add: if_selected_def)
qed

lemma tdx_calculate_done:
  assumes H: "digest_ok (t_digest E)" and ok: "\<And>i. i \<in> set (t_mrs opts) \<Longrightarrow> tdx_ok E opts i"
    and stack: "length stack = MR_LEN"
  shows "\<exists>r. tdx_calculate E opts (empty_log (t_format opts) MR_LEN, stack) = Inr r \<and> tdx_done E opts {..<MR_LEN} r"
proof -
  let ?r0 = "(empty_log (t_format opts) MR_LEN, stack)"
  have c0: "tdx_done E opts {} ?r0" by (simp add: tdx_done_def stack) (simp add: empty_log_def)
  note step = if_selected_tdx [OF _ _ _ H ok]
  obtain r1 where r1: "if_selected (t_mrs opts) INDEX_MRSEAM (calculate_mrseam (t_digest E) (t_files E) (the (t_module opts))) ?r0
      = Inr r1" "tdx_done E opts {5} r1"
    using step [OF c0 _ _ _ effect_mrseam [OF ok]] by (auto simp: index_simps)
  obtain r2 where r2: "if_selected (t_mrs opts) INDEX_MRTD (calculate_mrtd (t_digest E) (t_files E) (t_mrtd_stack E)
      (the (t_ovmf opts)) (t_qemu opts)) r1 = Inr r2" "tdx_done E opts {0, 5} r2"
    using step [OF r1(2) _ _ _ effect_mrtd [OF ok]] by (auto simp: index_simps)
  obtain r3 where r3: "if_selected (t_mrs opts) INDEX_RTMR0 (calculate_rtmr0 (t_digest E) (t_files E) (t_stale_sep E)
      (t_hob_stack E) (t_cfv_stack E) (t_ovmf opts) (t_acpi opts) (t_version opts) (t_boot_order opts)
      (null_list (t_bootxxxx opts)) (t_secureboot opts) (t_pk opts) (t_kek opts) (t_db opts) (t_dbx opts)) r2 = Inr r3"
      "tdx_done E opts {1, 0, 5} r3"
    using step [OF r2(2) _ _ _ effect_rtmr0 [OF H ok, where st = "t_stale_sep E"]] by (auto simp: index_simps)
  obtain r4 where r4: "(if contains (t_mrs opts) INDEX_RTMR1 then
           and_then (fail_minus1 (calculate_rtmr1 (t_digest E) (t_disk E) (t_files E) (t_stale_image E) (t_stale_sep E)
             (the (t_kernel opts)) (t_config opts) (t_dump opts) (t_version opts)
             \<lparr>mr = snd r3 ! INDEX_RTMR1, evlog = fst r3\<rparr>)) (\<lambda>(s, fs).
             Inr ((evlog s, (snd r3)[INDEX_RTMR1 := mr s]), fs))
         else Inr (r3, t_files E)) = Inr (r4, t_files E)" "tdx_done E opts {2, 1, 0, 5} r4"
  proof (cases "INDEX_RTMR1 \<in> set (t_mrs opts)")
    case True
    obtain s' where "tdx_effect E opts INDEX_RTMR1 \<lparr>mr = snd r3 ! INDEX_RTMR1, evlog = fst r3\<rparr> = Inr s'"
        "tdx_done E opts (insert INDEX_RTMR1 {1, 0, 5}) (evlog s', (snd r3)[INDEX_RTMR1 := mr s'])"
      using tdx_done_step [OF r3(2) _ _ True H ok [OF True]] by (auto simp: index_simps)
    with True that show thesis by (simp add: effect_rtmr1 [OF H ok [OF True]] index_simps)
  next
    case False
    then have "tdx_done E opts {2, 1, 0, 5} r3" using r3(2) by (auto simp: tdx_done_def index_simps)
    with False that show thesis by simp
  qed
  obtain r5 where r5: "if_selected (t_mrs opts) INDEX_RTMR2 (calculate_rtmr2 (t_digest E) (t_files E) (the (t_cmdline opts))
      (t_zeros opts)) r4 = Inr r5" "tdx_done E opts {3, 2, 1, 0, 5} r5"
    using step [OF r4(2) _ _ _ effect_rtmr2 [OF H ok]] by (auto simp: index_simps)
  obtain r6 where r6: "if_selected (t_mrs opts) INDEX_RTMR3 calculate_rtmr3 r5 = Inr r6" "tdx_done E opts {4, 3, 2, 1, 0, 5} r6"
    using step [OF r5(2) _ _ _ effect_rtmr3] by (auto simp: index_simps)
  have all: "{..<MR_LEN} = {4, 3, 2, 1, 0, 5}" by (auto simp: index_simps)
  have "tdx_calculate E opts ?r0 = Inr r6"
    unfolding tdx_calculate_def Let_def r1(1) and_then_simps r2(1) r3(1) r4(1) prod.case r5(1) by (rule r6(1))
  with r6(2) show ?thesis unfolding all by blast
qed

section \<open>The printed report\<close>

definition tdx_json :: "nat \<Rightarrow> event \<Rightarrow> string" where
  \<open>tdx_json i = (\<lambda>(n, h, d).
     ''{'' @ nl @ tab @ ''"type":"TDX Reference Value",'' @ nl @ tab @ ''"subtype":"'' @ n @ ''",''
       @ nl @ tab @ ''"index":'' @ dec i @ '','' @ nl @ tab @ ''"sha384":"'' @ hex_string h @ ''",''
       @ nl @ tab @ ''"description":"'' @ index_to_mr i @ '': '' @ d @ ''"'' @ nl @ ''}'')\<close>

definition tdx_value_json :: "nat \<Rightarrow> byte list \<Rightarrow> string" where
  \<open>tdx_value_json i v =
     ''{'' @ nl @ tab @ ''"type":"TDX Reference Value",'' @ nl @ tab @ ''"subtype":"MR Summary",''
       @ nl @ tab @ ''"index":'' @ dec i @ '','' @ nl @ tab @ ''"sha384":"'' @ hex_string v @ ''",''
       @ nl @ tab @ ''"description":"'' @ index_to_mr i @ ''"'' @ nl @ ''}''\<close>

text \<open>Entries of 1024 or more characters are cut off by \<open>snprintf\<close>.\<close>

definition tdx_fits :: "nat \<Rightarrow> event \<Rightarrow> bool" where
  "tdx_fits i ev \<longleftrightarrow> length (tdx_json i ev) + 2 < 1024"

lemma tdx_log_entry_json:
  assumes "length h = 48" and "tdx_fits i (n, h, d)"
  shows "tdx_log_entry (empty_log FORMAT_JSON k) i n h d = with_comma (tdx_json i (n, h, d))"
proof -
  have e: "tdx_entry FORMAT_JSON i n (hex_string h) d = with_comma (tdx_json i (n, h, d))"
    by (simp add: tdx_entry_def with_comma_def tdx_json_def)
  have "length (with_comma (tdx_json i (n, h, d))) < 1024"
    using assms(2) by (simp add: tdx_fits_def with_comma_def nl_def)
  then show ?thesis using assms(1) by (simp add: tdx_log_entry_def empty_log_def e)
qed

lemma tdx_entries_json:
  assumes "events_ok sha384 evs" and "list_all (tdx_fits i) evs"
  shows "tdx_entries (empty_log FORMAT_JSON k) i evs = concat (map with_comma (map (tdx_json i) evs))"
  using assms
proof (induction evs)
  case (Cons ev evs)
  obtain n h d where "ev = (n, h, d)" by (cases ev)
  with Cons show ?case by (simp add: tdx_entries_def tdx_log_entry_json)
qed (simp add: tdx_entries_def)

text \<open>Ascending selections: the last register with events closes the array.\<close>

lemma tdx_print_log_json:
  assumes "sorted_wrt (<) ns" and "\<And>i. i \<in> set ns \<Longrightarrow> i < MR_LEN" and "length l = MR_LEN"
    and "\<And>i. i \<in> set ns \<Longrightarrow> l ! i = (if objs i = [] then None else Some (concat (map with_comma (objs i))))"
    and "\<And>i j. \<lbrakk>i \<in> set ns; i < j; j < MR_LEN; j \<notin> set ns\<rbrakk> \<Longrightarrow> l ! j = None"
  shows "tdx_print_log FORMAT_JSON l ns
    = Inr (if concat (map objs ns) = [] then [] else join ('','' @ nl) (concat (map objs ns)) @ '']'')"
  using assms
proof (induction ns arbitrary: l)
  case (Cons i ns)
  have gt: "i < j" if "j \<in> set ns" for j using Cons.prems(1) that by simp
  have IH: "tdx_print_log FORMAT_JSON l' ns
      = Inr (if concat (map objs ns) = [] then [] else join ('','' @ nl) (concat (map objs ns)) @ '']'')"
    if l': "length l' = MR_LEN" "\<And>j. j \<noteq> i \<Longrightarrow> l' ! j = l ! j" for l'
  proof (rule Cons.IH)
    show "l' ! j = None" if "k \<in> set ns" "k < j" "j < MR_LEN" "j \<notin> set ns" for k j
      using Cons.prems(5) [of k j] that gt [of k] l'(2) [of j] by auto
    show "l' ! j = (if objs j = [] then None else Some (concat (map with_comma (objs j))))" if "j \<in> set ns" for j
      using Cons.prems(4) [of j] that gt [of j] l'(2) [of j] by auto
  qed (use Cons.prems l' in auto)
  have i: "l ! i = (if objs i = [] then None else Some (concat (map with_comma (objs i))))" "i < MR_LEN"
    using Cons.prems by simp_all
  show ?case
  proof (cases "objs i = []")
    case True
    with i IH [OF Cons.prems(3)] show ?thesis by simp
  next
    case ne: False
    have last: "last_entry_json FORMAT_JSON l i \<longleftrightarrow> concat (map objs ns) = []"
    proof -
      have "(\<forall>j. i < j \<and> j < MR_LEN \<longrightarrow> l ! j = None) \<longleftrightarrow> (\<forall>j\<in>set ns. objs j = [])"
      proof
        assume a: "\<forall>j. i < j \<and> j < MR_LEN \<longrightarrow> l ! j = None"
        show "\<forall>j\<in>set ns. objs j = []"
          using a gt Cons.prems(2,4) by (metis list.set_intros(2) option.distinct(1))
      next
        assume b: "\<forall>j\<in>set ns. objs j = []"
        show "\<forall>j. i < j \<and> j < MR_LEN \<longrightarrow> l ! j = None"
          using b Cons.prems(4,5) by (metis list.set_intros(1,2) not_less_iff_gr_or_eq set_ConsD)
      qed
      then show ?thesis
        by (auto simp: last_entry_json_def list_all_iff MR_LEN_def Suc_le_eq)
    qed
    have closed: "tdx_print_log FORMAT_JSON (l[i := Some t]) ns
        = Inr (if concat (map objs ns) = [] then [] else join ('','' @ nl) (concat (map objs ns)) @ '']'')" for t
      by (rule IH) (simp_all add: Cons.prems(3))
    show ?thesis
    proof (cases "concat (map objs ns) = []")
      case True
      then have "last_entry_json FORMAT_JSON l i" using last by simp
      moreover have e: "concat (map objs (i # ns)) = objs i" using True by simp
      moreover have "tdx_print_log FORMAT_JSON (l[i := Some t]) ns = Inr []" for t using closed True by simp
      ultimately show ?thesis unfolding e using i ne by (simp add: close_bracket_objects)
    next
      case False
      then have "\<not> last_entry_json FORMAT_JSON l i" using last by simp
      moreover have "join ('','' @ nl) (objs i @ concat (map objs ns))
          = concat (map with_comma (objs i)) @ join ('','' @ nl) (concat (map objs ns))"
        using ne False by (simp add: join_append with_comma_join)
      moreover have "concat (map objs (i # ns)) \<noteq> []" using ne by simp
      ultimately show ?thesis using i ne closed False by simp
    qed
  qed
qed simp

lemma tdx_summary_json:
  assumes "\<And>i. i \<in> set ns \<Longrightarrow> mrs ! i = v i \<and> length (v i) = 48"
  shows "tdx_summary FORMAT_JSON mrs ns = Inr (json_array (map (\<lambda>i. tdx_value_json i (v i)) ns) @ nl)"
proof -
  have "print_objects (tdx_summary_object mrs) ns = Inr (join ('','' @ nl) (map (\<lambda>i. tdx_value_json i (v i)) ns))"
    by (rule print_objects_join)
      (use assms in \<open>simp add: tdx_summary_object_def tdx_value_json_def print_data_no_lf_def\<close>)
  then show ?thesis by (simp add: tdx_summary_def json_array_def)
qed

lemma tdx_checks_ok:
  assumes ok: "\<And>i. i \<in> set (t_mrs opts) \<Longrightarrow> tdx_ok E opts i" and "t_mrs opts \<noteq> []"
  shows "tdx_checks opts = Inr ()"
proof -
  have "list_all (\<lambda>n. \<not> MR_LEN \<le> n) (t_mrs opts)"
    using tdx_ok_less [OF ok] by (fastforce simp: list_all_iff)
  moreover have "\<not> (t_kernel opts = None \<and> contains (t_mrs opts) INDEX_RTMR1)"
    using ok [of INDEX_RTMR1] by (auto simp: tdx_ok_def index_simps td_kernel_of_def)
  moreover have "\<not> (t_ovmf opts = None \<and> contains (t_mrs opts) INDEX_MRTD)"
    using ok [of INDEX_MRTD] by (auto simp: tdx_ok_def index_simps mrtd_digest_def)
  moreover have "\<not> (t_module opts = None \<and> contains (t_mrs opts) INDEX_MRSEAM)"
    using ok [of INDEX_MRSEAM] by (auto simp: tdx_ok_def index_simps file_of_def)
  moreover have "\<not> (t_cmdline opts = None \<and> contains (t_mrs opts) INDEX_RTMR2)"
    using ok [of INDEX_RTMR2] by (auto simp: tdx_ok_def index_simps file_of_def)
  ultimately show ?thesis using assms(2) by (simp add: tdx_checks_def check_def Let_def)
qed

lemma length_tdx_value:
  assumes H: "digest_ok (t_digest E)" and ok: "tdx_ok E opts i"
  shows "length (tdx_value E opts i) = 48"
proof (cases "i = INDEX_MRSEAM \<or> i = INDEX_MRTD")
  case True
  with tdx_events_ok [OF H ok] show ?thesis
    by (auto simp: tdx_value_def tdx_events_def index_simps split: if_splits)
next
  case False
  with H show ?thesis by (simp add: tdx_value_def length_replay)
qed

lemma tdx_done_values:
  assumes "tdx_done E opts {..<MR_LEN} r" and ok: "\<And>i. i \<in> set (t_mrs opts) \<Longrightarrow> tdx_ok E opts i"
    and H: "digest_ok (t_digest E)" and i: "i \<in> set (t_mrs opts)"
  shows "snd r ! i = tdx_value E opts i \<and> length (tdx_value E opts i) = 48"
  using assms(1) i tdx_ok_less [OF ok [OF i]] length_tdx_value [OF H ok [OF i]] by (auto simp: tdx_done_def)

lemma tdx_done_log:
  assumes "tdx_done E opts {..<MR_LEN} r" and ok: "\<And>i. i \<in> set (t_mrs opts) \<Longrightarrow> tdx_ok E opts i"
    and H: "digest_ok (t_digest E)" and fits: "\<And>i. i \<in> set (t_mrs opts) \<Longrightarrow> list_all (tdx_fits i) (tdx_events E opts i)"
    and "t_format opts = FORMAT_JSON" and "j < MR_LEN"
  shows "log (fst r) ! j = (if j \<in> set (t_mrs opts) \<and> tdx_events E opts j \<noteq> []
    then Some (concat (map with_comma (map (tdx_json j) (tdx_events E opts j)))) else None)"
  using assms(1,5,6) tdx_entries_json [OF tdx_events_ok [OF H ok] fits, of j MR_LEN]
  by (auto simp: tdx_done_def)

text \<open>
  C2. The JSON report of \<^verbatim>\<open>calculate-tdx-mrs\<close>, from the command line to the output, for
  registers selected in ascending order: the event log is one JSON array of exactly the events of
  the registers, and the summary gives for each its value, which for the runtime registers is
  the replay of the events of the log.
\<close>

theorem tdx_report_replays:
  assumes H: "digest_ok (t_digest E)" and args: "tdx_options (t_files E) args = Inr opts"
    and stack: "length stack = MR_LEN"
    and ok: "\<And>i. i \<in> set (t_mrs opts) \<Longrightarrow> tdx_ok E opts i"
    and fits: "\<And>i. i \<in> set (t_mrs opts) \<Longrightarrow> list_all (tdx_fits i) (tdx_events E opts i)"
    and sel: "sorted_wrt (<) (t_mrs opts)" "concat (map (tdx_events E opts) (t_mrs opts)) \<noteq> []"
    and flags: "t_format opts = FORMAT_JSON" "t_eventlog opts" "t_summary opts"
  shows "tdx_main E stack args = Inr
    (json_array (concat (map (\<lambda>i. map (tdx_json i) (tdx_events E opts i)) (t_mrs opts))) @ nl
     @ json_array (map (\<lambda>i. tdx_value_json i (tdx_value E opts i)) (t_mrs opts)) @ nl)"
proof -
  obtain r where r: "tdx_calculate E opts (empty_log (t_format opts) MR_LEN, stack) = Inr r" "tdx_done E opts {..<MR_LEN} r"
    using tdx_calculate_done [OF H ok stack] by blast
  let ?objs = "\<lambda>i. map (tdx_json i) (tdx_events E opts i)"
  have len: "length (log (fst r)) = MR_LEN" using r(2) by (simp add: tdx_done_def tdx_wf_def)
  have "tdx_print_log FORMAT_JSON (log (fst r)) (t_mrs opts)
    = Inr (if concat (map ?objs (t_mrs opts)) = [] then [] else join ('','' @ nl) (concat (map ?objs (t_mrs opts))) @ '']'')"
    by (rule tdx_print_log_json [OF sel(1) tdx_ok_less [OF ok] len])
      (use tdx_done_log [OF r(2) ok H fits flags(1)] tdx_ok_less [OF ok] in auto)
  moreover have "concat (map ?objs (t_mrs opts)) \<noteq> []" using sel(2) by auto
  ultimately have "tdx_event_log FORMAT_JSON (log (fst r)) (t_mrs opts)
      = Inr (json_array (concat (map ?objs (t_mrs opts))) @ nl)"
    by (simp add: tdx_event_log_def json_array_def)
  moreover have "tdx_summary FORMAT_JSON (snd r) (t_mrs opts)
      = Inr (json_array (map (\<lambda>i. tdx_value_json i (tdx_value E opts i)) (t_mrs opts)) @ nl)"
    by (rule tdx_summary_json [OF tdx_done_values [OF r(2) ok H]])
  moreover have "t_mrs opts \<noteq> []" using sel(2) by auto
  ultimately show ?thesis
    using flags r(1) by (simp add: tdx_main_def args tdx_checks_ok [OF ok] tdx_report_def)
qed

text \<open>
  C38. In descending order the bracket goes behind the first register, since the code looks for
  the last slot of the log instead of the last register printed: for a selection of two
  registers the array is closed before the events of the second, which end in a comma.
\<close>

theorem tdx_descending_malformed:
  assumes H: "digest_ok (t_digest E)" and args: "tdx_options (t_files E) args = Inr opts"
    and stack: "length stack = MR_LEN"
    and ok: "\<And>i. i \<in> set (t_mrs opts) \<Longrightarrow> tdx_ok E opts i"
    and fits: "\<And>i. i \<in> set (t_mrs opts) \<Longrightarrow> list_all (tdx_fits i) (tdx_events E opts i)"
    and sel: "t_mrs opts = [i, j]" "j < i" "tdx_events E opts i \<noteq> []" "tdx_events E opts j \<noteq> []"
    and flags: "t_format opts = FORMAT_JSON" "t_eventlog opts" "\<not> t_summary opts"
  shows "tdx_main E stack args = Inr
    (json_array (map (tdx_json i) (tdx_events E opts i)) @ concat (map with_comma (map (tdx_json j) (tdx_events E opts j))) @ nl)"
proof -
  obtain r where r: "tdx_calculate E opts (empty_log (t_format opts) MR_LEN, stack) = Inr r" "tdx_done E opts {..<MR_LEN} r"
    using tdx_calculate_done [OF H ok stack] by blast
  let ?objs = "\<lambda>i. map (tdx_json i) (tdx_events E opts i)"
  have slot: "log (fst r) ! k = (if k \<in> set (t_mrs opts) \<and> tdx_events E opts k \<noteq> []
      then Some (concat (map with_comma (?objs k))) else None)" if "k < MR_LEN" for k
    by (rule tdx_done_log [OF r(2) ok H fits flags(1) that])
  have less: "i < MR_LEN" "j < MR_LEN" using tdx_ok_less [OF ok] sel(1) by auto
  have i: "log (fst r) ! i = Some (concat (map with_comma (?objs i)))"
    and j: "log (fst r) ! j = Some (concat (map with_comma (?objs j)))"
    using slot [OF less(1)] slot [OF less(2)] sel by simp_all
  have li: "last_entry_json FORMAT_JSON (log (fst r)) i"
    using slot sel(1,2) by (auto simp: last_entry_json_def list_all_iff)
  have lj: "\<not> last_entry_json FORMAT_JSON ((log (fst r))[i := Some t]) j" for t
    using sel(2) less r(2) by (auto simp: last_entry_json_def list_all_iff tdx_done_def tdx_wf_def MR_LEN_def intro!: bexI [of _ i])
  have "close_bracket (concat (map with_comma (?objs i))) = Inr (join ('','' @ nl) (?objs i) @ '']'')"
    by (rule close_bracket_objects) (simp add: sel(3))
  then have "tdx_print_log FORMAT_JSON (log (fst r)) [i, j]
      = Inr (join ('','' @ nl) (?objs i) @ '']'' @ concat (map with_comma (?objs j)))"
    using i j li lj sel(2) by simp
  moreover have "tdx_checks opts = Inr ()" by (rule tdx_checks_ok [OF ok]) (simp_all add: sel(1))
  ultimately show ?thesis
    using flags r(1) sel(1)
    by (simp add: tdx_main_def args tdx_report_def tdx_event_log_def json_array_def)
qed

definition sample_tdx_env :: tdx_env where
  "sample_tdx_env = \<lparr>t_digest = sum_digest, t_files = [''m'' \<mapsto> [1, 2], ''c'' \<mapsto> [0x71]], t_stale_sep = False,
     t_stale_image = False, t_hob_stack = [], t_mrtd_stack = [], t_cfv_stack = [], t_disk = (\<lambda>_. None)\<rparr>"

definition sample_tdx_args :: "string \<Rightarrow> string list \<Rightarrow> string list" where
  "sample_tdx_args nums flags = [''--tdxmodule'', ''m'', ''--cmdline'', ''c'', ''-m'', nums, ''-f'', ''json'', ''-e''] @ flags"

definition sample_tdx_opts :: "nat list \<Rightarrow> bool \<Rightarrow> tdx_opts" where
  "sample_tdx_opts nums summary = tdx_defaults\<lparr>t_module := Some ''m'', t_cmdline := Some ''c'', t_mrs := nums,
     t_format := FORMAT_JSON, t_eventlog := True, t_summary := summary, t_boot_order := [0]\<rparr>"

lemma tdx_option_steps:
  "tdx_option fs opts ''--tdxmodule'' rest = value_of rest (\<lambda>v. Inr (opts\<lparr>t_module := Some v\<rparr>))"
  "tdx_option fs opts ''--cmdline'' rest = value_of rest (\<lambda>v. Inr (opts\<lparr>t_cmdline := Some v\<rparr>))"
  "tdx_option fs opts ''-m'' rest = value_of rest (\<lambda>v. Inr (opts\<lparr>t_mrs := t_mrs opts @ number_list 32 v\<rparr>))"
  "tdx_option fs opts ''-f'' rest = value_of rest (\<lambda>v. and_then (format_of v) (\<lambda>f. Inr (opts\<lparr>t_format := f\<rparr>)))"
  "tdx_option fs opts ''-e'' rest = flag (opts\<lparr>t_eventlog := True\<rparr>)"
  "tdx_option fs opts ''-s'' rest = flag (opts\<lparr>t_summary := True\<rparr>)"
  by (simp_all add: tdx_option_def tdx_option_rest_def)

lemma sample_tdx_options:
  assumes "number_list 32 nums = ns"
  shows "tdx_options fs (sample_tdx_args nums [''-s'']) = Inr (sample_tdx_opts ns True)"
    and "tdx_options fs (sample_tdx_args nums []) = Inr (sample_tdx_opts ns False)"
  by (simp_all add: tdx_options_def sample_tdx_args_def sample_tdx_opts_def tdx_option_steps assms flag_def format_of_def tdx_defaults_def)

lemma sample_tdx_facts:
  assumes "i = 3 \<or> i = 5"
  shows "tdx_ok sample_tdx_env (sample_tdx_opts ns b) i"
    "tdx_events sample_tdx_env (sample_tdx_opts ns b) i \<noteq> []"
    "list_all (tdx_fits i) (tdx_events sample_tdx_env (sample_tdx_opts ns b) i)"
proof -
  have digit: "dec i = [digit i]" if "i < 10" for i using that by (simp add: dec_def num_base.simps [of _ i])
  have o: "t_module (sample_tdx_opts ns b) = Some ''m''" "t_cmdline (sample_tdx_opts ns b) = Some ''c''"
    "t_files sample_tdx_env ''m'' = Some [1, 2]" "t_files sample_tdx_env ''c'' = Some [0x71]" "t_digest sample_tdx_env = sum_digest"
    by (simp_all add: sample_tdx_opts_def sample_tdx_env_def)
  from assms show "tdx_ok sample_tdx_env (sample_tdx_opts ns b) i"
    by (elim disjE) (simp_all add: tdx_ok_def index_simps file_of_def o)
  from assms show "tdx_events sample_tdx_env (sample_tdx_opts ns b) i \<noteq> []"
    by (elim disjE) (simp_all add: tdx_events_def index_simps)
  from assms show "list_all (tdx_fits i) (tdx_events sample_tdx_env (sample_tdx_opts ns b) i)"
    by (elim disjE) (simp_all add: tdx_events_def index_simps tdx_fits_def tdx_json_def nl_def tab_def digit
      length_digest [OF sum_digest_ok] o index_to_mr_def)
qed

lemma sample_numbers: "number_list 32 ''3,5'' = [3, 5]" "number_list 32 ''5,3'' = [5, 3]"
proof -
  have "strtok_all (\<lambda>c. c = CHR '','') ''3,5'' = [''3'', ''5'']" "strtok_all (\<lambda>c. c = CHR '','') ''5,3'' = [''5'', ''3'']"
    by (simp_all add: strtok_all_def)
  moreover have "strtol 0 ''3'' = 3" "strtol 0 ''5'' = 5"
    by (simp_all add: strtol_def Let_def isspace_def digit_value_def is_digit_def hex_prefix_def)
  ultimately show "number_list 32 ''3,5'' = [3, 5]" "number_list 32 ''5,3'' = [5, 3]" by (simp_all add: number_list_def)
qed

theorem tdx_report_replays_witness:
  "tdx_main sample_tdx_env (replicate 6 []) (sample_tdx_args ''3,5'' [''-s'']) = Inr
    (json_array (concat (map (\<lambda>i. map (tdx_json i) (tdx_events sample_tdx_env (sample_tdx_opts [3, 5] True) i)) [3, 5])) @ nl
     @ json_array (map (\<lambda>i. tdx_value_json i (tdx_value sample_tdx_env (sample_tdx_opts [3, 5] True) i)) [3, 5]) @ nl)"
proof -
  let ?opts = "sample_tdx_opts [3, 5] True"
  have mrs: "t_mrs ?opts = [3, 5]" by (simp add: sample_tdx_opts_def)
  have H: "digest_ok (t_digest sample_tdx_env)" by (simp add: sample_tdx_env_def sum_digest_ok)
  have sel: "t_format (sample_tdx_opts [3, 5] True) = FORMAT_JSON" "t_eventlog (sample_tdx_opts [3, 5] True)" "t_summary (sample_tdx_opts [3, 5] True) = (True)"
    by (simp_all add: sample_tdx_opts_def)
  have facts: "tdx_ok sample_tdx_env (sample_tdx_opts [3, 5] True) i" "list_all (tdx_fits i) (tdx_events sample_tdx_env (sample_tdx_opts [3, 5] True) i)"
    "tdx_events sample_tdx_env (sample_tdx_opts [3, 5] True) i \<noteq> []" if "i = 3 \<or> i = 5" for i
    using sample_tdx_facts [OF that] by simp_all
  have "tdx_main sample_tdx_env (replicate 6 []) (sample_tdx_args ''3,5'' [''-s'']) = Inr
    (json_array (concat (map (\<lambda>i. map (tdx_json i) (tdx_events sample_tdx_env ?opts i)) (t_mrs ?opts))) @ nl
     @ json_array (map (\<lambda>i. tdx_value_json i (tdx_value sample_tdx_env ?opts i)) (t_mrs ?opts)) @ nl)"
    by (rule tdx_report_replays [OF H sample_tdx_options(1) [OF sample_numbers(1)]])
      (use sel facts in \<open>simp_all add: mrs MR_LEN_def\<close>)
  then show ?thesis by (simp only: mrs)
qed

theorem tdx_descending_malformed_witness:
  "tdx_main sample_tdx_env (replicate 6 []) (sample_tdx_args ''5,3'' []) = Inr
    (json_array (map (tdx_json 5) (tdx_events sample_tdx_env (sample_tdx_opts [5, 3] False) 5))
     @ concat (map with_comma (map (tdx_json 3) (tdx_events sample_tdx_env (sample_tdx_opts [5, 3] False) 3))) @ nl)"
proof -
  have mrs: "t_mrs (sample_tdx_opts [5, 3] False) = [5, 3]" by (simp add: sample_tdx_opts_def)
  have H: "digest_ok (t_digest sample_tdx_env)" by (simp add: sample_tdx_env_def sum_digest_ok)
  have sel: "t_format (sample_tdx_opts [5, 3] False) = FORMAT_JSON" "t_eventlog (sample_tdx_opts [5, 3] False)" "t_summary (sample_tdx_opts [5, 3] False) = (False)"
    by (simp_all add: sample_tdx_opts_def)
  have facts: "tdx_ok sample_tdx_env (sample_tdx_opts [5, 3] False) i" "list_all (tdx_fits i) (tdx_events sample_tdx_env (sample_tdx_opts [5, 3] False) i)"
    "tdx_events sample_tdx_env (sample_tdx_opts [5, 3] False) i \<noteq> []" if "i = 5 \<or> i = 3" for i
    using sample_tdx_facts [of i "[5, 3]" False] that by (simp_all add: disj_commute)
  show ?thesis
    by (rule tdx_descending_malformed [OF H sample_tdx_options(2) [OF sample_numbers(2)]])
      (use sel facts in \<open>simp_all add: mrs MR_LEN_def\<close>)
qed

end
