(* ===== verification/Snp.thy ===== *)
theory Snp
  imports Hash KernelConfig
begin

text \<open>
  \<^verbatim>\<open>src/calculate-snp-mr\<close>: the SEV-SNP launch digest. Every page that the hypervisor adds to
  the guest before launch is described by a 112-byte page-info structure that also holds the
  digest so far; the digest of the structure is the next digest. The pages are the firmware,
  the low-memory pages of the OVMF metadata, the page with the hashes of a directly booted
  kernel, and the initial register state (VMSA) of each virtual CPU.
\<close>

section \<open>Structures laid out by field\<close>

text \<open>
  A packed C structure is the list of its fields with their widths. Nested segment registers
  are flattened.
\<close>

type_synonym layout = "(string \<times> nat) list"

fun field_off :: "layout \<Rightarrow> string \<Rightarrow> nat" where
  "field_off [] n = 0"
| "field_off ((m, w) # fs) n = (if m = n then 0 else w + field_off fs n)"

fun field_width :: "layout \<Rightarrow> string \<Rightarrow> nat" where
  "field_width [] n = 0"
| "field_width ((m, w) # fs) n = (if m = n then w else field_width fs n)"

definition sizeof :: "layout \<Rightarrow> nat" where
  "sizeof l = sum_list (map snd l)"

definition set_field :: "layout \<Rightarrow> string \<Rightarrow> nat \<Rightarrow> byte list \<Rightarrow> byte list" where
  "set_field l n v page =
     (let off = field_off l n; w = field_width l n in take off page @ to_le w v @ drop (off + w) page)"

definition vmcb_seg :: "string \<Rightarrow> layout" where
  "vmcb_seg s = [(s @ ''.selector'', 2), (s @ ''.attrib'', 2), (s @ ''.limit'', 4), (s @ ''.base'', 8)]"

definition vmcb_save_area :: layout where
  "vmcb_save_area =
     vmcb_seg ''es'' @ vmcb_seg ''cs'' @ vmcb_seg ''ss'' @ vmcb_seg ''ds'' @ vmcb_seg ''fs'' @ vmcb_seg ''gs''
     @ vmcb_seg ''gdtr'' @ vmcb_seg ''ldtr'' @ vmcb_seg ''idtr'' @ vmcb_seg ''tr''
     @ [(''vmpl0_ssp'', 8), (''vmpl1_ssp'', 8), (''vmpl2_ssp'', 8), (''vmpl3_ssp'', 8), (''u_cet'', 8),
        (''reserved_0xc8'', 2), (''vmpl'', 1), (''cpl'', 1), (''reserved_0xcc'', 4), (''efer'', 8),
        (''reserved_0xd8'', 104), (''xss'', 8), (''cr4'', 8), (''cr3'', 8), (''cr0'', 8), (''dr7'', 8),
        (''dr6'', 8), (''rflags'', 8), (''rip'', 8), (''dr0'', 8), (''dr1'', 8), (''dr2'', 8), (''dr3'', 8),
        (''dr0_addr_mask'', 8), (''dr1_addr_mask'', 8), (''dr2_addr_mask'', 8), (''dr3_addr_mask'', 8),
        (''reserved_0x1c0'', 24), (''rsp'', 8), (''s_cet'', 8), (''ssp'', 8), (''isst_addr'', 8), (''rax'', 8),
        (''star'', 8), (''lstar'', 8), (''cstar'', 8), (''sfmask'', 8), (''kernel_gs_base'', 8),
        (''sysenter_cs'', 8), (''sysenter_esp'', 8), (''sysenter_eip'', 8), (''cr2'', 8),
        (''reserved_0x248'', 32), (''g_pat'', 8), (''dbgctl'', 8), (''br_from'', 8), (''br_to'', 8),
        (''last_excp_from'', 8), (''last_excp_to'', 8), (''reserved_0x298'', 80), (''pkru'', 4), (''tsc_aux'', 4),
        (''reserved_0x2f0'', 24), (''rcx'', 8), (''rdx'', 8), (''rbx'', 8), (''reserved_0x320'', 8), (''rbp'', 8),
        (''rsi'', 8), (''rdi'', 8), (''r8'', 8), (''r9'', 8), (''r10'', 8), (''r11'', 8), (''r12'', 8), (''r13'', 8),
        (''r14'', 8), (''r15'', 8), (''reserved_0x380'', 16), (''guest_exit_info_1'', 8),
        (''guest_exit_info_2'', 8), (''guest_exit_int_info'', 8), (''guest_nrip'', 8), (''sev_features'', 8),
        (''vintr_ctrl'', 8), (''guest_exit_code'', 8), (''virtual_tom'', 8), (''tlb_id'', 8), (''pcpu_id'', 8),
        (''event_inj'', 8), (''xcr0'', 8), (''reserved_0x3f0'', 16), (''x87_dp'', 8), (''mxcsr'', 4),
        (''x87_ftw'', 2), (''x87_fsw'', 2), (''x87_fcw'', 2), (''x87_fop'', 2), (''x87_ds'', 2), (''x87_cs'', 2),
        (''x87_rip'', 8), (''fpreg_x87'', 80), (''fpreg_xmm'', 256), (''fpreg_ymm'', 256)]"

section \<open>The register state of a virtual CPU\<close>

datatype vmm_type_t = qemu | ec2 | unknown

text \<open>The assignments of \<open>vmcb_save_area_init\<close>, in order.\<close>

definition vmcb_common :: "64 word \<Rightarrow> (string \<times> nat) list" where
  "vmcb_common eip =
     [(''es.attrib'', 0x93), (''es.limit'', 0xffff),
      (''cs.selector'', 0xf000), (''cs.attrib'', 0x9b), (''cs.limit'', 0xffff),
      (''cs.base'', unat (eip AND 0xffff0000)),
      (''ss.limit'', 0xffff), (''ds.attrib'', 0x93), (''ds.limit'', 0xffff),
      (''fs.attrib'', 0x93), (''fs.limit'', 0xffff), (''gs.attrib'', 0x93), (''gs.limit'', 0xffff),
      (''gdtr.limit'', 0xffff), (''ldtr.attrib'', 0x82), (''ldtr.limit'', 0xffff),
      (''idtr.limit'', 0xffff), (''tr.limit'', 0xffff), (''efer'', 0x1000), (''cr4'', 0x40),
      (''cr0'', 0x10), (''dr7'', 0x400), (''dr6'', 0xffff0ff0), (''rflags'', 0x2),
      (''rip'', unat (eip AND 0xffff)), (''g_pat'', 0x7040600070406), (''sev_features'', 0x1),
      (''xcr0'', 0x1)]"

definition vmcb_vmm :: "64 word \<Rightarrow> vmm_type_t \<Rightarrow> (string \<times> nat) list" where
  "vmcb_vmm eip vmm_type = (case vmm_type of
     qemu \<Rightarrow> [(''ss.attrib'', 0x93), (''tr.attrib'', 0x8b), (''rdx'', 0x800f12), (''mxcsr'', 0x1f80),
              (''x87_fcw'', 0x37f)]
   | ec2 \<Rightarrow> (if eip = 0xfffffff0 then [(''cs.attrib'', 0x9a)] else [])
            @ [(''ss.attrib'', 0x92), (''tr.attrib'', 0x83), (''rdx'', 0x0), (''mxcsr'', 0x0), (''x87_fcw'', 0x0)]
   | unknown \<Rightarrow> [])"

definition vmcb_save_area_init :: "64 word \<Rightarrow> vmm_type_t \<Rightarrow> byte list res" where
  "vmcb_save_area_init eip vmm_type =
     and_then (check (sizeof vmcb_save_area \<le> 4096) Aborted) (\<lambda>_.
       Inr (fold (\<lambda>(n, v). set_field vmcb_save_area n v) (vmcb_common eip @ vmcb_vmm eip vmm_type)
         (replicate 4096 0)))"

section \<open>The page-info chain\<close>

definition SNP_PAGE_TYPE_NORMAL :: byte where "SNP_PAGE_TYPE_NORMAL = 1"
definition SNP_PAGE_TYPE_VMSA :: byte where "SNP_PAGE_TYPE_VMSA = 2"
definition SNP_PAGE_TYPE_ZERO :: byte where "SNP_PAGE_TYPE_ZERO = 3"
definition SNP_PAGE_TYPE_SECRETS :: byte where "SNP_PAGE_TYPE_SECRETS = 5"
definition SNP_PAGE_TYPE_CPUID :: byte where "SNP_PAGE_TYPE_CPUID = 6"

record snp_launch_update_page_info =
  digest_cur :: "byte list"
  info_contents :: "byte list"
  info_length :: nat
  page_type :: byte
  imi_page_reserved :: byte
  reserved2 :: byte
  vmpl_1_perms :: byte
  vmpl_2_perms :: byte
  vmpl_3_perms :: byte
  info_gpa :: nat

definition info_bytes :: "snp_launch_update_page_info \<Rightarrow> byte list" where
  "info_bytes i = digest_cur i @ info_contents i @ to_le 2 (info_length i)
     @ [page_type i, imi_page_reserved i, reserved2 i, vmpl_1_perms i, vmpl_2_perms i, vmpl_3_perms i]
     @ to_le 8 (info_gpa i)"

text \<open>\<open>memset(&info, 0, sizeof(info))\<close>\<close>

definition zero_info :: snp_launch_update_page_info where
  "zero_info = \<lparr>digest_cur = replicate 48 0, info_contents = replicate 48 0, info_length = 0, page_type = 0,
     imi_page_reserved = 0, reserved2 = 0, vmpl_1_perms = 0, vmpl_2_perms = 0, vmpl_3_perms = 0, info_gpa = 0\<rparr>"

text \<open>\<open>page\<close> is the memory from the given pointer on, \<open>None\<close> for the null pointer.\<close>

definition page_info_update ::
  "digest \<Rightarrow> byte list option \<Rightarrow> byte \<Rightarrow> nat \<Rightarrow> snp_launch_update_page_info \<Rightarrow> snp_launch_update_page_info res" where
  "page_info_update H page type gpa info =
     and_then (case page of None \<Rightarrow> Inr (replicate 48 0) | Some p \<Rightarrow> sha384_buf H p 4096) (\<lambda>c.
     let info = info\<lparr>info_contents := c, info_length := 0x70, page_type := type, imi_page_reserved := 0,
       reserved2 := 0, vmpl_1_perms := 0, vmpl_2_perms := 0, vmpl_3_perms := 0, info_gpa := gpa\<rparr> in
     and_then (sha384_buf H (info_bytes info) 0x70) (\<lambda>d. Inr (info\<lparr>digest_cur := d\<rparr>)))"

section \<open>The hashes of a directly booted kernel\<close>

definition guid_header :: "byte list" where
  "guid_header = [0x06, 0xd6, 0x38, 0x94, 0x22, 0x4f, 0xc9, 0x4c, 0xb4, 0x79, 0xa7, 0x93, 0xd4, 0x11, 0xfd, 0x21]"
definition guid_kernel :: "byte list" where
  "guid_kernel = [0x37, 0x94, 0xe7, 0x4d, 0xd2, 0xab, 0x7f, 0x42, 0xb8, 0x35, 0xd5, 0xb1, 0x72, 0xd2, 0x04, 0x5b]"
definition guid_initrd :: "byte list" where
  "guid_initrd = [0x31, 0xf7, 0xba, 0x44, 0x2f, 0x3a, 0xd7, 0x4b, 0x9a, 0xf1, 0x41, 0xe2, 0x91, 0x69, 0x78, 0x1d]"
definition guid_cmdline :: "byte list" where
  "guid_cmdline = [0xd8, 0x2d, 0xd0, 0x97, 0x20, 0xbd, 0x94, 0x4c, 0xaa, 0x78, 0xe7, 0x71, 0x4d, 0x36, 0xab, 0x2a]"

definition sev_hash_table_entry :: "byte list \<Rightarrow> byte list \<Rightarrow> byte list" where
  "sev_hash_table_entry guid hash = guid @ to_le 2 50 @ hash"

definition sev_hash_table :: "byte list \<Rightarrow> byte list \<Rightarrow> byte list \<Rightarrow> byte list" where
  "sev_hash_table cmdline initrd krnl = guid_header @ to_le 2 168
     @ sev_hash_table_entry guid_cmdline cmdline @ sev_hash_table_entry guid_initrd initrd
     @ sev_hash_table_entry guid_kernel krnl"

text \<open>
  \<open>hash_file\<close> into a field of the zeroed page; its return value is ignored, so the field of
  an unreadable file stays zero.
\<close>

definition hash_file_field :: "digest \<Rightarrow> filesys \<Rightarrow> string \<Rightarrow> byte list res" where
  "hash_file_field H fs f = (case hash_file H EVP_sha256 fs f of
     Inl (Fail n) \<Rightarrow> Inr (replicate 32 0) | r \<Rightarrow> r)"

definition hashes_init ::
  "digest \<Rightarrow> filesys \<Rightarrow> byte list \<Rightarrow> string \<Rightarrow> string option \<Rightarrow> byte list res" where
  "hashes_init H fs cmdline krnl initrd =
     and_then (sha256_buf H cmdline (length cmdline)) (\<lambda>cmdline_hash.
     and_then (case initrd of Some f \<Rightarrow> hash_file_field H fs f | None \<Rightarrow> sha256_buf H [] 0) (\<lambda>initrd_hash.
     and_then (hash_file_field H fs krnl) (\<lambda>kernel_hash.
       wr (replicate 4096 0) 3072 (sev_hash_table cmdline_hash initrd_hash kernel_hash))))"

section \<open>The launch digest\<close>

text \<open>The page addresses of \<^verbatim>\<open>for (gpa = a; gpa < b; gpa += 4096)\<close>.\<close>

definition gpa_range :: "nat \<Rightarrow> nat \<Rightarrow> nat list" where
  "gpa_range a b = map (\<lambda>k. a + 4096 * k) [0..<(b - a + 4095) div 4096]"

definition zero_pages :: "digest \<Rightarrow> nat \<Rightarrow> nat \<Rightarrow> snp_launch_update_page_info \<Rightarrow> snp_launch_update_page_info res" where
  "zero_pages H a b = fold_res (page_info_update H None SNP_PAGE_TYPE_ZERO) (gpa_range a b)"

definition ovmf_pages :: "digest \<Rightarrow> byte list \<Rightarrow> snp_launch_update_page_info \<Rightarrow> snp_launch_update_page_info res" where
  "ovmf_pages H ovmf = fold_res (\<lambda>offset.
     page_info_update H (Some (drop offset ovmf)) SNP_PAGE_TYPE_NORMAL
       (u64 (sub64 0x100000000 (length ovmf) + offset))) (gpa_range 0 (length ovmf))"

definition vmsa_pages ::
  "digest \<Rightarrow> nat \<Rightarrow> vmm_type_t \<Rightarrow> snp_launch_update_page_info \<Rightarrow> snp_launch_update_page_info res" where
  "vmsa_pages H vcpus vmm_type info =
     and_then (vmcb_save_area_init 0xfffffff0 vmm_type) (\<lambda>vmsa.
     and_then (page_info_update H (Some vmsa) SNP_PAGE_TYPE_VMSA 0xfffffffff000 info) (\<lambda>info.
     and_then (vmcb_save_area_init 0x80b004 vmm_type) (\<lambda>vmsa.
       fold_res (\<lambda>_. page_info_update H (Some vmsa) SNP_PAGE_TYPE_VMSA 0xfffffffff000) [1..<vcpus] info)))"

definition measure_pages ::
  "digest \<Rightarrow> byte list \<Rightarrow> byte list option \<Rightarrow> nat \<Rightarrow> vmm_type_t \<Rightarrow> snp_launch_update_page_info
    \<Rightarrow> snp_launch_update_page_info res" where
  "measure_pages H ovmf hashes vcpus vmm_type info =
     and_then (ovmf_pages H ovmf info) (\<lambda>info.
     and_then (zero_pages H 0x00800000 0x00809000 info) (\<lambda>info.
     and_then (zero_pages H 0x0080a000 0x0080d000 info) (\<lambda>info.
     and_then (page_info_update H None SNP_PAGE_TYPE_SECRETS 0x0080d000 info) (\<lambda>info.
     and_then (if vmm_type = qemu then page_info_update H None SNP_PAGE_TYPE_CPUID 0x0080e000 info
               else Inr info) (\<lambda>info.
     and_then (case hashes of
         Some p \<Rightarrow>
           and_then (page_info_update H None SNP_PAGE_TYPE_ZERO 0x80f000 info) (\<lambda>info.
           and_then (page_info_update H (Some p) SNP_PAGE_TYPE_NORMAL 0x810000 info) (\<lambda>info.
             zero_pages H 0x00811000 0x00820000 info))
       | None \<Rightarrow> zero_pages H 0x0080f000 0x00820000 info) (\<lambda>info.
     and_then (if vmm_type = ec2 then page_info_update H None SNP_PAGE_TYPE_CPUID 0x0080e000 info
               else Inr info) (\<lambda>info.
       vmsa_pages H vcpus vmm_type info)))))))"

text \<open>
  \<open>calculate_mr\<close> always returns 0; when a file cannot be read, \<open>mr\<close> keeps the indeterminate
  bytes \<open>mr0\<close> of the caller's buffer.
\<close>

definition calculate_mr ::
  "digest \<Rightarrow> filesys \<Rightarrow> byte list \<Rightarrow> string \<Rightarrow> string option \<Rightarrow> string option \<Rightarrow> string option \<Rightarrow> nat
    \<Rightarrow> vmm_type_t \<Rightarrow> byte list res" where
  "calculate_mr H fs mr0 ovmf_file kernel_file initrd_file cmdline_file vcpus vmm_type =
     (case fs ovmf_file of None \<Rightarrow> Inr mr0 | Some ovmf \<Rightarrow>
      case (case cmdline_file of None \<Rightarrow> Some []
            | Some f \<Rightarrow> (case fs f of None \<Rightarrow> None | Some tmp \<Rightarrow> Some (tmp @ [0]))) of
        None \<Rightarrow> Inr mr0
      | Some cmdline \<Rightarrow>
        and_then (case kernel_file of None \<Rightarrow> Inr None
            | Some k \<Rightarrow> and_then (hashes_init H fs cmdline k initrd_file) (\<lambda>p. Inr (Some p))) (\<lambda>hashes.
        and_then (measure_pages H ovmf hashes vcpus vmm_type zero_info) (\<lambda>info.
          Inr (digest_cur info))))"

section \<open>The image of the register state\<close>

text \<open>
  A page given by the parts of it that are set, in ascending order, each with its offset; all
  bytes between the parts are zero.
\<close>

type_synonym parts = "(nat \<times> byte list) list"

fun page_of :: "nat \<Rightarrow> parts \<Rightarrow> byte list" where
  "page_of pos [] = replicate (4096 - pos) 0"
| "page_of pos ((off, bs) # ps) = replicate (off - pos) 0 @ bs @ page_of (off + length bs) ps"

text \<open>
  The attributes of the code, stack and task segment, RDX, MXCSR and the x87 control word that
  each hypervisor sets up.
\<close>

fun vmm_registers :: "64 word \<Rightarrow> vmm_type_t \<Rightarrow> nat \<times> nat \<times> nat \<times> nat \<times> nat \<times> nat" where
  "vmm_registers eip qemu = (0x9b, 0x93, 0x8b, 0x800f12, 0x1f80, 0x37f)"
| "vmm_registers eip ec2 = (if eip = 0xfffffff0 then 0x9a else 0x9b, 0x92, 0x83, 0, 0, 0)"
| "vmm_registers eip unknown = (0x9b, 0, 0, 0, 0, 0)"

text \<open>
  The register state as the processor loads it, by the offsets that the architecture manual
  gives for the save area. A segment is its selector, its attributes at offset 2, its limit at
  offset 4 and its base at offset 8.
\<close>

definition vmsa_page :: "64 word \<Rightarrow> vmm_type_t \<Rightarrow> byte list" where
  "vmsa_page eip v = (case vmm_registers eip v of (cs, ss, tr, rdx, mxcsr, fcw) \<Rightarrow> page_of 0
     [(0x002, to_le 2 0x93), (0x004, to_le 4 0xffff),
      (0x010, to_le 2 0xf000), (0x012, to_le 2 cs), (0x014, to_le 4 0xffff),
      (0x018, to_le 8 (unat eip mod 2 ^ 32 - unat eip mod 2 ^ 16)),
      (0x022, to_le 2 ss), (0x024, to_le 4 0xffff), (0x032, to_le 2 0x93), (0x034, to_le 4 0xffff),
      (0x042, to_le 2 0x93), (0x044, to_le 4 0xffff), (0x052, to_le 2 0x93), (0x054, to_le 4 0xffff),
      (0x064, to_le 4 0xffff), (0x072, to_le 2 0x82), (0x074, to_le 4 0xffff), (0x084, to_le 4 0xffff),
      (0x092, to_le 2 tr), (0x094, to_le 4 0xffff), (0x0d0, to_le 8 0x1000), (0x148, to_le 8 0x40),
      (0x158, to_le 8 0x10), (0x160, to_le 8 0x400), (0x168, to_le 8 0xffff0ff0), (0x170, to_le 8 2),
      (0x178, to_le 8 (unat eip mod 2 ^ 16)), (0x268, to_le 8 0x7040600070406), (0x310, to_le 8 rdx),
      (0x3b0, to_le 8 1), (0x3e8, to_le 8 1), (0x408, to_le 4 mxcsr), (0x410, to_le 2 fcw)])"

text \<open>
  Storing into such a page: the part goes into a gap or replaces a part of the same place and
  size.
\<close>

fun put :: "nat \<Rightarrow> nat \<Rightarrow> byte list \<Rightarrow> parts \<Rightarrow> parts option" where
  "put pos off bs [] = (if pos \<le> off \<and> off + length bs \<le> 4096 then Some [(off, bs)] else None)"
| "put pos off bs ((o1, b) # ps) =
     (if pos \<le> off \<and> off + length bs \<le> o1 then Some ((off, bs) # (o1, b) # ps)
      else if pos \<le> o1 \<and> off = o1 \<and> length bs = length b then Some ((o1, bs) # ps)
      else if pos \<le> o1 then map_option (Cons (o1, b)) (put (o1 + length b) off bs ps) else None)"

lemma put_after: "put pos off bs ps = Some qs \<Longrightarrow> pos \<le> off"
  by (induction pos off bs ps arbitrary: qs rule: put.induct) (force split: if_splits)+

lemma put_page:
  "put pos off bs ps = Some qs \<Longrightarrow>
    take (off - pos) (page_of pos ps) @ bs @ drop (off - pos + length bs) (page_of pos ps) = page_of pos qs"
proof (induction pos off bs ps arbitrary: qs rule: put.induct)
  case (2 pos off bs o1 b ps)
  show ?case
  proof (cases "(pos \<le> off \<and> off + length bs \<le> o1) \<or> (pos \<le> o1 \<and> off = o1 \<and> length bs = length b)")
    case True
    then show ?thesis
      using "2.prems" by (auto split: if_splits simp: min_def)
  next
    case False
    then obtain rs where r: "pos \<le> o1" "put (o1 + length b) off bs ps = Some rs" "qs = (o1, b) # rs"
      using "2.prems" by (auto split: if_splits)
    have "off - pos = (o1 - pos) + length b + (off - (o1 + length b))"
      using put_after [OF r(2)] r(1) by simp
    then show ?thesis
      using "2.IH" [OF _ _ r(1,2)] False r by simp
  qed
qed (auto split: if_splits)

lemma replicate_merge:
  "replicate a x @ replicate b x = replicate (a + b) x"
  "replicate a x @ replicate b x @ ys = replicate (a + b) x @ ys"
  by (simp_all add: replicate_add)

text \<open>A series of assignments.\<close>

fun put_fields :: "layout \<Rightarrow> (string \<times> nat) list \<Rightarrow> parts \<Rightarrow> parts option" where
  "put_fields l [] ps = Some ps"
| "put_fields l ((n, v) # sets) ps = (case put 0 (field_off l n) (to_le (field_width l n) v) ps of
     None \<Rightarrow> None | Some qs \<Rightarrow> put_fields l sets qs)"

lemma put_fields_page:
  "put_fields l sets ps = Some qs \<Longrightarrow> fold (\<lambda>(n, v). set_field l n v) sets (page_of 0 ps) = page_of 0 qs"
proof (induction l sets ps rule: put_fields.induct)
  case (2 l n v sets ps)
  then obtain rs where "put 0 (field_off l n) (to_le (field_width l n) v) ps = Some rs"
    "put_fields l sets rs = Some qs"
    by (auto split: option.splits)
  then show ?case
    using "2.IH" put_page [of 0 "field_off l n" "to_le (field_width l n) v" ps rs]
    by (simp add: set_field_def Let_def)
qed simp

lemma put_fields_append:
  "put_fields l (xs @ ys) ps = (case put_fields l xs ps of None \<Rightarrow> None | Some qs \<Rightarrow> put_fields l ys qs)"
  by (induction l xs ps rule: put_fields.induct) (auto split: option.split)

lemma vmcb_offsets:
  "list_all (\<lambda>(n, off, w). field_off vmcb_save_area n = off \<and> field_width vmcb_save_area n = w)
     [(''es.attrib'', 0x02, 2), (''es.limit'', 0x04, 4), (''cs.selector'', 0x10, 2), (''cs.attrib'', 0x12, 2),
      (''cs.limit'', 0x14, 4), (''cs.base'', 0x18, 8), (''ss.attrib'', 0x22, 2), (''ss.limit'', 0x24, 4),
      (''ds.attrib'', 0x32, 2), (''ds.limit'', 0x34, 4), (''fs.attrib'', 0x42, 2), (''fs.limit'', 0x44, 4),
      (''gs.attrib'', 0x52, 2), (''gs.limit'', 0x54, 4), (''gdtr.limit'', 0x64, 4), (''ldtr.attrib'', 0x72, 2),
      (''ldtr.limit'', 0x74, 4), (''idtr.limit'', 0x84, 4), (''tr.attrib'', 0x92, 2), (''tr.limit'', 0x94, 4),
      (''efer'', 0xd0, 8), (''cr4'', 0x148, 8), (''cr0'', 0x158, 8), (''dr7'', 0x160, 8), (''dr6'', 0x168, 8),
      (''rflags'', 0x170, 8), (''rip'', 0x178, 8), (''g_pat'', 0x268, 8), (''rdx'', 0x310, 8),
      (''sev_features'', 0x3b0, 8), (''xcr0'', 0x3e8, 8), (''mxcsr'', 0x408, 4), (''x87_fcw'', 0x410, 2)]"
  by code_simp

lemma eip_parts:
  fixes eip :: "64 word"
  shows "unat (eip AND 0xffff0000) = unat eip mod 2 ^ 32 - unat eip mod 2 ^ 16"
    and "unat (eip AND 0xffff) = unat eip mod 2 ^ 16"
proof -
  have m: "(0xffff :: 64 word) = mask 16" "(0xffff0000 OR 0xffff :: 64 word) = mask 32"
    "(0xffff0000 AND 0xffff :: 64 word) = 0"
    by (simp_all add: mask_eq_exp_minus_1)
  have low: "unat (eip AND mask n) = unat eip mod 2 ^ n" for n
    by (simp only: take_bit_eq_mask [symmetric] unsigned_take_bit_eq) (rule take_bit_eq_mod)
  show l: "unat (eip AND 0xffff) = unat eip mod 2 ^ 16"
    by (simp only: m(1) low)
  have "(eip AND 0xffff0000) AND (eip AND 0xffff) = eip AND (0xffff0000 AND 0xffff)"
    by (simp only: ac_simps and.left_idem)
  then have z: "(eip AND 0xffff0000) AND (eip AND 0xffff) = 0" by (simp only: m(3) and_zero_eq)
  have "eip AND mask 32 = (eip AND 0xffff0000) + (eip AND 0xffff)"
    using word_plus_and_or [of "eip AND 0xffff0000" "eip AND 0xffff"]
    unfolding z m(2) [symmetric] by (simp only: bit.conj_disj_distrib add_0)
  moreover have "unat ((eip AND 0xffff0000) + (eip AND 0xffff)) = unat (eip AND 0xffff0000) + unat (eip AND 0xffff)"
  proof (rule unat_add_lem [THEN iffD1])
    have "unat (eip AND 0xffff0000) \<le> unat (0xffff0000 :: 64 word)" "unat (eip AND 0xffff) \<le> unat (0xffff :: 64 word)"
      by (simp_all only: word_le_nat_alt [symmetric] word_and_le1)
    then show "unat (eip AND 0xffff0000) + unat (eip AND 0xffff) < 2 ^ LENGTH(64)" by simp
  qed
  ultimately show "unat (eip AND 0xffff0000) = unat eip mod 2 ^ 32 - unat eip mod 2 ^ 16"
    using low [of 32] l by simp
qed

lemma vmcb_size: "sizeof vmcb_save_area = 0x670"
  by code_simp

lemma vmcb_init_eq:
  "vmcb_save_area_init eip v = Inr (fold (\<lambda>(n, v). set_field vmcb_save_area n v)
     (vmcb_common eip @ vmcb_vmm eip v) (replicate 4096 0))"
  by (simp add: vmcb_save_area_init_def vmcb_size)

lemma vmsa_page_aux: "vmcb_save_area_init eip v = Inr (vmsa_page eip v)"
proof -
  note o = vmcb_offsets [unfolded list.pred_inject prod.case]
  have c: "put_fields vmcb_save_area (vmcb_common eip) [] = Some
    [(0x002, to_le 2 0x93), (0x004, to_le 4 0xffff),
      (0x010, to_le 2 0xf000), (0x012, to_le 2 0x9b), (0x014, to_le 4 0xffff),
      (0x018, to_le 8 (unat eip mod 2 ^ 32 - unat eip mod 2 ^ 16)),
      (0x024, to_le 4 0xffff), (0x032, to_le 2 0x93), (0x034, to_le 4 0xffff),
      (0x042, to_le 2 0x93), (0x044, to_le 4 0xffff), (0x052, to_le 2 0x93), (0x054, to_le 4 0xffff),
      (0x064, to_le 4 0xffff), (0x072, to_le 2 0x82), (0x074, to_le 4 0xffff), (0x084, to_le 4 0xffff),
      (0x094, to_le 4 0xffff), (0x0d0, to_le 8 0x1000), (0x148, to_le 8 0x40),
      (0x158, to_le 8 0x10), (0x160, to_le 8 0x400), (0x168, to_le 8 0xffff0ff0), (0x170, to_le 8 2),
      (0x178, to_le 8 (unat eip mod 2 ^ 16)), (0x268, to_le 8 0x7040600070406),
      (0x3b0, to_le 8 1), (0x3e8, to_le 8 1)]"
    by (simp add: vmcb_common_def o eip_parts del: to_le_literal)
  have "\<exists>qs. put_fields vmcb_save_area (vmcb_common eip @ vmcb_vmm eip v) [] = Some qs \<and> page_of 0 qs = vmsa_page eip v"
    unfolding put_fields_append c option.case
    by (cases v) (simp_all add: vmcb_vmm_def vmsa_page_def o replicate_merge del: to_le_literal)
  then obtain qs where "put_fields vmcb_save_area (vmcb_common eip @ vmcb_vmm eip v) [] = Some qs"
    "page_of 0 qs = vmsa_page eip v" by blast
  then show ?thesis
    using put_fields_page [of vmcb_save_area "vmcb_common eip @ vmcb_vmm eip v" "[]" qs] by (simp add: vmcb_init_eq)
qed

lemma length_vmsa_page: "length (vmsa_page eip v) = 4096"
  by (simp add: vmsa_page_def split: prod.split)

text \<open>
  C34. The initial register state of a virtual CPU: for every start address and hypervisor, the
  page that is built is, byte for byte, the one specified, with each register at its offset in
  the architecture's save area and zero everywhere else; in particular the base of the code
  segment and the instruction pointer add up to the (32-bit) start address.
\<close>

theorem vmsa_register_state:
  "vmcb_save_area_init eip v = Inr (vmsa_page eip v) \<and> length (vmsa_page eip v) = 4096
    \<and> le (take 8 (drop 0x018 (vmsa_page eip v))) + le (take 8 (drop 0x178 (vmsa_page eip v))) = unat eip mod 2 ^ 32"
proof -
  have "take 8 (drop 0x018 (vmsa_page eip v)) = to_le 8 (unat eip mod 2 ^ 32 - unat eip mod 2 ^ 16)"
    "take 8 (drop 0x178 (vmsa_page eip v)) = to_le 8 (unat eip mod 2 ^ 16)"
    by (simp_all add: vmsa_page_def del: to_le_literal split: prod.split)
  moreover have "unat eip mod 2 ^ 16 \<le> unat eip mod 2 ^ 32"
    using mod_less_eq_dividend [of "unat eip mod 2 ^ 32" "2 ^ 16"] by (simp add: mod_mod_cancel)
  moreover have "unat eip mod 2 ^ 32 < 256 ^ 8" "unat eip mod 2 ^ 16 < 256 ^ 8"
    by (rule less_trans [OF mod_less_divisor]; simp)+
  ultimately show ?thesis
    by (simp add: vmsa_page_aux length_vmsa_page le_to_le_small less_imp_diff_less)
qed


section \<open>Specification of the launch digest\<close>

text \<open>A measured page: its contents (\<open>None\<close> for pages measured as zero), type and address.\<close>

type_synonym page = "byte list option \<times> byte \<times> nat"

definition chain :: "digest \<Rightarrow> byte list \<Rightarrow> page \<Rightarrow> byte list" where
  "chain H d p = (case p of (c, type, gpa) \<Rightarrow> H EVP_sha384
     (d @ (case c of None \<Rightarrow> replicate 48 0 | Some b \<Rightarrow> H EVP_sha384 b)
        @ to_le 2 0x70 @ [type, 0, 0, 0, 0, 0] @ to_le 8 gpa))"

definition launch_digest :: "digest \<Rightarrow> page list \<Rightarrow> byte list" where
  "launch_digest H ps = foldl (chain H) (replicate 48 0) ps"

definition firmware_pages :: "byte list \<Rightarrow> page list" where
  "firmware_pages ovmf = map (\<lambda>k. (Some (take 4096 (drop (4096 * k) ovmf)), SNP_PAGE_TYPE_NORMAL,
     2 ^ 32 - length ovmf + 4096 * k)) [0..<length ovmf div 4096]"

definition zeros_at :: "nat list \<Rightarrow> page list" where
  "zeros_at gs = map (\<lambda>g. (None, SNP_PAGE_TYPE_ZERO, g)) gs"

definition low_pages :: "byte list option \<Rightarrow> vmm_type_t \<Rightarrow> page list" where
  "low_pages hashes vmm_type =
     zeros_at (gpa_range 0x800000 0x809000) @ zeros_at (gpa_range 0x80a000 0x80d000)
     @ [(None, SNP_PAGE_TYPE_SECRETS, 0x80d000)]
     @ (if vmm_type = qemu then [(None, SNP_PAGE_TYPE_CPUID, 0x80e000)] else [])
     @ (case hashes of Some p \<Rightarrow> [(None, SNP_PAGE_TYPE_ZERO, 0x80f000), (Some p, SNP_PAGE_TYPE_NORMAL, 0x810000)]
            @ zeros_at (gpa_range 0x811000 0x820000)
        | None \<Rightarrow> zeros_at (gpa_range 0x80f000 0x820000))
     @ (if vmm_type = ec2 then [(None, SNP_PAGE_TYPE_CPUID, 0x80e000)] else [])"

definition vmsa :: "64 word \<Rightarrow> vmm_type_t \<Rightarrow> byte list" where
  "vmsa eip vmm_type = (case vmcb_save_area_init eip vmm_type of Inr p \<Rightarrow> p | Inl e \<Rightarrow> [])"

definition cpu_pages :: "nat \<Rightarrow> vmm_type_t \<Rightarrow> page list" where
  "cpu_pages vcpus vmm_type = (Some (vmsa 0xfffffff0 vmm_type), SNP_PAGE_TYPE_VMSA, 0xfffffffff000)
     # replicate (vcpus - 1) (Some (vmsa 0x80b004 vmm_type), SNP_PAGE_TYPE_VMSA, 0xfffffffff000)"

text \<open>
  Fact. The fixed part of the measured address space is covered exactly once: for both
  hypervisors, with and without a directly booted kernel, the low pages are all pages from
  0x800000 to 0x820000 except the one at 0x809000, each measured exactly once.
\<close>

theorem low_pages_cover:
  assumes "vmm_type \<noteq> unknown"
  shows "sort (map (snd \<circ> snd) (low_pages hashes vmm_type))
    = filter (\<lambda>g. g \<noteq> 0x809000) (gpa_range 0x800000 0x820000)"
proof -
  have u: "[0..<9] = [0, 1, 2, 3, 4, 5, 6, 7, 8]" "[0..<3] = [0, 1, 2]"
    "[0..<15] = [0, 1, 2, 3, 4, 5, 6, 7, 8, 9, 10, 11, 12, 13, 14]"
    "[0..<17] = [0, 1, 2, 3, 4, 5, 6, 7, 8, 9, 10, 11, 12, 13, 14, 15, 16]"
    "[0..<32] = [0, 1, 2, 3, 4, 5, 6, 7, 8, 9, 10, 11, 12, 13, 14, 15, 16, 17, 18, 19, 20, 21, 22, 23, 24, 25, 26,
       27, 28, 29, 30, 31]"
    by code_simp+
  have r: "gpa_range 0x800000 0x809000 = map (\<lambda>k. 0x800000 + 4096 * k) [0, 1, 2, 3, 4, 5, 6, 7, 8]"
    "gpa_range 0x80a000 0x80d000 = [0x80a000, 0x80b000, 0x80c000]"
    "gpa_range 0x811000 0x820000 = map (\<lambda>k. 0x811000 + 4096 * k) [0, 1, 2, 3, 4, 5, 6, 7, 8, 9, 10, 11, 12, 13, 14]"
    "gpa_range 0x80f000 0x820000 = 0x80f000 # 0x810000 # map (\<lambda>k. 0x811000 + 4096 * k) [0, 1, 2, 3, 4, 5, 6, 7, 8, 9, 10, 11, 12, 13, 14]"
    "gpa_range 0x800000 0x820000 = map (\<lambda>k. 0x800000 + 4096 * k) [0, 1, 2, 3, 4, 5, 6, 7, 8, 9, 10, 11, 12, 13, 14, 15,
       16, 17, 18, 19, 20, 21, 22, 23, 24, 25, 26, 27, 28, 29, 30, 31]"
    by (simp_all add: gpa_range_def u)
  show ?thesis
    using assms unfolding low_pages_def zeros_at_def r
    by (cases vmm_type; cases hashes) simp_all
qed

theorem low_pages_cover_witness:
  "sort (map (snd \<circ> snd) (low_pages (Some [1]) ec2)) = filter (\<lambda>g. g \<noteq> 0x809000) (gpa_range 0x800000 0x820000)"
  by (rule low_pages_cover) simp

section \<open>The code computes the specified digest\<close>

text \<open>A computation on the page info that measures a list of pages.\<close>

definition adds_pages ::
  "digest \<Rightarrow> snp_launch_update_page_info res \<Rightarrow> snp_launch_update_page_info \<Rightarrow> page list \<Rightarrow> bool" where
  "adds_pages H m info ps \<longleftrightarrow> (\<exists>i. m = Inr i \<and> digest_cur i = foldl (chain H) (digest_cur info) ps
     \<and> length (digest_cur i) = 48)"

lemma adds_none: "length (digest_cur info) = 48 \<Longrightarrow> adds_pages H (Inr info) info []"
  by (simp add: adds_pages_def)

lemma adds_then:
  assumes "adds_pages H m info ps" and "\<And>i. length (digest_cur i) = 48 \<Longrightarrow> adds_pages H (f i) i qs"
  shows "adds_pages H (and_then m f) info (ps @ qs)"
proof -
  obtain i where i: "m = Inr i" "digest_cur i = foldl (chain H) (digest_cur info) ps" "length (digest_cur i) = 48"
    using assms(1) by (auto simp: adds_pages_def)
  then show ?thesis using assms(2) [OF i(3)] by (simp add: adds_pages_def)
qed

lemma adds_fold:
  assumes "\<And>x i. \<lbrakk>x \<in> set xs; length (digest_cur i) = 48\<rbrakk> \<Longrightarrow> adds_pages H (f x i) i [g x]"
    and "length (digest_cur info) = 48"
  shows "adds_pages H (fold_res f xs info) info (map g xs)"
  using assms
proof (induction xs arbitrary: info)
  case (Cons x xs)
  have "adds_pages H (and_then (f x info) (fold_res f xs)) info ([g x] @ map g xs)"
    by (rule adds_then) (use Cons in auto)
  then show ?case by simp
qed (simp add: adds_none)

lemma page_info_update_adds:
  assumes H: "digest_ok H" and "length (digest_cur info) = 48"
    and "\<And>p. page = Some p \<Longrightarrow> 4096 \<le> length p"
  shows "adds_pages H (page_info_update H page type gpa info) info [(map_option (take 4096) page, type, gpa)]"
proof -
  obtain c where c: "(case page of None \<Rightarrow> Inr (replicate 48 0) | Some p \<Rightarrow> sha384_buf H p 4096) = Inr c"
    "c = (case map_option (take 4096) page of None \<Rightarrow> replicate 48 0 | Some b \<Rightarrow> H EVP_sha384 b)"
    using assms(3) by (cases page) (auto simp: sha384_buf_def hash_buf_def)
  then have l: "length c = 48" using H by (auto split: option.splits)
  show ?thesis
    using assms(2) l H unfolding page_info_update_def c(1)
    by (simp add: adds_pages_def sha384_buf_def hash_buf_def info_bytes_def chain_def c(2))
qed

lemma zero_pages_adds:
  "\<lbrakk>digest_ok H; length (digest_cur info) = 48\<rbrakk> \<Longrightarrow> adds_pages H (zero_pages H a b info) info (zeros_at (gpa_range a b))"
  unfolding zero_pages_def zeros_at_def
  by (rule adds_fold) (use page_info_update_adds [where page = None] in auto)

lemma vmsa_facts: "vmcb_save_area_init eip v = Inr (vmsa eip v)" "length (vmsa eip v) = 4096"
  by (simp_all add: vmsa_def vmsa_page_aux length_vmsa_page)

lemma vmsa_pages_adds:
  assumes H: "digest_ok H" and "length (digest_cur info) = 48"
  shows "adds_pages H (vmsa_pages H vcpus v info) info (cpu_pages vcpus v)"
proof -
  have step: "adds_pages H (page_info_update H (Some (vmsa eip v)) SNP_PAGE_TYPE_VMSA 0xfffffffff000 i) i
      [(Some (vmsa eip v), SNP_PAGE_TYPE_VMSA, 0xfffffffff000)]" if "length (digest_cur i) = 48" for eip i
    using page_info_update_adds [OF H that, of "Some (vmsa eip v)" SNP_PAGE_TYPE_VMSA "0xfffffffff000"]
    by (simp add: vmsa_facts)
  have pages: "cpu_pages vcpus v = [(Some (vmsa 0xfffffff0 v), SNP_PAGE_TYPE_VMSA, 0xfffffffff000)]
      @ map (\<lambda>_. (Some (vmsa 0x80b004 v), SNP_PAGE_TYPE_VMSA, 0xfffffffff000)) [1..<vcpus]"
    by (simp add: cpu_pages_def map_replicate_const)
  show ?thesis
    unfolding vmsa_pages_def vmsa_facts(1) and_then_simps pages
    by (rule adds_then [OF step [OF assms(2)]]) (rule adds_fold [OF step])
qed

lemma ovmf_pages_adds:
  assumes H: "digest_ok H" and "length (digest_cur info) = 48"
    and "4096 dvd length ovmf" and "length ovmf \<le> 2 ^ 32"
  shows "adds_pages H (ovmf_pages H ovmf info) info (firmware_pages ovmf)"
proof -
  obtain n where n: "length ovmf = 4096 * n" using assms(3) by (auto simp: dvd_def)
  have cnt: "(length ovmf - 0 + 4095) div 4096 = n" "length ovmf div 4096 = n" by (simp_all add: n)
  let ?off = "\<lambda>k. 0 + 4096 * k"
  have step: "adds_pages H (page_info_update H (Some (drop (?off k) ovmf)) SNP_PAGE_TYPE_NORMAL
        (u64 (sub64 0x100000000 (length ovmf) + ?off k)) i) i
      [(Some (take 4096 (drop (4096 * k) ovmf)), SNP_PAGE_TYPE_NORMAL, 2 ^ 32 - length ovmf + 4096 * k)]"
    if "k \<in> set [0..<n]" "length (digest_cur i) = 48" for k i
  proof -
    have k: "4096 * k + 4096 \<le> length ovmf" using that(1) n by simp
    have "sub64 0x100000000 (length ovmf) = 2 ^ 32 - length ovmf"
      using assms(4) by (subst sub_small) simp_all
    moreover have "2 ^ 32 - length ovmf + 4096 * k < 2 ^ 64" using k assms(4) by simp
    ultimately have g: "u64 (sub64 0x100000000 (length ovmf) + ?off k) = 2 ^ 32 - length ovmf + 4096 * k"
      by simp
    show ?thesis
      unfolding g using page_info_update_adds [OF H that(2), of "Some (drop (4096 * k) ovmf)"] k by simp
  qed
  have fm: "fold_res f (map h xs) s = fold_res (\<lambda>x. f (h x)) xs s" for f :: "nat \<Rightarrow> 'b \<Rightarrow> 'b res" and h :: "nat \<Rightarrow> nat" and xs s
    by (induction xs arbitrary: s) (auto intro: and_then_cong)
  show ?thesis
    unfolding ovmf_pages_def firmware_pages_def gpa_range_def cnt fm
    by (rule adds_fold [OF step assms(2)])
qed

text \<open>The page with the hashes, 3072 zero bytes before and the rest of the page behind the table.\<close>

definition file_hash :: "digest \<Rightarrow> filesys \<Rightarrow> string \<Rightarrow> byte list" where
  "file_hash H fs f = (case fs f of None \<Rightarrow> replicate 32 0 | Some b \<Rightarrow> H EVP_sha256 b)"

definition hashes_page :: "digest \<Rightarrow> filesys \<Rightarrow> byte list \<Rightarrow> string \<Rightarrow> string option \<Rightarrow> byte list" where
  "hashes_page H fs cmdline krnl initrd = replicate 3072 0
     @ sev_hash_table (H EVP_sha256 cmdline)
         (case initrd of None \<Rightarrow> H EVP_sha256 [] | Some f \<Rightarrow> file_hash H fs f) (file_hash H fs krnl)
     @ replicate 856 0"

lemma hash_file_field_eq: "hash_file_field H fs f = Inr (file_hash H fs f)"
  by (simp add: hash_file_field_def hash_file_eq file_hash_def split: option.splits)

lemma length_file_hash [simp]: "digest_ok H \<Longrightarrow> length (file_hash H fs f) = 32"
  by (simp add: file_hash_def split: option.splits)

lemma length_sev_hash_table:
  "\<lbrakk>length a = 32; length b = 32; length c = 32\<rbrakk> \<Longrightarrow> length (sev_hash_table a b c) = 168"
  by (simp add: sev_hash_table_def sev_hash_table_entry_def guid_header_def guid_kernel_def guid_initrd_def
      guid_cmdline_def)

lemma hashes_init_eq:
  assumes H: "digest_ok H"
  shows "hashes_init H fs cmdline krnl initrd = Inr (hashes_page H fs cmdline krnl initrd)"
    and "length (hashes_page H fs cmdline krnl initrd) = 4096"
proof -
  let ?i = "case initrd of None \<Rightarrow> H EVP_sha256 [] | Some f \<Rightarrow> file_hash H fs f"
  let ?t = "sev_hash_table (H EVP_sha256 cmdline) ?i (file_hash H fs krnl)"
  have t: "length ?t = 168"
    by (rule length_sev_hash_table) (use H in \<open>auto split: option.splits\<close>)
  have i: "(case initrd of Some f \<Rightarrow> hash_file_field H fs f | None \<Rightarrow> sha256_buf H [] 0) = Inr ?i"
    by (simp add: hash_file_field_eq sha256_buf_def hash_buf_def split: option.splits)
  show "hashes_init H fs cmdline krnl initrd = Inr (hashes_page H fs cmdline krnl initrd)"
    unfolding hashes_init_def i hash_file_field_eq and_then_simps hashes_page_def
    by (simp add: sha256_buf_def hash_buf_def wr_def t take_replicate drop_replicate)
  show "length (hashes_page H fs cmdline krnl initrd) = 4096"
    by (simp add: hashes_page_def t)
qed

definition all_pages ::
  "digest \<Rightarrow> filesys \<Rightarrow> byte list \<Rightarrow> string option \<Rightarrow> string option \<Rightarrow> byte list \<Rightarrow> nat \<Rightarrow> vmm_type_t \<Rightarrow> page list" where
  "all_pages H fs ovmf kernel_file initrd_file cmdline vcpus vmm_type =
     firmware_pages ovmf
     @ low_pages (map_option (\<lambda>k. hashes_page H fs cmdline k initrd_file) kernel_file) vmm_type
     @ cpu_pages vcpus vmm_type"

lemma measure_pages_adds:
  assumes H: "digest_ok H" and ovmf: "4096 dvd length ovmf" "length ovmf \<le> 2 ^ 32"
    and hashes: "\<And>p. hashes = Some p \<Longrightarrow> length p = 4096" and i: "length (digest_cur info) = 48"
  shows "adds_pages H (measure_pages H ovmf hashes vcpus vmm_type info) info
    (firmware_pages ovmf @ low_pages hashes vmm_type @ cpu_pages vcpus vmm_type)"
proof -
  note upd = page_info_update_adds [OF H, where page = None, simplified]
  have mid: "adds_pages H (case hashes of
            Some p \<Rightarrow>
              and_then (page_info_update H None SNP_PAGE_TYPE_ZERO 0x80f000 i) (\<lambda>info.
              and_then (page_info_update H (Some p) SNP_PAGE_TYPE_NORMAL 0x810000 info) (\<lambda>info.
                zero_pages H 0x00811000 0x00820000 info))
          | None \<Rightarrow> zero_pages H 0x0080f000 0x00820000 i) i
      (case hashes of Some p \<Rightarrow> [(None, SNP_PAGE_TYPE_ZERO, 0x80f000), (Some p, SNP_PAGE_TYPE_NORMAL, 0x810000)]
            @ zeros_at (gpa_range 0x811000 0x820000)
        | None \<Rightarrow> zeros_at (gpa_range 0x80f000 0x820000))" if i: "length (digest_cur i) = 48" for i
  proof (cases hashes)
    case (Some p)
    have hp: "adds_pages H (page_info_update H (Some p) SNP_PAGE_TYPE_NORMAL 0x810000 j) j
        [(Some p, SNP_PAGE_TYPE_NORMAL, 0x810000)]" if "length (digest_cur j) = 48" for j
      using page_info_update_adds [OF H that, of "Some p"] hashes [OF Some] by simp
    have "adds_pages H (and_then (page_info_update H None SNP_PAGE_TYPE_ZERO 0x80f000 i) (\<lambda>info.
              and_then (page_info_update H (Some p) SNP_PAGE_TYPE_NORMAL 0x810000 info) (\<lambda>info.
                zero_pages H 0x00811000 0x00820000 info))) i
      ([(None, SNP_PAGE_TYPE_ZERO, 0x80f000)] @ [(Some p, SNP_PAGE_TYPE_NORMAL, 0x810000)]
            @ zeros_at (gpa_range 0x811000 0x820000))"
      by (intro adds_then upd hp zero_pages_adds [OF H] i)
    then show ?thesis by (simp add: Some)
  qed (simp add: zero_pages_adds [OF H i])
  have opt: "adds_pages H (if b then page_info_update H None t g i else Inr i) i (if b then [(None, t, g)] else [])"
    if "length (digest_cur i) = 48" for b t g i
    using upd [OF that] adds_none [OF that] by simp
  show ?thesis
    unfolding measure_pages_def low_pages_def append_assoc
    by (intro adds_then ovmf_pages_adds [OF H _ ovmf] zero_pages_adds [OF H] upd opt mid vmsa_pages_adds [OF H] i)
qed

lemma calculate_mr_launch_aux:
  assumes H: "digest_ok H" and fs: "fs ovmf_file = Some ovmf"
    and ovmf: "4096 dvd length ovmf" "length ovmf \<le> 2 ^ 32"
    and cmd: "case cmdline_file of None \<Rightarrow> cmdline = [] | Some f \<Rightarrow> \<exists>b. fs f = Some b \<and> cmdline = b @ [0]"
  shows "calculate_mr H fs mr0 ovmf_file kernel_file initrd_file cmdline_file vcpus vmm_type
    = Inr (launch_digest H (all_pages H fs ovmf kernel_file initrd_file cmdline vcpus vmm_type))"
proof -
  let ?h = "map_option (\<lambda>k. hashes_page H fs cmdline k initrd_file) kernel_file"
  have c: "(case cmdline_file of None \<Rightarrow> Some []
      | Some f \<Rightarrow> (case fs f of None \<Rightarrow> None | Some tmp \<Rightarrow> Some (tmp @ [0]))) = Some cmdline"
    using cmd by (auto split: option.splits)
  have h: "(case kernel_file of None \<Rightarrow> Inr None
      | Some k \<Rightarrow> and_then (hashes_init H fs cmdline k initrd_file) (\<lambda>p. Inr (Some p))) = Inr ?h"
    by (simp add: hashes_init_eq(1) [OF H] split: option.splits)
  have "adds_pages H (measure_pages H ovmf ?h vcpus vmm_type zero_info) zero_info
      (all_pages H fs ovmf kernel_file initrd_file cmdline vcpus vmm_type)"
    unfolding all_pages_def
    by (rule measure_pages_adds [OF H ovmf]) (use hashes_init_eq(2) [OF H] in \<open>auto simp: zero_info_def\<close>)
  then obtain i where i: "measure_pages H ovmf ?h vcpus vmm_type zero_info = Inr i"
    "digest_cur i = launch_digest H (all_pages H fs ovmf kernel_file initrd_file cmdline vcpus vmm_type)"
    by (auto simp: adds_pages_def launch_digest_def zero_info_def)
  show ?thesis
    unfolding calculate_mr_def fs option.case c h and_then_simps i ..
qed

text \<open>
  Fact. The launch digest is the chain over the specified pages: for a firmware file of whole
  pages that fits below 4 GiB and readable files, the result is the page-info chain over the
  firmware at the top of the 32-bit address space, the low pages (with the page of kernel,
  RAM disk and command line hashes) and one register state per virtual CPU, the boot CPU's
  first; the buffers are never left.
\<close>

theorem calculate_mr_launch_digest:
  assumes H: "digest_ok H" and fs: "fs ovmf_file = Some ovmf"
    and ovmf: "4096 dvd length ovmf" "length ovmf \<le> 2 ^ 32"
    and cmd: "case cmdline_file of None \<Rightarrow> cmdline = [] | Some f \<Rightarrow> \<exists>b. fs f = Some b \<and> cmdline = b @ [0]"
  shows "calculate_mr H fs mr0 ovmf_file kernel_file initrd_file cmdline_file vcpus vmm_type
    = Inr (launch_digest H (all_pages H fs ovmf kernel_file initrd_file cmdline vcpus vmm_type))"
  using assms by (rule calculate_mr_launch_aux)

theorem calculate_mr_launch_digest_witness:
  "calculate_mr sum_digest [''fd'' \<mapsto> replicate 8192 7, ''k'' \<mapsto> [1], ''c'' \<mapsto> [2]] [] ''fd'' (Some ''k'') None (Some ''c'') 2 qemu
   = Inr (launch_digest sum_digest (all_pages sum_digest [''fd'' \<mapsto> replicate 8192 7, ''k'' \<mapsto> [1], ''c'' \<mapsto> [2]]
       (replicate 8192 7) (Some ''k'') None [2, 0] 2 qemu))"
  by (rule calculate_mr_launch_digest [OF sum_digest_ok]) (simp_all only: length_replicate fun_upd_apply, simp_all)

lemma page_count:
  assumes "\<not> 4096 dvd (n :: nat)"
  shows "(n + 4095) div 4096 = Suc (n div 4096)" and "n - 4096 * (n div 4096) < 4096"
proof -
  obtain q r where n: "n = 4096 * q + r" "r < 4096" and q: "q = n div 4096"
    by (metis mod_less_divisor mult_div_mod_eq zero_less_numeral)
  have "0 < r" using assms n by (cases r) auto
  have "(n + 4095) div 4096 = Suc q"
    using n(2) \<open>0 < r\<close> unfolding n(1) by (intro div_nat_eqI) simp_all
  then show "(n + 4095) div 4096 = Suc (n div 4096)" by (simp add: q)
  show "n - 4096 * (n div 4096) < 4096" using n by (simp add: q [symmetric])
qed

text \<open>
  Fact. A firmware file whose size is no multiple of the page size is read beyond its end: the
  last, partial page is hashed as a full page of 4096 bytes.
\<close>

theorem partial_firmware_page:
  assumes H: "digest_ok H" and fs: "fs ovmf_file = Some ovmf"
    and part: "\<not> 4096 dvd length ovmf" "length ovmf \<le> 2 ^ 32"
  shows "calculate_mr H fs mr0 ovmf_file None initrd_file None vcpus vmm_type = Inl OutOfBounds"
proof -
  let ?n = "length ovmf div 4096"
  have cnt: "(length ovmf - 0 + 4095) div 4096 = Suc ?n"
    using page_count [OF part(1)] by simp
  let ?step = "\<lambda>offset. page_info_update H (Some (drop offset ovmf)) SNP_PAGE_TYPE_NORMAL
       (u64 (sub64 0x100000000 (length ovmf) + offset))"
  have last: "?step (4096 * ?n) i = Inl OutOfBounds" for i
  proof -
    have "length ovmf - 4096 * ?n < 4096" by (rule page_count(2) [OF part(1)])
    then have "length (drop (4096 * ?n) ovmf) < 4096" by simp
    then show ?thesis by (simp add: page_info_update_def sha384_buf_def hash_buf_def)
  qed
  let ?xs = "map (\<lambda>k. 0 + 4096 * k) [0..<?n]"
  have "adds_pages H (fold_res ?step ?xs zero_info) zero_info (map (\<lambda>x. (Some (take 4096 (drop x ovmf)),
      SNP_PAGE_TYPE_NORMAL, u64 (sub64 0x100000000 (length ovmf) + x))) ?xs)"
  proof (rule adds_fold)
    fix x and i :: snp_launch_update_page_info assume "x \<in> set ?xs" and i: "length (digest_cur i) = 48"
    then have "x + 4096 \<le> length ovmf" by auto
    then show "adds_pages H (?step x i) i [(Some (take 4096 (drop x ovmf)), SNP_PAGE_TYPE_NORMAL,
        u64 (sub64 0x100000000 (length ovmf) + x))]"
      using page_info_update_adds [OF H i, of "Some (drop x ovmf)"] by simp
  qed (simp add: zero_info_def)
  then obtain j where j: "fold_res ?step ?xs zero_info = Inr j" by (auto simp: adds_pages_def)
  have r: "gpa_range 0 (length ovmf) = ?xs @ [4096 * ?n]" by (simp only: gpa_range_def cnt upt_Suc_append map_append list.map le0)
     simp
  have "ovmf_pages H ovmf zero_info = Inl OutOfBounds"
    unfolding ovmf_pages_def r fold_res_append j by (simp add: last)
  then show ?thesis by (simp add: calculate_mr_def fs measure_pages_def)
qed

theorem partial_firmware_page_witness:
  "calculate_mr sum_digest [''fd'' \<mapsto> replicate 5000 7] [] ''fd'' None None None 1 qemu = Inl OutOfBounds"
  by (rule partial_firmware_page [OF sum_digest_ok, where ovmf = "replicate 5000 7"])
    (simp_all only: length_replicate fun_upd_apply, simp_all)

text \<open>
  Fact. Unreadable inputs are not reported: with a missing firmware or command line file the
  function returns code 0 and the caller publishes the indeterminate bytes of its buffer; a
  missing kernel or RAM disk file is measured as if its hash were zero.
\<close>

theorem calculate_mr_unreadable:
  assumes "fs ovmf_file = None \<or> (\<exists>f. cmdline_file = Some f \<and> fs f = None)"
  shows "calculate_mr H fs mr0 ovmf_file kernel_file initrd_file cmdline_file vcpus vmm_type = Inr mr0"
  using assms by (auto simp: calculate_mr_def split: option.splits)

theorem calculate_mr_unreadable_witness:
  "calculate_mr sum_digest [''fd'' \<mapsto> replicate 4096 7] [9] ''fd'' None None (Some ''cmd'') 1 ec2 = Inr [9]"
  by (rule calculate_mr_unreadable) simp

end
