(* ===== verification/SnpMain.thy ===== *)
theory SnpMain
  imports Snp Cli
begin

text \<open>
  \<^verbatim>\<open>src/calculate-snp-mr/main.c\<close>: the options and the printed launch digest. \<open>mr0\<close> is the
  indeterminate contents of the array of \<open>main\<close> that receives the digest.
\<close>

definition get_vmm_type :: "string \<Rightarrow> vmm_type_t" where
  "get_vmm_type s = (if s = ''qemu'' then qemu else if s = ''ec2'' then ec2 else unknown)"

record snp_opts =
  n_kernel :: "string option"
  n_initrd :: "string option"
  n_cmdline :: "string option"
  n_ovmf :: "string option"
  n_vcpus :: nat
  n_vmm :: vmm_type_t

definition snp_defaults :: snp_opts where
  "snp_defaults = \<lparr>n_kernel = None, n_initrd = None, n_cmdline = None, n_ovmf = None, n_vcpus = 1, n_vmm = qemu\<rparr>"

definition snp_option :: "snp_opts \<Rightarrow> string \<Rightarrow> string list \<Rightarrow> (nat \<times> snp_opts) res" where
  "snp_option opts a rest =
     (if a = ''-k'' \<or> a = ''--kernel'' then value_of rest (\<lambda>v. Inr (opts\<lparr>n_kernel := Some v\<rparr>))
      else if a = ''--cmdline'' then value_of rest (\<lambda>v. Inr (opts\<lparr>n_cmdline := Some v\<rparr>))
      else if a = ''-r'' \<or> a = ''--initrd'' then value_of rest (\<lambda>v. Inr (opts\<lparr>n_initrd := Some v\<rparr>))
      else if a = ''-o'' \<or> a = ''--ovmf'' then value_of rest (\<lambda>v. Inr (opts\<lparr>n_ovmf := Some v\<rparr>))
      else if a = ''--vcpus'' then value_of rest (\<lambda>v.
        let num = strtol 0 v in if num \<le> 0 then usage else Inr (opts\<lparr>n_vcpus := nat num\<rparr>))
      else if a = ''--vmm-type'' then value_of rest (\<lambda>v.
        if get_vmm_type v = unknown then usage else Inr (opts\<lparr>n_vmm := get_vmm_type v\<rparr>))
      else if a = ''--verbose'' then flag opts
      else usage)"

definition snp_options :: "string list \<Rightarrow> snp_opts res" where
  "snp_options args =
     and_then (parse_args snp_option args snp_defaults) (\<lambda>opts.
     and_then (check (n_ovmf opts \<noteq> None) (Fail (-1))) (\<lambda>_. Inr opts))"

definition snp_report :: "byte list \<Rightarrow> nat \<Rightarrow> string res" where
  \<open>snp_report digest vcpus =
     and_then (print_data_no_lf digest 48 None) (\<lambda>v.
       Inr (''[{'' @ nl @ tab @ ''"type":"SNP Reference Value",'' @ nl @ tab @ ''"subtype":"SNP Launch Digest",''
         @ nl @ tab @ ''"index":0,'' @ nl @ tab @ ''"sha384":"'' @ v @ ''",''
         @ nl @ tab @ ''"description":"SNP launch digest for '' @ dec vcpus @ '' vCPUs"'' @ nl @ ''}]'' @ nl))\<close>

definition snp_main :: "digest \<Rightarrow> filesys \<Rightarrow> byte list \<Rightarrow> string list \<Rightarrow> string res" where
  "snp_main H fs mr0 args =
     and_then (snp_options args) (\<lambda>opts.
     and_then (calculate_mr H fs mr0 (the (n_ovmf opts)) (n_kernel opts) (n_initrd opts) (n_cmdline opts) (n_vcpus opts)
        (n_vmm opts)) (\<lambda>d. snp_report d (n_vcpus opts)))"

section \<open>The printed digest\<close>

definition snp_json :: "byte list \<Rightarrow> nat \<Rightarrow> string" where
  \<open>snp_json digest vcpus =
     ''{'' @ nl @ tab @ ''"type":"SNP Reference Value",'' @ nl @ tab @ ''"subtype":"SNP Launch Digest",''
       @ nl @ tab @ ''"index":0,'' @ nl @ tab @ ''"sha384":"'' @ hex_string digest @ ''",''
       @ nl @ tab @ ''"description":"SNP launch digest for '' @ dec vcpus @ '' vCPUs"'' @ nl @ ''}''\<close>

lemma snp_report_json: "length digest = 48 \<Longrightarrow> snp_report digest vcpus = Inr (json_array [snp_json digest vcpus] @ nl)"
  by (simp add: snp_report_def snp_json_def print_data_no_lf_def json_array_def)

lemma length_launch_digest: "digest_ok H \<Longrightarrow> length (launch_digest H ps) = 48"
  by (induction ps rule: rev_induct) (auto simp: launch_digest_def chain_def split: prod.splits)

text \<open>
  C5. The report of \<^verbatim>\<open>calculate-snp-mr\<close>, from the command line to the output: for a firmware file
  of whole pages and a readable command line file, the printed reference value is the page-info
  chain over the launched pages.
\<close>

theorem snp_report_launch_digest:
  assumes H: "digest_ok H" and args: "snp_options args = Inr opts" and ovmf: "n_ovmf opts = Some f" "fs f = Some ovmf"
    "4096 dvd length ovmf" "length ovmf \<le> 2 ^ 32"
    and cmd: "case n_cmdline opts of None \<Rightarrow> cmdline = [] | Some f \<Rightarrow> \<exists>b. fs f = Some b \<and> cmdline = b @ [0]"
  shows "snp_main H fs mr0 args = Inr (json_array [snp_json
      (launch_digest H (all_pages H fs ovmf (n_kernel opts) (n_initrd opts) cmdline (n_vcpus opts) (n_vmm opts))) (n_vcpus opts)] @ nl)"
  using calculate_mr_launch_aux [OF H ovmf(2-4) cmd]
  by (simp add: snp_main_def args ovmf(1) snp_report_json length_launch_digest [OF H])

lemma snp_option_steps:
  "snp_option opts ''-o'' rest = value_of rest (\<lambda>v. Inr (opts\<lparr>n_ovmf := Some v\<rparr>))"
  "snp_option opts ''-k'' rest = value_of rest (\<lambda>v. Inr (opts\<lparr>n_kernel := Some v\<rparr>))"
  "snp_option opts ''--cmdline'' rest = value_of rest (\<lambda>v. Inr (opts\<lparr>n_cmdline := Some v\<rparr>))"
  "snp_option opts ''--vmm-type'' rest = value_of rest (\<lambda>v.
        if get_vmm_type v = unknown then usage else Inr (opts\<lparr>n_vmm := get_vmm_type v\<rparr>))"
  by (simp_all add: snp_option_def)

lemma snp_sample_options:
  "snp_options [''-o'', ''fd'', ''-k'', ''k'', ''--cmdline'', ''c'', ''--vmm-type'', ''ec2'']
    = Inr \<lparr>n_kernel = Some ''k'', n_initrd = None, n_cmdline = Some ''c'', n_ovmf = Some ''fd'', n_vcpus = 1, n_vmm = ec2\<rparr>"
  by (simp add: snp_options_def snp_option_steps snp_defaults_def get_vmm_type_def check_def)

theorem snp_report_launch_digest_witness:
  "snp_main sum_digest [''fd'' \<mapsto> replicate 8192 7, ''k'' \<mapsto> [1], ''c'' \<mapsto> [2]] []
      [''-o'', ''fd'', ''-k'', ''k'', ''--cmdline'', ''c'', ''--vmm-type'', ''ec2'']
   = Inr (json_array [snp_json (launch_digest sum_digest (all_pages sum_digest
        [''fd'' \<mapsto> replicate 8192 7, ''k'' \<mapsto> [1], ''c'' \<mapsto> [2]] (replicate 8192 7) (Some ''k'') None [2, 0] 1 ec2)) 1] @ nl)"
proof -
  note r = snp_report_launch_digest [OF sum_digest_ok snp_sample_options, unfolded snp_opts.simps]
  show ?thesis by (rule r) (simp_all only: length_replicate fun_upd_apply, simp_all)
qed

text \<open>
  Fact. A firmware or command line file that cannot be read is not reported: the program ends
  with success and prints the indeterminate bytes of its digest array as a reference value.
\<close>

theorem snp_unreadable_reported:
  assumes args: "snp_options args = Inr opts" and f: "n_ovmf opts = Some f"
    and bad: "fs f = None \<or> (\<exists>c. n_cmdline opts = Some c \<and> fs c = None)" and "length mr0 = 48"
  shows "snp_main H fs mr0 args = Inr (json_array [snp_json mr0 (n_vcpus opts)] @ nl)"
proof -
  have "calculate_mr H fs mr0 f (n_kernel opts) (n_initrd opts) (n_cmdline opts) (n_vcpus opts) (n_vmm opts) = Inr mr0"
    using bad by (auto simp: calculate_mr_def split: option.splits)
  then show ?thesis using assms(4) by (simp add: snp_main_def args f snp_report_json)
qed

theorem snp_unreadable_reported_witness:
  "snp_main sum_digest [''k'' \<mapsto> [1]] (replicate 48 0xA5) [''-o'', ''fd'', ''-k'', ''k'', ''--cmdline'', ''c'', ''--vmm-type'', ''ec2'']
   = Inr (json_array [snp_json (replicate 48 0xA5) 1] @ nl)"
  using snp_unreadable_reported [OF snp_sample_options, of "''fd''" "[''k'' \<mapsto> [1]]" "replicate 48 0xA5" sum_digest]
  by simp

end
