(* ===== verification/ImaCalc.thy ===== *)
theory ImaCalc
  imports Hash Walk EventLog
begin

text \<open>
  \<^verbatim>\<open>src/calculate-ima-pcr/main.c\<close>: the expected entries of the Linux IMA measurement list for a
  set of files and directories. Each entry is the digest of a template record that holds the
  digest of the file and its path; the tool prints the entries as reference values.
\<close>

section \<open>State and log\<close>

record ima_evlog =
  ima_fmt :: format_t
  ima_template :: string
  ima_strip :: "string option"
  ima_pcr :: int
  ima_log :: "string option"

definition encode_hex :: "byte list \<Rightarrow> string" where
  "encode_hex bin = hex_string bin"

definition ima_entry_text :: "ima_evlog \<Rightarrow> string \<Rightarrow> string \<Rightarrow> bool \<Rightarrow> string" where
  \<open>ima_entry_text evl path hashstr optional = (case ima_fmt evl of
     FORMAT_JSON \<Rightarrow>
       ''{'' @ nl @ tab @ ''"type":"TPM Reference Value",''
       @ nl @ tab @ ''"subtype":"'' @ basename path @ ''",''
       @ nl @ tab @ ''"index":'' @ ld (ima_pcr evl) @ '',''
       @ nl @ tab @ ''"sha256":"'' @ hashstr @ ''",''
       @ nl @ tab @ ''"description":"'' @ path @ ''",''
       @ nl @ tab @ ''"optional":'' @ (if optional then ''true'' else ''false'')
       @ nl @ ''},'' @ nl
   | FORMAT_TEXT \<Rightarrow>
       ''name: '' @ basename path
       @ nl @ tab @ ''pcr: '' @ ld (ima_pcr evl)
       @ nl @ tab @ ''sha256: '' @ hashstr
       @ nl @ tab @ ''description: '' @ path @ nl)\<close>

text \<open>The entry is cut to the buffer of 1024 bytes; the function returns 0 in every case.\<close>

definition ima_evlog_add :: "ima_evlog \<Rightarrow> string \<Rightarrow> byte list \<Rightarrow> bool \<Rightarrow> ima_evlog" where
  "ima_evlog_add evl path hash optional =
     (let s = snprintf 1024 (ima_entry_text evl path (encode_hex hash) optional) in
      evl\<lparr>ima_log := Some ((case ima_log evl of None \<Rightarrow> [] | Some l \<Rightarrow> l) @ s)\<rparr>)"

section \<open>Template records\<close>

definition strip_prefix_new :: "string \<Rightarrow> string option \<Rightarrow> string" where
  "strip_prefix_new s prefix = (case prefix of None \<Rightarrow> s
     | Some p \<Rightarrow> if take (length p) s = p then drop (length p) s else s)"

definition sha256_prefix :: "byte list" where
  "sha256_prefix = bytes_of ''sha256:'' @ [0]"

text \<open>
  The template record: the length-prefixed algorithm name and digest, the length-prefixed path
  and, for \<open>ima-sig\<close>, an empty signature. Paths are zero-terminated and shorter than 4 GiB.
\<close>

definition template_bytes :: "string \<Rightarrow> byte list \<Rightarrow> string \<Rightarrow> byte list res" where
  "template_bytes template hash path =
     and_then (rd hash 0 32) (\<lambda>h.
     let body = to_le 4 (8 + 32) @ sha256_prefix @ h @ to_le 4 (length path + 1) @ bytes_of path @ [0] in
     if template = ''ima-sig'' then Inr (body @ to_le 4 0)
     else if template = ''ima-ng'' then Inr body
     else Inl (Fail (-1)))"

definition calculate_ima_entry ::
  "digest \<Rightarrow> byte list \<Rightarrow> string \<Rightarrow> bool \<Rightarrow> ima_evlog \<Rightarrow> (int \<times> ima_evlog) res" where
  "calculate_ima_entry H hash path optional evl =
     (case template_bytes (ima_template evl) hash path of
        Inl (Fail n) \<Rightarrow> Inr (n, evl)
      | Inl e \<Rightarrow> Inl e
      | Inr template \<Rightarrow>
          and_then (hash_buf H EVP_sha256 template (length template)) (\<lambda>template_hash.
            Inr (0, ima_evlog_add evl path template_hash optional)))"

definition calculate_ima_entry_path :: "digest \<Rightarrow> filesys \<Rightarrow> string \<Rightarrow> ima_evlog \<Rightarrow> (int \<times> ima_evlog) res" where
  "calculate_ima_entry_path H fs path evl =
     (case hash_file H EVP_sha256 fs path of
        Inl e \<Rightarrow> Inr (-1, evl)
      | Inr hash \<Rightarrow> calculate_ima_entry H hash (strip_prefix_new path (ima_strip evl)) True evl)"

definition calculate_ima_entries_recursively ::
  "digest \<Rightarrow> tree \<Rightarrow> nat \<Rightarrow> string \<Rightarrow> ima_evlog \<Rightarrow> (int \<times> ima_evlog) res" where
  "calculate_ima_entries_recursively H T = walk_dir T (calculate_ima_entry_path H (contents T))"

definition calculate_ima_entries ::
  "digest \<Rightarrow> tree \<Rightarrow> nat \<Rightarrow> string list \<Rightarrow> ima_evlog \<Rightarrow> (int \<times> ima_evlog) res" where
  "calculate_ima_entries H T = walk_paths T (calculate_ima_entry_path H (contents T))"

section \<open>The program\<close>

text \<open>
  The measurement part of \<open>main\<close>, after the options: the code returned and the text printed.
  \<open>boot_aggregate\<close> is the digest given on the command line.
\<close>

definition ima_main ::
  "digest \<Rightarrow> tree \<Rightarrow> nat \<Rightarrow> byte list option \<Rightarrow> string list \<Rightarrow> ima_evlog \<Rightarrow> (int \<times> string) res" where
  "ima_main H T n boot_aggregate paths evl =
     (if paths = [] \<and> boot_aggregate = None then Inr (-1, [])
      else
        and_then (case boot_aggregate of None \<Rightarrow> Inr (0, evl)
          | Some b \<Rightarrow> if length b \<noteq> 32 then Inr (-1, evl)
                      else calculate_ima_entry H b ''boot_aggregate'' False evl) (\<lambda>(ret, evl).
        if ret \<noteq> 0 then Inr (-1, []) else
        and_then (calculate_ima_entries H T n paths evl) (\<lambda>(ret, evl).
        if ret \<noteq> 0 then Inr (-1, []) else
        case ima_log evl of None \<Rightarrow> Inr (-1, [])
        | Some l \<Rightarrow>
            Inr (0, if ima_fmt evl = FORMAT_JSON then ''['' @ take (length l - 2) l @ '']'' @ nl else l @ nl))))"

section \<open>Specification\<close>

definition ima_record :: "string \<Rightarrow> byte list \<Rightarrow> string \<Rightarrow> byte list" where
  "ima_record template h path = to_le 4 40 @ sha256_prefix @ h @ to_le 4 (length path + 1) @ bytes_of path @ [0]
     @ (if template = ''ima-sig'' then to_le 4 0 else [])"

definition known_template :: "string \<Rightarrow> bool" where
  "known_template t \<longleftrightarrow> t = ''ima-sig'' \<or> t = ''ima-ng''"

text \<open>An expected entry: path, template digest and whether the entry may be missing.\<close>

type_synonym ima_entry = "string \<times> byte list \<times> bool"

definition ima_entry_of :: "digest \<Rightarrow> string \<Rightarrow> byte list \<Rightarrow> string \<Rightarrow> bool \<Rightarrow> ima_entry" where
  "ima_entry_of H template h path optional = (path, H EVP_sha256 (ima_record template h path), optional)"

definition add_entry :: "ima_evlog \<Rightarrow> ima_entry \<Rightarrow> ima_evlog" where
  "add_entry evl e = (case e of (p, h, opt) \<Rightarrow> ima_evlog_add evl p h opt)"

definition ima_json_object :: "int \<Rightarrow> ima_entry \<Rightarrow> string" where
  \<open>ima_json_object pcr e = (case e of (path, h, optional) \<Rightarrow>
       ''{'' @ nl @ tab @ ''"type":"TPM Reference Value",''
       @ nl @ tab @ ''"subtype":"'' @ basename path @ ''",''
       @ nl @ tab @ ''"index":'' @ ld pcr @ '',''
       @ nl @ tab @ ''"sha256":"'' @ hex_string h @ ''",''
       @ nl @ tab @ ''"description":"'' @ path @ ''",''
       @ nl @ tab @ ''"optional":'' @ (if optional then ''true'' else ''false'')
       @ nl @ ''}'')\<close>

lemma template_bytes_known:
  "\<lbrakk>known_template t; length h = 32\<rbrakk> \<Longrightarrow> template_bytes t h path = Inr (ima_record t h path)"
  by (auto simp: known_template_def template_bytes_def ima_record_def)

lemma calculate_ima_entry_eq:
  assumes "known_template (ima_template evl)" and "length h = 32"
  shows "calculate_ima_entry H h path opt evl = Inr (0, add_entry evl (ima_entry_of H (ima_template evl) h path opt))"
  by (simp add: calculate_ima_entry_def template_bytes_known [OF assms] hash_buf_def add_entry_def ima_entry_of_def)

lemma add_entry_fields [simp]:
  "ima_template (add_entry evl e) = ima_template evl" "ima_strip (add_entry evl e) = ima_strip evl"
  "ima_fmt (add_entry evl e) = ima_fmt evl" "ima_pcr (add_entry evl e) = ima_pcr evl"
  by (auto simp: add_entry_def ima_evlog_add_def Let_def split: prod.splits)

definition file_entry :: "digest \<Rightarrow> filesys \<Rightarrow> string \<Rightarrow> string option \<Rightarrow> string \<Rightarrow> ima_entry" where
  "file_entry H fs template strip f =
     ima_entry_of H template (H EVP_sha256 (case fs f of Some b \<Rightarrow> b | None \<Rightarrow> [])) (strip_prefix_new f strip) True"

definition ima_step :: "digest \<Rightarrow> tree \<Rightarrow> string \<Rightarrow> ima_evlog \<Rightarrow> ima_evlog res" where
  "ima_step H T f evl = Inr (add_entry evl (file_entry H (contents T) (ima_template evl) (ima_strip evl) f))"

interpretation ima: file_visitor T "calculate_ima_entry_path H (contents T)" "ima_step H T"
    "\<lambda>evl. digest_ok H \<and> known_template (ima_template evl)" for T H
proof
  fix f and evl evl' :: ima_evlog
  assume i: "digest_ok H \<and> known_template (ima_template evl)" and f: "contents T f \<noteq> None"
  then obtain b where b: "contents T f = Some b" by blast
  have "length (H EVP_sha256 b) = 32" using i by simp
  then show "calculate_ima_entry_path H (contents T) f evl = and_then (ima_step H T f evl) finish"
    using i by (simp add: calculate_ima_entry_path_def hash_file_eq b calculate_ima_entry_eq ima_step_def
        file_entry_def finish_def)
  assume "ima_step H T f evl = Inr evl'"
  then show "digest_ok H \<and> known_template (ima_template evl')" using i by (auto simp: ima_step_def)
qed

lemma ima_steps:
  "fold_res (ima_step H T) fs evl
    = Inr (fold (\<lambda>e evl. add_entry evl e) (map (file_entry H (contents T) (ima_template evl) (ima_strip evl)) fs) evl)"
  by (induction fs arbitrary: evl) (simp_all add: ima_step_def)

text \<open>The log text that entries of bounded length produce.\<close>

lemma add_entry_log:
  assumes "ima_fmt evl = FORMAT_JSON" and "length (ima_json_object (ima_pcr evl) e) < 1022"
  shows "ima_log (add_entry evl e)
    = Some ((case ima_log evl of None \<Rightarrow> [] | Some l \<Rightarrow> l) @ with_comma (ima_json_object (ima_pcr evl) e))"
proof -
  obtain p h opt where e: "e = (p, h, opt)" by (cases e)
  have t: "ima_entry_text evl p (encode_hex h) opt = with_comma (ima_json_object (ima_pcr evl) e)"
    by (simp add: ima_entry_text_def assms(1) e ima_json_object_def with_comma_def encode_hex_def)
  have "length (with_comma (ima_json_object (ima_pcr evl) e)) < 1024"
    using assms(2) by (simp add: with_comma_def nl_def)
  then show ?thesis
    using t by (simp add: e add_entry_def ima_evlog_add_def)
qed

lemma add_entries_log:
  assumes "ima_fmt evl = FORMAT_JSON" and "list_all (\<lambda>e. length (ima_json_object (ima_pcr evl) e) < 1022) es"
    and "es \<noteq> []"
  shows "ima_log (fold (\<lambda>e evl. add_entry evl e) es evl)
    = Some ((case ima_log evl of None \<Rightarrow> [] | Some l \<Rightarrow> l) @ concat (map (\<lambda>e. with_comma (ima_json_object (ima_pcr evl) e)) es))"
  using assms
proof (induction es arbitrary: evl)
  case (Cons e es)
  then show ?case
    using add_entry_log [of evl e] Cons.IH [of "add_entry evl e"] by (cases "es = []") simp_all
qed simp

lemma fold_add_entry_fields [simp]:
  "ima_fmt (fold (\<lambda>e evl. add_entry evl e) es evl) = ima_fmt evl"
  by (induction es arbitrary: evl) simp_all

definition expected_entries ::
  "digest \<Rightarrow> tree \<Rightarrow> nat \<Rightarrow> byte list option \<Rightarrow> string list \<Rightarrow> ima_evlog \<Rightarrow> ima_entry list" where
  "expected_entries H T n boot_aggregate paths evl =
     (case boot_aggregate of None \<Rightarrow> [] | Some b \<Rightarrow> [ima_entry_of H (ima_template evl) b ''boot_aggregate'' False])
     @ map (file_entry H (contents T) (ima_template evl) (ima_strip evl)) (concat (map (path_files T n) paths))"

lemma ima_main_output_aux:
  assumes H: "digest_ok H" and evl: "known_template (ima_template evl)" "ima_fmt evl = FORMAT_JSON" "ima_log evl = None"
    and boot: "\<And>b. boot_aggregate = Some b \<Longrightarrow> length b = 32"
    and paths: "list_all (path_ok T n) paths"
    and es: "es = expected_entries H T n boot_aggregate paths evl" "es \<noteq> []"
    and short: "list_all (\<lambda>e. length (ima_json_object (ima_pcr evl) e) < 1022) es"
  shows "ima_main H T n boot_aggregate paths evl
    = Inr (0, json_array (map (ima_json_object (ima_pcr evl)) es) @ nl)"
proof -
  let ?add = "fold (\<lambda>e evl. add_entry evl e)"
  let ?b = "case boot_aggregate of None \<Rightarrow> [] | Some b \<Rightarrow> [ima_entry_of H (ima_template evl) b ''boot_aggregate'' False]"
  let ?files = "concat (map (path_files T n) paths)"
  let ?evl = "?add ?b evl"
  have ne: "\<not> (paths = [] \<and> boot_aggregate = None)"
    using es by (cases boot_aggregate) (auto simp: expected_entries_def)
  have b: "(case boot_aggregate of None \<Rightarrow> Inr (0, evl)
          | Some b \<Rightarrow> if length b \<noteq> 32 then Inr (-1, evl)
                      else calculate_ima_entry H b ''boot_aggregate'' False evl) = Inr (0, ?evl)"
    using boot calculate_ima_entry_eq [OF evl(1)] by (auto split: option.splits)
  have f: "ima_template ?evl = ima_template evl" "ima_strip ?evl = ima_strip evl"
    by (auto split: option.splits)
  have w: "calculate_ima_entries H T n paths ?evl = Inr (0, ?add es evl)"
    unfolding calculate_ima_entries_def
    using ima.walk_paths_files [of H ?evl T n paths] H evl(1) paths f
    by (simp add: ima_steps es(1) expected_entries_def finish_def)
  have l: "ima_log (?add es evl) = Some (concat (map with_comma (map (ima_json_object (ima_pcr evl)) es)))"
    using add_entries_log [OF evl(2) short es(2)] by (simp add: evl(3) comp_def)
  have "take (length l - 2) l @ '']'' @ nl = join ('','' @ nl) (map (ima_json_object (ima_pcr evl)) es) @ '']'' @ nl"
    if "l = concat (map with_comma (map (ima_json_object (ima_pcr evl)) es))" for l
    using close_array [OF _ that] es(2) by (simp flip: append_assoc)
  note close = this [OF refl]
  show ?thesis
    by (simp only: ima_main_def if_not_P [OF ne] b and_then_simps prod.case w l option.case)
      (simp only: evl(2) fold_add_entry_fields close json_array_def append_assoc simp_thms if_True if_False)
qed

text \<open>
  Fact. The IMA tool prints the JSON array of the expected entries: for a known template, a
  SHA-256 boot aggregate (if any) and readable paths, the output is the array of one object
  per entry, first the boot aggregate and then every file below the paths in depth-first
  order, each with the digest of its IMA template record, provided no object exceeds the
  entry buffer.
\<close>

theorem ima_main_output:
  assumes H: "digest_ok H" and evl: "known_template (ima_template evl)" "ima_fmt evl = FORMAT_JSON" "ima_log evl = None"
    and boot: "\<And>b. boot_aggregate = Some b \<Longrightarrow> length b = 32"
    and paths: "list_all (path_ok T n) paths"
    and es: "es = expected_entries H T n boot_aggregate paths evl" "es \<noteq> []"
    and short: "list_all (\<lambda>e. length (ima_json_object (ima_pcr evl) e) < 1022) es"
  shows "ima_main H T n boot_aggregate paths evl
    = Inr (0, json_array (map (ima_json_object (ima_pcr evl)) es) @ nl)"
  using assms by (rule ima_main_output_aux)

lemma ima_json_short:
  assumes "length p < 100"
  shows "length (ima_json_object 10 (p, sum_digest EVP_sha256 x, opt)) < 1022"
proof -
  have "length (basename p) \<le> length p + 1"
    unfolding basename_def Let_def
    using length_takeWhile_le [of "\<lambda>c. c \<noteq> CHR ''/''" "dropWhile (\<lambda>c. c = CHR ''/'') (rev p)"]
      length_dropWhile_le [of "\<lambda>c. c = CHR ''/''" "rev p"] assms
    by (cases p) simp_all
  then show ?thesis using assms sum_digest_ok
    by (simp add: ima_json_object_def nl_def tab_def ld_def dec_def num_base.simps)
qed

theorem ima_main_output_witness:
  "ima_main sum_digest (\<lparr>stat = [''/m'' \<mapsto> Directory [''.'', ''a''], ''/m/a'' \<mapsto> Regular], realpath = Some,
       contents = [''/m/a'' \<mapsto> [1, 2]], stale_is_dir = (\<lambda>_. False)\<rparr>) 1 (Some (replicate 32 0)) [''/m'']
     \<lparr>ima_fmt = FORMAT_JSON, ima_template = ''ima-ng'', ima_strip = Some ''/m'', ima_pcr = 10, ima_log = None\<rparr>
   = Inr (0, json_array (map (ima_json_object 10)
       [ima_entry_of sum_digest ''ima-ng'' (replicate 32 0) ''boot_aggregate'' False,
        ima_entry_of sum_digest ''ima-ng'' (sum_digest EVP_sha256 [1, 2]) ''/a'' True]) @ nl)"
  (is "ima_main _ ?T _ _ _ ?evl = Inr (0, json_array (map _ [?b, ?a]) @ nl)")
proof -
  have files: "path_files ?T 1 ''/m'' = [''/m/a'']"
    by (simp add: path_files_def concat_path_new_def entry_is_dir_def)
  have ok: "list_all (path_ok ?T 1) [''/m'']"
    unfolding path_ok_def list.pred_inject files by (simp add: concat_path_new_def entry_is_dir_def)
  have es: "[?b, ?a] = expected_entries sum_digest ?T 1 (Some (replicate 32 0)) [''/m''] ?evl"
    unfolding expected_entries_def list.map files
    by (simp add: file_entry_def ima_entry_of_def strip_prefix_new_def)
  show ?thesis
    using ima_main_output [OF sum_digest_ok _ _ _ _ ok es]
    by (simp add: known_template_def ima_entry_of_def ima_json_short)
qed

end
