(* ===== verification/ImaMain.thy ===== *)
theory ImaMain
  imports ImaCalc Cli
begin

text \<open>
  \<^verbatim>\<open>src/calculate-ima-pcr/main.c\<close>: the options. The digest of \<open>--boot_aggregate\<close> is decoded by
  OpenSSL, so its decoder is the parameter \<open>hexstr\<close>. \<open>errno\<close> is zero until \<open>strtol\<close> sets it.
\<close>

section \<open>Options\<close>

record ima_opts =
  i_format :: format_t
  i_template :: "string option"
  i_strip :: "string option"
  i_pcr :: int
  i_paths :: "string list"
  i_boot :: "byte list option"

definition ima_defaults :: ima_opts where
  "ima_defaults = \<lparr>i_format = FORMAT_JSON, i_template = None, i_strip = None, i_pcr = 10, i_paths = [], i_boot = None\<rparr>"

text \<open>
  \<open>strtol(s, &p, 10)\<close> with the tests for an overflow, for no digits and for characters behind
  the number.
\<close>

definition strict_long :: "string \<Rightarrow> int option" where
  "strict_long s =
     (let t = dropWhile isspace s;
          neg = (case t of c # _ \<Rightarrow> c = CHR ''-'' | [] \<Rightarrow> False);
          t = (case t of c # cs \<Rightarrow> if c = CHR ''-'' \<or> c = CHR ''+'' then cs else t | [] \<Rightarrow> []);
          v = (if neg then - int (digits_value 10 0 t) else int (digits_value 10 0 t))
      in if t \<noteq> [] \<and> list_all (is_digit 10) t \<and> - (2 ^ 63) \<le> v \<and> v \<le> 2 ^ 63 - 1 then Some v else None)"

definition ima_option ::
  "(string \<Rightarrow> byte list option) \<Rightarrow> ima_opts \<Rightarrow> string \<Rightarrow> string list \<Rightarrow> (nat \<times> ima_opts) res" where
  "ima_option hexstr opts a rest =
     (if a = ''-f'' \<or> a = ''--format'' then
        value_of rest (\<lambda>v. and_then (format_of v) (\<lambda>f. Inr (opts\<lparr>i_format := f\<rparr>)))
      else if a = ''-t'' \<or> a = ''--tpmpcr'' then value_of rest (\<lambda>v.
        case strict_long v of None \<Rightarrow> usage | Some n \<Rightarrow> Inr (opts\<lparr>i_pcr := n\<rparr>))
      else if a = ''-v'' \<or> a = ''--verbose'' then flag opts
      else if a = ''-p'' \<or> a = ''--path'' then
        value_of rest (\<lambda>v. and_then (strip_slash v) (\<lambda>p. Inr (opts\<lparr>i_paths := i_paths opts @ [p]\<rparr>)))
      else if a = ''-s'' \<or> a = ''--strip'' then value_of rest (\<lambda>v. Inr (opts\<lparr>i_strip := Some v\<rparr>))
      else if a = ''-i'' \<or> a = ''--imatemplate'' then value_of rest (\<lambda>v. Inr (opts\<lparr>i_template := Some v\<rparr>))
      else if a = ''-b'' \<or> a = ''--boot_aggregate'' then value_of rest (\<lambda>v.
        case hexstr v of None \<Rightarrow> usage | Some b \<Rightarrow> Inr (opts\<lparr>i_boot := Some b\<rparr>))
      else usage)"

definition initial_evlog :: "ima_opts \<Rightarrow> ima_evlog" where
  "initial_evlog opts = \<lparr>ima_fmt = i_format opts,
     ima_template = (case i_template opts of None \<Rightarrow> ''ima-sig'' | Some t \<Rightarrow> t),
     ima_strip = i_strip opts, ima_pcr = i_pcr opts, ima_log = None\<rparr>"

definition ima_program ::
  "digest \<Rightarrow> (string \<Rightarrow> byte list option) \<Rightarrow> tree \<Rightarrow> nat \<Rightarrow> string list \<Rightarrow> (int \<times> string) res" where
  "ima_program H hexstr T n args =
     (case parse_args (ima_option hexstr) args ima_defaults of
        Inl (Fail e) \<Rightarrow> Inr (-1, [])
      | Inl e \<Rightarrow> Inl e
      | Inr opts \<Rightarrow> ima_main H T n (i_boot opts) (i_paths opts) (initial_evlog opts))"

section \<open>The printed list\<close>

definition ima_expected :: "digest \<Rightarrow> tree \<Rightarrow> nat \<Rightarrow> ima_opts \<Rightarrow> ima_entry list" where
  "ima_expected H T n opts = expected_entries H T n (i_boot opts) (i_paths opts) (initial_evlog opts)"

text \<open>
  C10. The report of \<^verbatim>\<open>calculate-ima-pcr\<close>, from the command line to the output: for readable paths
  and a known template (\<^verbatim>\<open>ima-sig\<close> when none is given) the program prints the JSON array of
  the boot aggregate and of the files below the paths in depth-first order, each with the
  digest of its template record.
\<close>

theorem ima_program_output:
  assumes H: "digest_ok H" and args: "parse_args (ima_option hexstr) args ima_defaults = Inr opts"
    and template: "\<And>t. i_template opts = Some t \<Longrightarrow> known_template t" and json: "i_format opts = FORMAT_JSON"
    and boot: "\<And>b. i_boot opts = Some b \<Longrightarrow> length b = 32"
    and paths: "list_all (path_ok T n) (i_paths opts)"
    and es: "ima_expected H T n opts \<noteq> []"
    and short: "list_all (\<lambda>e. length (ima_json_object (i_pcr opts) e) < 1022) (ima_expected H T n opts)"
  shows "ima_program H hexstr T n args
    = Inr (0, json_array (map (ima_json_object (i_pcr opts)) (ima_expected H T n opts)) @ nl)"
proof -
  have "known_template (ima_template (initial_evlog opts))"
    using template by (auto simp: initial_evlog_def known_template_def split: option.split)
  then have "ima_main H T n (i_boot opts) (i_paths opts) (initial_evlog opts)
      = Inr (0, json_array (map (ima_json_object (ima_pcr (initial_evlog opts))) (ima_expected H T n opts)) @ nl)"
    by (intro ima_main_output_aux [OF H])
      (use json boot paths es short in \<open>auto simp: initial_evlog_def ima_expected_def\<close>)
  then show ?thesis by (simp add: ima_program_def args initial_evlog_def)
qed

definition ima_sample_tree :: tree where
  "ima_sample_tree = \<lparr>stat = [''/m'' \<mapsto> Directory [''.'', ''a''], ''/m/a'' \<mapsto> Regular], realpath = Some,
     contents = [''/m/a'' \<mapsto> [1, 2]], stale_is_dir = (\<lambda>_. False)\<rparr>"

definition ima_sample_opts :: ima_opts where
  "ima_sample_opts = \<lparr>i_format = FORMAT_JSON, i_template = Some ''ima-ng'', i_strip = Some ''/m'', i_pcr = 10,
     i_paths = [''/m''], i_boot = Some (replicate 32 0)\<rparr>"

lemma ima_sample_args:
  "parse_args (ima_option (\<lambda>s. Some (replicate 32 0))) [''-p'', ''/m/'', ''-s'', ''/m'', ''-i'', ''ima-ng'', ''-b'', ''00'', ''-t'', ''10'']
     ima_defaults = Inr ima_sample_opts"
proof -
  have t: "strict_long ''10'' = Some 10"
    by (simp add: strict_long_def Let_def isspace_def is_digit_def digit_value_def)
  have steps: "ima_option h opts ''-p'' rest = value_of rest (\<lambda>v. and_then (strip_slash v) (\<lambda>p. Inr (opts\<lparr>i_paths := i_paths opts @ [p]\<rparr>)))"
    "ima_option h opts ''-s'' rest = value_of rest (\<lambda>v. Inr (opts\<lparr>i_strip := Some v\<rparr>))"
    "ima_option h opts ''-i'' rest = value_of rest (\<lambda>v. Inr (opts\<lparr>i_template := Some v\<rparr>))"
    "ima_option h opts ''-b'' rest = value_of rest (\<lambda>v. case h v of None \<Rightarrow> usage | Some b \<Rightarrow> Inr (opts\<lparr>i_boot := Some b\<rparr>))"
    "ima_option h opts ''-t'' rest = value_of rest (\<lambda>v. case strict_long v of None \<Rightarrow> usage | Some n \<Rightarrow> Inr (opts\<lparr>i_pcr := n\<rparr>))"
    for h opts rest by (simp_all add: ima_option_def)
  show ?thesis by (simp add: steps t strip_slash_def ima_defaults_def ima_sample_opts_def)
qed

theorem ima_program_output_witness:
  "ima_program sum_digest (\<lambda>s. Some (replicate 32 0)) ima_sample_tree 1
     [''-p'', ''/m/'', ''-s'', ''/m'', ''-i'', ''ima-ng'', ''-b'', ''00'', ''-t'', ''10'']
   = Inr (0, json_array (map (ima_json_object 10)
       [ima_entry_of sum_digest ''ima-ng'' (replicate 32 0) ''boot_aggregate'' False,
        ima_entry_of sum_digest ''ima-ng'' (sum_digest EVP_sha256 [1, 2]) ''/a'' True]) @ nl)"
  (is "_ = Inr (0, json_array (map _ [?b, ?a]) @ nl)")
proof -
  have files: "path_files ima_sample_tree 1 ''/m'' = [''/m/a'']"
    by (simp add: path_files_def concat_path_new_def entry_is_dir_def ima_sample_tree_def)
  have ok: "list_all (path_ok ima_sample_tree 1) [''/m'']"
    unfolding path_ok_def list.pred_inject files
    by (simp add: concat_path_new_def entry_is_dir_def ima_sample_tree_def)
  have es: "ima_expected sum_digest ima_sample_tree 1 ima_sample_opts = [?b, ?a]"
    unfolding ima_expected_def expected_entries_def ima_sample_opts_def ima_opts.simps list.map files
    by (simp add: file_entry_def ima_entry_of_def strip_prefix_new_def initial_evlog_def ima_sample_tree_def)
  have fields: "i_pcr ima_sample_opts = 10" "i_format ima_sample_opts = FORMAT_JSON" "i_template ima_sample_opts = Some ''ima-ng''"
    "i_boot ima_sample_opts = Some (replicate 32 0)" "i_paths ima_sample_opts = [''/m'']"
    by (simp_all add: ima_sample_opts_def)
  note r = ima_program_output [OF sum_digest_ok ima_sample_args, of ima_sample_tree 1, unfolded es fields]
  show ?thesis by (rule r) (use ok in \<open>simp_all add: known_template_def ima_entry_of_def ima_json_short\<close>)
qed

end
