(* ===== verification/Modsig.thy ===== *)
theory Modsig
  imports Common
begin

text \<open>
  \<^verbatim>\<open>src/parse-ima-pcr/modsig.c\<close>: what the parser of the measurement list takes out of the PKCS7
  structure of a module signature. OpenSSL decodes the structure; what its accessors return is
  the data below and the names and numbers of objects are functions, so OpenSSL is the
  parameter \<open>pkcs7_api\<close>. Allocations succeed.
\<close>

section \<open>What OpenSSL provides\<close>

type_synonym oid = "nat list"

record X509_NAME_ENTRY =
  ne_object :: oid
  ne_data :: "byte list"

text \<open>The serial number is the number that \<open>ASN1_INTEGER_to_BN\<close> returns, unless it fails.\<close>

record PKCS7_ISSUER_AND_SERIAL =
  issuer :: "X509_NAME_ENTRY list"
  serial :: "nat option"

record PKCS7_SIGNER_INFO =
  issuer_and_serial :: "PKCS7_ISSUER_AND_SERIAL option"
  enc_digest :: "byte list option"
  digest_alg :: oid
  digest_enc_alg :: oid

text \<open>The stack of signers exists for signed structures only, and may be empty.\<close>

record PKCS7 =
  signer_info :: "PKCS7_SIGNER_INFO list option"

record pkcs7_api =
  d2i_PKCS7 :: "byte list \<Rightarrow> PKCS7 option"
  is_commonName :: "oid \<Rightarrow> bool"
  obj2txt :: "oid \<Rightarrow> string"
  bn2bin :: "nat \<Rightarrow> byte list"

section \<open>The signature\<close>

record sig_info_t =
  key_id :: "byte list"
  si_sig :: "byte list"
  signer :: "string option"
  hash_algo :: "string option"
  sig_algo :: "string option"

definition no_sig_info :: sig_info_t where
  "no_sig_info = \<lparr>key_id = [], si_sig = [], signer = None, hash_algo = None, sig_algo = None\<rparr>"

text \<open>The returned pointer: null, a pointer to freed memory, or a pointer to the structure.\<close>

datatype sig_ptr = NullSig | FreedSig | SigInfo sig_info_t

text \<open>The text printed and the common name.\<close>

definition x509_get_common_name_new :: "pkcs7_api \<Rightarrow> X509_NAME_ENTRY list \<Rightarrow> string \<times> string option" where
  "x509_get_common_name_new api name =
     (case find (\<lambda>e. is_commonName api (ne_object e)) name of
        None \<Rightarrow> (''Failed to convert X509 name to string'', None)
      | Some e \<Rightarrow> ([], Some (chars (cstr (ne_data e)))))"

text \<open>Names of algorithms are cut at the 99 characters that the buffer holds.\<close>

definition algo_name :: "pkcs7_api \<Rightarrow> oid \<Rightarrow> string" where
  "algo_name api obj = take 99 (obj2txt api obj)"

text \<open>
  The text printed and the result. A missing part frees the structure and jumps to the exit,
  which returns the pointer; a structure without signers leaves all fields zero.
\<close>

definition modsig_parse_new :: "pkcs7_api \<Rightarrow> byte list \<Rightarrow> string \<times> sig_ptr" where
  "modsig_parse_new api pkcs7_raw =
     (case d2i_PKCS7 api pkcs7_raw of
        None \<Rightarrow> ([], NullSig)
      | Some pkcs7 \<Rightarrow>
     (case signer_info pkcs7 of
        None \<Rightarrow> ([], SigInfo no_sig_info)
      | Some [] \<Rightarrow> ([], FreedSig)
      | Some (si # _) \<Rightarrow>
     (case issuer_and_serial si of
        None \<Rightarrow> ([], FreedSig)
      | Some ias \<Rightarrow>
     (case enc_digest si of
        None \<Rightarrow> ([], FreedSig)
      | Some sig \<Rightarrow>
     (case serial ias of
        None \<Rightarrow> ([], FreedSig)
      | Some serial_bn \<Rightarrow>
          let (t, name) = x509_get_common_name_new api (issuer ias) in
          (t, SigInfo \<lparr>key_id = bn2bin api serial_bn, si_sig = sig, signer = name,
                hash_algo = Some (algo_name api (digest_alg si)),
                sig_algo = Some (algo_name api (digest_enc_alg si))\<rparr>))))))"

text \<open>A decoder that accepts no structure.\<close>

definition unsigned_api :: pkcs7_api where
  "unsigned_api = \<lparr>d2i_PKCS7 = (\<lambda>_. None), is_commonName = (\<lambda>_. False), obj2txt = (\<lambda>_. []),
     bn2bin = (\<lambda>n. [of_nat n])\<rparr>"

section \<open>Lemmas\<close>

text \<open>The freed structure is returned exactly when a signer, its issuer, its signature or its serial number is missing.\<close>

lemma modsig_freed_iff:
  "snd (modsig_parse_new api raw) = FreedSig \<longleftrightarrow>
     (\<exists>p ss. d2i_PKCS7 api raw = Some p \<and> signer_info p = Some ss \<and>
        (ss = [] \<or> issuer_and_serial (hd ss) = None \<or> enc_digest (hd ss) = None
         \<or> serial (the (issuer_and_serial (hd ss))) = None))"
  by (auto simp: modsig_parse_new_def split: option.splits list.splits prod.splits)

lemma modsig_signed:
  assumes "d2i_PKCS7 api raw = Some p" and "signer_info p = Some (si # ss)"
    and "issuer_and_serial si = Some ias" and "enc_digest si = Some sig" and "serial ias = Some bn"
  shows "\<exists>t i. modsig_parse_new api raw = (t, SigInfo i) \<and> si_sig i = sig \<and> key_id i = bn2bin api bn"
  using assms by (auto simp: modsig_parse_new_def split: prod.splits)

end
