(* ===== verification/ImaParse.thy ===== *)
theory ImaParse
  imports ImaCalc Modsig
begin

text \<open>
  \<^verbatim>\<open>src/parse-ima-pcr\<close>: the parser of the binary measurement list of the Linux IMA. Each entry
  holds the PCR, the SHA-1 digest of its template data, the template name and the template
  data; the parser checks the digest, takes the file name out of the data and prints the
  entry with the SHA-256 digest of the data as a reference value. The debug output is off.
  A signature of the template \<open>ima-modsig\<close> is decoded through \<^verbatim>\<open>modsig.c\<close> (\<open>Modsig\<close>); the
  parameter \<open>api\<close> is the part of OpenSSL that it uses.
\<close>

section \<open>Reading\<close>

text \<open>The bytes of the special file, read one by one; \<open>Blocked\<close> is \<open>EAGAIN\<close>.\<close>

datatype read_result = Byte byte | Blocked | Failed

fun read_bytes :: "read_result list \<Rightarrow> byte list \<Rightarrow> byte list option" where
  "read_bytes [] buf = Some buf"
| "read_bytes (Byte b # rs) buf = read_bytes rs (buf @ [b])"
| "read_bytes (Blocked # rs) buf = read_bytes rs buf"
| "read_bytes (Failed # rs) buf = None"

text \<open>The message printed and the list; a file that cannot be opened is reported in the debug output only.\<close>

definition ml_get_ima_list_new :: "(string \<Rightarrow> read_result list option) \<Rightarrow> string \<Rightarrow> string \<times> byte list option" where
  "ml_get_ima_list_new device file =
     (case device file of
        None \<Rightarrow> ([], None)
      | Some rs \<Rightarrow> (case read_bytes rs [] of
          None \<Rightarrow> (''Failed to read file '' @ file, None)
        | Some buf \<Rightarrow> ([], Some buf)))"

text \<open>\<open>buf_read\<close>: the bytes read and the rest, or nothing when too few are left.\<close>

definition buf_read :: "nat \<Rightarrow> byte list \<Rightarrow> (byte list \<times> byte list) option" where
  "buf_read n buf = (if n > length buf then None else Some (take n buf, drop n buf))"

definition SHA_DIGEST_LENGTH :: nat where "SHA_DIGEST_LENGTH = 20"
definition TCG_EVENT_NAME_LEN_MAX :: nat where "TCG_EVENT_NAME_LEN_MAX = 255"

text \<open>The header of an entry.\<close>

record ima_header =
  hdr_pcr :: int
  hdr_digest :: "byte list"
  hdr_name_len :: nat

definition header_of :: "byte list \<Rightarrow> ima_header" where
  "header_of b = \<lparr>hdr_pcr = int32 (int (le (take 4 b))), hdr_digest = take 20 (drop 4 b),
     hdr_name_len = le (take 4 (drop 24 b))\<rparr>"

text \<open>Accesses relative to \<open>template_data\<close>, whose offset is a signed integer.\<close>

definition rd_at :: "byte list \<Rightarrow> int \<Rightarrow> nat \<Rightarrow> byte list res" where
  "rd_at d off n = (if off < 0 then Inl OutOfBounds else rd d (nat off) n)"

definition strlen_at :: "byte list \<Rightarrow> int \<Rightarrow> nat res" where
  "strlen_at d off = (if off < 0 \<or> 0 \<notin> set (drop (nat off) d) then Inl OutOfBounds
     else Inr (length (cstr (drop (nat off) d))))"

section \<open>The template data of an entry\<close>

text \<open>
  \<open>read_template_data\<close>: the length of the data (the old one \<open>stale\<close> when it cannot be
  read), the data and the rest of the buffer. The results of \<open>buf_read\<close> are ignored, so
  missing bytes are zero.
\<close>

definition read_template_data :: "string \<Rightarrow> nat \<Rightarrow> byte list \<Rightarrow> (nat \<times> byte list \<times> byte list) res" where
  "read_template_data name stale buf =
     (if name \<noteq> ''ima'' then
        let (tdl, buf) = (case buf_read 4 buf of None \<Rightarrow> (stale, buf) | Some (b, buf) \<Rightarrow> (le b, buf)) in
        if tdl < 2 ^ 31 \<and> buf_read tdl buf \<noteq> None then Inr (tdl, take tdl buf, drop tdl buf)
        else Inr (tdl, replicate tdl 0, buf)
      else
        let tdl = SHA_DIGEST_LENGTH + TCG_EVENT_NAME_LEN_MAX + 1;
            (d, buf) = (case buf_read SHA_DIGEST_LENGTH buf of None \<Rightarrow> (replicate tdl 0, buf)
              | Some (b, buf) \<Rightarrow> (b @ replicate (tdl - SHA_DIGEST_LENGTH) 0, buf));
            (field_len, buf) = (case buf_read 4 buf of None \<Rightarrow> (0, buf) | Some (b, buf) \<Rightarrow> (le b, buf)) in
        case buf_read field_len buf of None \<Rightarrow> Inr (tdl, d, buf)
        | Some (b, buf) \<Rightarrow> and_then (wr d SHA_DIGEST_LENGTH b) (\<lambda>d. Inr (tdl, d, buf)))"

definition verify_template_hash :: "digest \<Rightarrow> ima_header \<Rightarrow> nat \<Rightarrow> byte list \<Rightarrow> bool res" where
  "verify_template_hash H hdr tdl d =
     and_then (hash_buf H EVP_sha1 d tdl) (\<lambda>h. Inr (h = hdr_digest hdr))"

section \<open>The fields of a template\<close>

definition starts :: "string \<Rightarrow> string \<Rightarrow> bool" where
  "starts s prefix \<longleftrightarrow> take (length prefix) s = prefix"

text \<open>\<open>strsep\<close>: the fields between the delimiters, empty ones included.\<close>

fun strsep_all :: "char \<Rightarrow> string \<Rightarrow> string list" where
  "strsep_all delim [] = [[]]"
| "strsep_all delim (c # cs) =
     (if c = delim then [] # strsep_all delim cs
      else case strsep_all delim cs of [] \<Rightarrow> [[c]] | x # xs \<Rightarrow> (c # x) # xs)"

text \<open>
  The four known templates. The format of the last is overwritten with a pointer to the name
  of the entry when an entry has an unknown template; \<open>aliased\<close> says that this happened.
\<close>

definition ima_template_fmt :: "bool \<Rightarrow> string \<Rightarrow> string \<times> bool" where
  "ima_template_fmt aliased name =
     (if name = ''ima'' then (''d|n'', aliased)
      else if name = ''ima-ng'' then (''d-ng|n-ng'', aliased)
      else if name = ''ima-sig'' then (''d-ng|n-ng|sig'', aliased)
      else if name = ''ima-modsig'' then (if aliased then name else ''d-ng|n-ng|sig|d-modsig|modsig'', aliased)
      else (name, True))"

record field_state =
  offset :: int
  digest_pos :: "(int \<times> nat) option"
  printed :: string

text \<open>The digest that an earlier field pointed to.\<close>

definition print_digest :: "byte list \<Rightarrow> field_state \<Rightarrow> string res" where
  "print_digest d s = (case digest_pos s of None \<Rightarrow> Inr ''Digest: ''
     | Some (p, n) \<Rightarrow> and_then (rd_at d p n) (\<lambda>b. print_data_no_lf b n (Some ''Digest'')))"

definition name_field :: "byte list \<Rightarrow> int \<Rightarrow> nat \<Rightarrow> string res" where
  "name_field d off field_len = and_then (rd_at d off field_len) (\<lambda>b. Inr (chars (cstr b)))"

text \<open>One field: the state for the next field and the module name, which ends the loop.\<close>

definition digest_field :: "byte list \<Rightarrow> int \<Rightarrow> nat \<Rightarrow> field_state \<Rightarrow> (field_state \<times> string option) res" where
  "digest_field d off field_len s =
     and_then (strlen_at d off) (\<lambda>l.
       Inr (s\<lparr>digest_pos := Some (off + int l + 1, sub32 field_len (l + 1)),
              offset := int32 (off + int field_len)\<rparr>, None))"

definition sig_field ::
  "byte list \<Rightarrow> nat \<Rightarrow> string \<Rightarrow> int \<Rightarrow> nat \<Rightarrow> field_state \<Rightarrow> (field_state \<times> string option) res" where
  "sig_field d tdl f off field_len s =
     and_then (print_digest d s) (\<lambda>t.
     let none = (s\<lparr>offset := off, printed := printed s @ t @ f @ '': No signature present''\<rparr>, None) in
     if int tdl \<le> off mod 2 ^ 32 then Inr none
     else and_then (rd_at d off 1) (\<lambda>b.
       if b \<noteq> [3] then Inr none
       else and_then (rd_at d (off + 9) (sub64 field_len 9)) (\<lambda>sig.
         and_then (print_data_no_lf sig (sub64 field_len 9) (Some ''Signature'')) (\<lambda>t'.
           Inr (s\<lparr>offset := int32 (off + int field_len), printed := printed s @ t @ t'\<rparr>, None)))))"

text \<open>
  The memory buffer that OpenSSL reads: a length beyond the range of \<open>int\<close> becomes negative and
  the buffer is taken to end in a zero byte.
\<close>

definition bio_bytes :: "byte list \<Rightarrow> int \<Rightarrow> nat \<Rightarrow> byte list res" where
  "bio_bytes d off len =
     (if len < 2 ^ 31 then rd_at d off len else and_then (strlen_at d off) (\<lambda>l. rd_at d off l))"

text \<open>A pointer to freed memory is read through and freed again.\<close>

definition modsig_field ::
  "pkcs7_api \<Rightarrow> byte list \<Rightarrow> int \<Rightarrow> nat \<Rightarrow> field_state \<Rightarrow> (field_state \<times> string option) res" where
  "modsig_field api d off field_len s =
     and_then (bio_bytes d off field_len) (\<lambda>raw.
     let (t, sig_info) = modsig_parse_new api raw in
     case sig_info of
       NullSig \<Rightarrow> Inr (s\<lparr>offset := off, printed := printed s @ t @ ''Failed to parse module signature''\<rparr>, None)
     | FreedSig \<Rightarrow> Inl OutOfBounds
     | SigInfo i \<Rightarrow> and_then (print_data_no_lf (si_sig i) (length (si_sig i)) (Some ''Signature'')) (\<lambda>t'.
         Inr (s\<lparr>offset := int32 (off + int field_len), printed := printed s @ t @ t'\<rparr>, None)))"

definition template_field ::
  "pkcs7_api \<Rightarrow> string \<Rightarrow> nat \<Rightarrow> byte list \<Rightarrow> string \<Rightarrow> field_state \<Rightarrow> (field_state \<times> string option) res" where
  "template_field api name tdl d f s =
     and_then (if name = ''ima'' \<and> f = ''d'' then Inr (SHA_DIGEST_LENGTH, offset s)
       else if name = ''ima'' \<and> f = ''n'' then
         and_then (strlen_at d (offset s)) (\<lambda>l. Inr (u32 l, offset s))
       else and_then (rd_at d (offset s) 4) (\<lambda>b. Inr (le b, int32 (offset s + 4)))) (\<lambda>(field_len, off).
     let found = and_then (name_field d off field_len) (\<lambda>n. Inr (s, Some n));
         skip = (s\<lparr>offset := int32 (off + int field_len)\<rparr>, None) in
     if starts name ''ima-sig'' then
       (if starts f ''d-ng'' then digest_field d off field_len s
        else if starts f ''sig'' then sig_field d tdl f off field_len s
        else if starts f ''n-ng'' then found else Inr skip)
     else if starts name ''ima-modsig'' then
       (if starts f ''d-ng'' then Inr skip
        else if starts f ''d-modsig'' then digest_field d off field_len s
        else if f = ''modsig'' then modsig_field api d off field_len s
        else if starts f ''n-ng'' then found else Inr skip)
     else if starts name ''ima-ng'' then
       (if starts f ''d-ng'' then digest_field d off field_len s
        else if starts f ''n-ng'' then found else Inr skip)
     else Inr ((fst skip)\<lparr>printed := printed s @ ''Unknown IMA template '' @ name\<rparr>, None))"

fun template_fields ::
  "pkcs7_api \<Rightarrow> string \<Rightarrow> nat \<Rightarrow> byte list \<Rightarrow> string list \<Rightarrow> field_state \<Rightarrow> (string \<times> string option) res" where
  "template_fields api name tdl d [] s = Inr (printed s, None)"
| "template_fields api name tdl d (f # fs) s =
     and_then (template_field api name tdl d f s) (\<lambda>(s, r).
     case r of Some n \<Rightarrow> Inr (printed s, Some n)
     | None \<Rightarrow> template_fields api name tdl d fs s)"

text \<open>The text printed and the module name, if any.\<close>

definition get_template_data ::
  "pkcs7_api \<Rightarrow> string \<Rightarrow> string \<Rightarrow> nat \<Rightarrow> byte list \<Rightarrow> (string \<times> string option) res" where
  "get_template_data api tfmt name tdl d =
     template_fields api name tdl d (strsep_all (CHR ''|'') tfmt) \<lparr>offset = 0, digest_pos = None, printed = []\<rparr>"

section \<open>The measurement list\<close>

text \<open>
  The state of the loop: the length of the template data of the previous entry
  (indeterminate before the first), whether the template table was overwritten, whether an
  entry was printed, and the output.
\<close>

record ima_reader =
  data_len :: nat
  aliased :: bool
  is_first :: bool
  out :: string

definition ima_parsed_entry :: "string \<Rightarrow> string \<Rightarrow> string" where
  \<open>ima_parsed_entry h desc =
     ''{'' @ nl @ tab @ ''"type":"TPM Reference Value",''
     @ nl @ tab @ ''"subtype":"'' @ basename desc @ ''",''
     @ nl @ tab @ ''"index":10,''
     @ nl @ tab @ ''"sha256":"'' @ h @ ''",''
     @ nl @ tab @ ''"description":"'' @ desc @ ''",''
     @ nl @ tab @ ''"optional":true''
     @ nl @ ''}''\<close>

text \<open>
  The body of the loop: the code, the rest of the buffer and the state. When the name of the
  template is too long, the code frees \<open>template_data\<close>, which is indeterminate or already
  freed.
\<close>

definition ima_event ::
  "digest \<Rightarrow> pkcs7_api \<Rightarrow> ima_header \<Rightarrow> byte list \<Rightarrow> ima_reader \<Rightarrow> (int \<times> byte list \<times> ima_reader) res" where
  "ima_event H api hdr buf st =
     and_then (check (\<not> hdr_name_len hdr > TCG_EVENT_NAME_LEN_MAX) OutOfBounds) (\<lambda>_.
     let (name, buf) = (case buf_read (hdr_name_len hdr) buf of None \<Rightarrow> ([], buf)
           | Some (b, buf) \<Rightarrow> (chars (cstr b), buf)) in
     and_then (read_template_data name (data_len st) buf) (\<lambda>(tdl, d, buf).
     let st = st\<lparr>data_len := tdl\<rparr> in
     and_then (verify_template_hash H hdr tdl d) (\<lambda>ok.
     if \<not> ok then Inr (-1, buf, st\<lparr>out := out st @ ''Failed to verify template hash for '' @ name\<rparr>) else
     let (tfmt, al) = ima_template_fmt (aliased st) name; st = st\<lparr>aliased := al\<rparr> in
     and_then (get_template_data api tfmt name tdl d) (\<lambda>(t, r).
     case r of
       None \<Rightarrow> Inr (-1, buf, st\<lparr>out := out st @ t @ ''Failed to parse measurement entry '' @ name\<rparr>)
     | Some n \<Rightarrow>
         and_then (hash_buf H EVP_sha256 d tdl) (\<lambda>template_hash.
           Inr (0, buf, st\<lparr>is_first := False,
             out := out st @ t @ (if is_first st then ''['' else '','' @ nl)
               @ ima_parsed_entry (convert_bin_to_hex template_hash) n\<rparr>))))))"

lemma read_template_data_rest:
  "read_template_data name stale buf = Inr (tdl, d, buf') \<Longrightarrow> length buf' \<le> length buf"
  by (auto simp: read_template_data_def buf_read_def Let_def res_simps split: if_splits option.splits prod.splits)

lemma ima_event_rest:
  "ima_event H api hdr buf st = Inr (r, buf', st') \<Longrightarrow> length buf' \<le> length buf"
  by (fastforce simp: ima_event_def buf_read_def Let_def res_simps split: if_splits option.splits prod.splits
      dest: read_template_data_rest)

function ima_loop ::
  "digest \<Rightarrow> pkcs7_api \<Rightarrow> byte list \<Rightarrow> ima_reader \<Rightarrow> (int \<times> ima_reader) res" where
  "ima_loop H api buf st =
     (case buf_read 28 buf of
        None \<Rightarrow> Inr (0, st\<lparr>out := out st @ '']'' @ nl\<rparr>)
      | Some (h, buf) \<Rightarrow>
          and_then (ima_event H api (header_of h) buf st) (\<lambda>(ret, buf, st).
            if ret \<noteq> 0 then Inr (ret, st) else ima_loop H api buf st))"
  by pat_completeness auto
termination
  by (relation "measure (\<lambda>(H, m, buf, st). length buf)")
    (auto simp: buf_read_def split: if_splits dest!: ima_event_rest)

declare ima_loop.simps [simp del]

definition ima_parse_binary_runtime_measurements ::
  "digest \<Rightarrow> pkcs7_api \<Rightarrow> nat \<Rightarrow> bool \<Rightarrow> byte list \<Rightarrow> (int \<times> ima_reader) res" where
  "ima_parse_binary_runtime_measurements H api stale al buf =
     ima_loop H api buf \<lparr>data_len = stale, aliased = al, is_first = True, out = []\<rparr>"

text \<open>The code returned by \<open>main\<close> and its output; the result of the parser is ignored.\<close>

definition parse_ima_main ::
  "digest \<Rightarrow> pkcs7_api \<Rightarrow> nat \<Rightarrow> (string \<Rightarrow> read_result list option) \<Rightarrow> string \<Rightarrow> (int \<times> string) res" where
  "parse_ima_main H api stale device ima_file =
     (case ml_get_ima_list_new device ima_file of
        (t, None) \<Rightarrow> Inr (-1, t @ ''Failed to retrieve measurements (if reading from /sys, root is required)'' @ nl)
      | (t, Some dat) \<Rightarrow>
          and_then (ima_parse_binary_runtime_measurements H api stale False dat) (\<lambda>(ret, st). Inr (0, out st)))"

section \<open>Parsing an entry\<close>

text \<open>
  Template data of the known templates that hold a SHA-256 digest: the digest, the path and
  whatever follows (a signature, possibly empty).
\<close>

definition ng_record :: "byte list \<Rightarrow> string \<Rightarrow> byte list \<Rightarrow> byte list" where
  "ng_record h path tail = to_le 4 40 @ sha256_prefix @ h @ to_le 4 (length path + 1) @ bytes_of path @ [0] @ tail"

lemma ima_record_ng: "\<exists>tail. ima_record t h p = ng_record h p tail"
  unfolding ima_record_def ng_record_def by (rule exI [of _ "if t = ''ima-sig'' then to_le 4 0 else []"]) simp

definition ima_list_entry :: "digest \<Rightarrow> nat \<Rightarrow> string \<Rightarrow> byte list \<Rightarrow> byte list" where
  "ima_list_entry H pcr template d = to_le 4 pcr @ H EVP_sha1 d @ to_le 4 (length template) @ bytes_of template
     @ to_le 4 (length d) @ d"

lemma ng_digest_field:
  assumes "length h = 32" and t: "known_template t"
  shows "\<exists>s'. template_field api t tdl (ng_record h p tail) ''d-ng'' \<lparr>offset = 0, digest_pos = None, printed = []\<rparr>
      = Inr (s', None) \<and> offset s' = 44 \<and> printed s' = []"
proof -
  have r: "rd_at (ng_record h p tail) 0 4 = Inr (to_le 4 40)"
    by (simp add: rd_at_def ng_record_def)
  have l: "strlen_at (ng_record h p tail) 4 = Inr 7"
    by (simp add: strlen_at_def ng_record_def sha256_prefix_def cstr_def bytes_of_def)
  show ?thesis
    using t by (auto simp: known_template_def template_field_def r l starts_def digest_field_def)
qed

lemma ng_name_field:
  assumes t: "known_template t" and h: "length h = 32" and p: "CHR 0x00 \<notin> set p" "length p < 2 ^ 31"
    and s: "offset s = 44"
  shows "template_field api t tdl (ng_record h p tail) ''n-ng'' s = Inr (s, Some p)"
proof -
  have r: "rd_at (ng_record h p tail) 44 4 = Inr (to_le 4 (length p + 1))"
    using h by (simp add: rd_at_def ng_record_def sha256_prefix_def del: to_le_literal to_le.simps)
  have l: "le (to_le 4 (length p + 1)) = length p + 1"
    using p(2) by (intro le_to_le_small) simp
  have n: "rd_at (ng_record h p tail) 48 (length p + 1) = Inr (bytes_of p @ [0])"
    using h by (simp add: rd_at_def ng_record_def sha256_prefix_def del: to_le_literal to_le.simps)
  show ?thesis
    using t p(1) cstr_bytes_of [OF p(1), of "[]"] n
    by (auto simp: known_template_def template_field_def r l [simplified] s starts_def name_field_def)
qed

lemma ng_template_data:
  assumes t: "known_template t" and h: "length h = 32" and p: "CHR 0x00 \<notin> set p" "length p < 2 ^ 31"
  shows "get_template_data api (fst (ima_template_fmt al t)) t tdl (ng_record h p tail) = Inr ([], Some p)"
proof -
  obtain s' where s': "template_field api t tdl (ng_record h p tail) ''d-ng'' \<lparr>offset = 0, digest_pos = None, printed = []\<rparr>
      = Inr (s', None)" "offset s' = 44" "printed s' = []"
    using ng_digest_field [OF h t] by blast
  obtain fs where "strsep_all (CHR ''|'') (fst (ima_template_fmt al t)) = ''d-ng'' # ''n-ng'' # fs"
    using t by (auto simp: known_template_def ima_template_fmt_def)
  then show ?thesis
    by (simp add: get_template_data_def s' ng_name_field [OF t h p s'(2)])
qed

lemma buf_read_append [simp]: "n = length xs \<Longrightarrow> buf_read n (xs @ ys) = Some (xs, ys)"
  by (simp add: buf_read_def)

lemma cstr_known: "known_template t \<Longrightarrow> chars (cstr (bytes_of t)) = t \<and> length t < 255 \<and> t \<noteq> ''ima''"
  by (auto simp: known_template_def)

lemma read_template_data_entry:
  assumes "t \<noteq> ''ima''" and "length d < 2 ^ 31"
  shows "read_template_data t stale (to_le 4 (length d) @ d @ rest) = Inr (length d, d, rest)"
proof -
  have "le (to_le 4 (length d)) = length d" using assms(2) by (intro le_to_le_small) simp
  then show ?thesis using assms by (simp add: read_template_data_def buf_read_def)
qed

lemma read_known:
  "\<lbrakk>known_template t; length d < 2 ^ 31\<rbrakk>
    \<Longrightarrow> read_template_data t stale (to_le 4 (length d) @ d @ rest) = Inr (length d, d, rest)"
  using cstr_known [of t] by (simp add: read_template_data_entry)

lemma ima_event_entry:
  assumes H: "digest_ok H" and t: "known_template t" and h: "length h = 32"
    and p: "CHR 0x00 \<notin> set p" and d: "d = ng_record h p tail" "length d < 2 ^ 31"
    and hdr: "hdr_digest hdr = H EVP_sha1 d" "hdr_name_len hdr = length t"
  shows "\<exists>st'. ima_event H api hdr (bytes_of t @ to_le 4 (length d) @ d @ rest) st = Inr (0, rest, st')
    \<and> is_first st' = False
    \<and> out st' = out st @ (if is_first st then ''['' else '','' @ nl) @ ima_parsed_entry (hex_string (H EVP_sha256 d)) p"
proof -
  have lp: "length p < 2 ^ 31" using d by (simp add: ng_record_def)
  obtain tfmt al' where f: "ima_template_fmt (aliased st) t = (tfmt, al')" by fastforce
  have g: "get_template_data api tfmt t (length d) d = Inr ([], Some p)"
    using ng_template_data [OF t h p lp, of api "aliased st"] by (simp add: f d(1))
  show ?thesis
    unfolding ima_event_def
    using cstr_known [OF t]
    by (simp add: hdr TCG_EVENT_NAME_LEN_MAX_def read_known [OF t d(2)] verify_template_hash_def hash_buf_def
        f g convert_bin_to_hex_def)
qed

section \<open>The whole list\<close>

text \<open>An entry of the list: PCR, template, digest of the file, path and trailing bytes.\<close>

type_synonym ima_list_item = "nat \<times> string \<times> byte list \<times> string \<times> byte list"

definition item_ok :: "ima_list_item \<Rightarrow> bool" where
  "item_ok e = (case e of (pcr, t, h, p, tail) \<Rightarrow>
     known_template t \<and> length h = 32 \<and> CHR 0x00 \<notin> set p \<and> length (ng_record h p tail) < 2 ^ 31)"

definition item_bytes :: "digest \<Rightarrow> ima_list_item \<Rightarrow> byte list" where
  "item_bytes H e = (case e of (pcr, t, h, p, tail) \<Rightarrow> ima_list_entry H pcr t (ng_record h p tail))"

definition item_json :: "digest \<Rightarrow> ima_list_item \<Rightarrow> string" where
  "item_json H e = (case e of (pcr, t, h, p, tail) \<Rightarrow>
     ima_json_object 10 (p, H EVP_sha256 (ng_record h p tail), True))"

lemma parsed_entry_json: "ima_parsed_entry (hex_string h) p = ima_json_object 10 (p, h, True)"
  by (simp add: ima_parsed_entry_def ima_json_object_def ld_def dec_def num_base.simps digit_def)

lemma join_concat: "join ('','' @ nl) (x # xs) = x @ concat (map (\<lambda>y. '','' @ nl @ y) xs)"
  by (induction xs arbitrary: x) simp_all

lemma ima_loop_step:
  assumes H: "digest_ok H" and e: "item_ok e"
  shows "\<exists>st'. ima_loop H api (item_bytes H e @ rest) st = ima_loop H api rest st' \<and> is_first st' = False
    \<and> out st' = out st @ (if is_first st then ''['' else '','' @ nl) @ item_json H e"
proof -
  obtain pcr t h p tail where ee: "e = (pcr, t, h, p, tail)" by (cases e)
  let ?d = "ng_record h p tail"
  let ?hdr = "to_le 4 pcr @ H EVP_sha1 ?d @ to_le 4 (length t)"
  have t: "known_template t" and h: "length h = 32" and p: "CHR 0x00 \<notin> set p" and d: "length ?d < 2 ^ 31"
    using e by (simp_all add: ee item_ok_def)
  have l: "le (to_le 4 (length t)) = length t" using cstr_known [OF t] by (intro le_to_le_small) simp
  have hdr: "hdr_digest (header_of ?hdr) = H EVP_sha1 ?d" "hdr_name_len (header_of ?hdr) = length t"
    using H l by (simp_all add: header_of_def)
  obtain st' where st': "ima_event H api (header_of ?hdr) (bytes_of t @ to_le 4 (length ?d) @ ?d @ rest) st = Inr (0, rest, st')"
    "is_first st' = False"
    "out st' = out st @ (if is_first st then ''['' else '','' @ nl) @ ima_parsed_entry (hex_string (H EVP_sha256 ?d)) p"
    using ima_event_entry [OF H t h p refl d hdr, of api rest st] by blast
  have b: "buf_read 28 (item_bytes H e @ rest) = Some (?hdr, bytes_of t @ to_le 4 (length ?d) @ ?d @ rest)"
    using buf_read_append [of 28 ?hdr] H by (simp add: ee item_bytes_def ima_list_entry_def)
  have "ima_loop H api (item_bytes H e @ rest) st = ima_loop H api rest st'"
    by (subst ima_loop.simps) (simp add: b st'(1))
  then show ?thesis using st'(2,3) by (auto simp: ee item_json_def parsed_entry_json)
qed

lemma ima_loop_items:
  assumes H: "digest_ok H"
  shows "\<lbrakk>list_all item_ok es; \<not> is_first st\<rbrakk> \<Longrightarrow>
    \<exists>st'. ima_loop H api (concat (map (item_bytes H) es) @ rest) st = ima_loop H api rest st'
      \<and> out st' = out st @ concat (map (\<lambda>e. '','' @ nl @ item_json H e) es)"
proof (induction es arbitrary: st)
  case (Cons e es)
  obtain st' where st': "ima_loop H api (item_bytes H e @ (concat (map (item_bytes H) es) @ rest)) st
      = ima_loop H api (concat (map (item_bytes H) es) @ rest) st'" "\<not> is_first st'"
    "out st' = out st @ '','' @ nl @ item_json H e"
    using ima_loop_step [OF H, of e api "concat (map (item_bytes H) es) @ rest" st] Cons.prems by auto
  show ?case using Cons.IH [OF _ st'(2)] Cons.prems(1) st' by auto
qed auto

lemma ima_loop_list:
  assumes H: "digest_ok H" and es: "list_all item_ok es" "es \<noteq> []" and st: "is_first st"
  shows "\<exists>st'. ima_loop H api (concat (map (item_bytes H) es) @ rest) st = ima_loop H api rest st'
      \<and> out st' = out st @ ''['' @ join ('','' @ nl) (map (item_json H) es)"
proof -
  obtain e es' where ee: "es = e # es'" using es(2) by (cases es) auto
  obtain st' where st': "ima_loop H api (item_bytes H e @ (concat (map (item_bytes H) es') @ rest)) st
      = ima_loop H api (concat (map (item_bytes H) es') @ rest) st'" "\<not> is_first st'"
    "out st' = out st @ ''['' @ item_json H e"
    using ima_loop_step [OF H, of e api "concat (map (item_bytes H) es') @ rest" st] es(1) ee st by auto
  obtain st'' where st'': "ima_loop H api (concat (map (item_bytes H) es') @ rest) st' = ima_loop H api rest st''"
    "out st'' = out st' @ concat (map (\<lambda>e. '','' @ nl @ item_json H e) es')"
    using ima_loop_items [OF H _ st'(2), of es' api rest] es(1) ee by auto
  have "out st'' = out st @ ''['' @ join ('','' @ nl) (map (item_json H) es)"
    unfolding ee list.map join_concat by (simp add: st'' st'(3) comp_def)
  then show ?thesis using st'(1) st''(1) by (auto simp: ee)
qed

lemma ima_list_output:
  assumes H: "digest_ok H" and es: "list_all item_ok es" "es \<noteq> []" and junk: "length junk < 28"
  shows "and_then (ima_parse_binary_runtime_measurements H api stale al (concat (map (item_bytes H) es) @ junk))
      (\<lambda>(ret, st). Inr (ret, out st)) = Inr (0, json_array (map (item_json H) es) @ nl)"
proof -
  have "ima_loop H api junk st = Inr (0, st\<lparr>out := out st @ '']'' @ nl\<rparr>)" for st
    using junk by (subst ima_loop.simps) (simp add: buf_read_def)
  then show ?thesis
    using ima_loop_list [OF H es, of "\<lparr>data_len = stale, aliased = al, is_first = True, out = []\<rparr>" api junk]
    by (auto simp: ima_parse_binary_runtime_measurements_def json_array_def)
qed

text \<open>
  C6. Parsing inverts the kernel's serialisation: for a non-empty list of entries with a
  known template, a SHA-256 file digest and a path, the parser prints the JSON array of the
  entries, in order, each with its path and the SHA-256 digest of its template data. The
  PCR number of an entry, what follows the path in its data and an incomplete entry at the
  end of the list do not matter.
\<close>

theorem ima_list_roundtrip:
  assumes "digest_ok H" and "list_all item_ok es" and "es \<noteq> []" and "length junk < 28"
  shows "and_then (ima_parse_binary_runtime_measurements H api stale al (concat (map (item_bytes H) es) @ junk))
      (\<lambda>(ret, st). Inr (ret, out st)) = Inr (0, json_array (map (item_json H) es) @ nl)"
  using assms by (rule ima_list_output)

theorem ima_list_roundtrip_witness:
  "and_then (ima_parse_binary_runtime_measurements sum_digest unsigned_api 0 False
       (ima_list_entry sum_digest 10 ''ima-ng'' (ng_record (replicate 32 7) ''/bin/sh'' [])
        @ ima_list_entry sum_digest 10 ''ima-sig'' (ng_record (replicate 32 9) ''/init'' (to_le 4 0)) @ [1, 2, 3]))
      (\<lambda>(ret, st). Inr (ret, out st))
   = Inr (0, json_array [ima_json_object 10 (''/bin/sh'', sum_digest EVP_sha256 (ng_record (replicate 32 7) ''/bin/sh'' []), True),
       ima_json_object 10 (''/init'', sum_digest EVP_sha256 (ng_record (replicate 32 9) ''/init'' (to_le 4 0)), True)] @ nl)"
  using ima_list_roundtrip [OF sum_digest_ok, of "[(10, ''ima-ng'', replicate 32 7, ''/bin/sh'', []),
      (10, ''ima-sig'', replicate 32 9, ''/init'', to_le 4 0)]" "[1, 2, 3]" unsigned_api 0 False]
  by (simp add: item_ok_def item_bytes_def item_json_def known_template_def ng_record_def sha256_prefix_def)

section \<open>The two IMA tools agree\<close>

definition file_item :: "digest \<Rightarrow> filesys \<Rightarrow> string \<Rightarrow> string option \<Rightarrow> string \<Rightarrow> ima_list_item" where
  "file_item H fs template strip f =
     (10, template, H EVP_sha256 (case fs f of Some b \<Rightarrow> b | None \<Rightarrow> []), strip_prefix_new f strip,
      if template = ''ima-sig'' then to_le 4 0 else [])"

lemma file_item_json: "item_json H (file_item H fs t strip f) = ima_json_object 10 (file_entry H fs t strip f)"
  by (simp add: file_item_def item_json_def file_entry_def ima_entry_of_def ima_record_def ng_record_def
      del: to_le_zero)

text \<open>
  C15. The reference values and the parsed log agree: for a tree of readable files, the text
  that calculate-ima-pcr prints for PCR 10 is exactly the text that parse-ima-pcr prints for
  the measurement list in which the kernel recorded the same files, in the same order, with
  the same template.
\<close>

theorem ima_tools_agree:
  assumes H: "digest_ok H" and evl: "known_template (ima_template evl)" "ima_fmt evl = FORMAT_JSON"
      "ima_log evl = None" "ima_pcr evl = 10"
    and paths: "list_all (path_ok T n) paths"
    and items: "items = map (file_item H (contents T) (ima_template evl) (ima_strip evl)) (concat (map (path_files T n) paths))"
      "items \<noteq> []" "list_all item_ok items"
    and short: "list_all (\<lambda>i. length (item_json H i) < 1022) items"
  shows "\<exists>text. ima_main H T n None paths evl = Inr (0, text)
    \<and> and_then (ima_parse_binary_runtime_measurements H api stale al (concat (map (item_bytes H) items)))
        (\<lambda>(ret, st). Inr (ret, out st)) = Inr (0, text)"
proof -
  let ?es = "expected_entries H T n None paths evl"
  have json: "map (ima_json_object 10) ?es = map (item_json H) items"
    by (simp add: items(1) expected_entries_def file_item_json)
  have ne: "?es \<noteq> []" using json items(2) by auto
  have sh: "list_all (\<lambda>e. length (ima_json_object (ima_pcr evl) e) < 1022) ?es"
    using short arg_cong [OF json, of "list_all (\<lambda>s. length s < 1022)"] by (simp add: list.pred_map comp_def evl(4))
  show ?thesis
    using ima_main_output_aux [OF H evl(1-3) _ paths refl ne sh] ima_list_output [OF H items(3,2), of "[]"]
    by (simp add: json evl(4))
qed

theorem ima_tools_agree_witness:
  "\<exists>text. ima_main sum_digest (\<lparr>stat = [''/m'' \<mapsto> Directory [''.'', ''a''], ''/m/a'' \<mapsto> Regular], realpath = Some,
       contents = [''/m/a'' \<mapsto> [1, 2]], stale_is_dir = (\<lambda>_. False)\<rparr>) 1 None [''/m'']
       \<lparr>ima_fmt = FORMAT_JSON, ima_template = ''ima-ng'', ima_strip = Some ''/m'', ima_pcr = 10, ima_log = None\<rparr> = Inr (0, text)
    \<and> and_then (ima_parse_binary_runtime_measurements sum_digest unsigned_api 0 False
         (item_bytes sum_digest (10, ''ima-ng'', sum_digest EVP_sha256 [1, 2], ''/a'', [])))
        (\<lambda>(ret, st). Inr (ret, out st)) = Inr (0, text)"
  (is "\<exists>text. ima_main _ ?T _ _ _ ?evl = _ \<and> _")
proof -
  let ?items = "[(10, ''ima-ng'', sum_digest EVP_sha256 [1, 2], ''/a'', [])]"
  have files: "path_files ?T 1 ''/m'' = [''/m/a'']"
    by (simp add: path_files_def concat_path_new_def entry_is_dir_def)
  have ok: "list_all (path_ok ?T 1) [''/m'']"
    unfolding path_ok_def list.pred_inject files by (simp add: concat_path_new_def entry_is_dir_def)
  have items: "?items = map (file_item sum_digest (contents ?T) (ima_template ?evl) (ima_strip ?evl))
      (concat (map (path_files ?T 1) [''/m'']))"
    unfolding list.map files by (simp add: file_item_def strip_prefix_new_def)
  have i: "list_all item_ok ?items"
    using sum_digest_ok by (simp add: item_ok_def known_template_def ng_record_def sha256_prefix_def)
  have sh: "list_all (\<lambda>i. length (item_json sum_digest i) < 1022) ?items"
    using sum_digest_ok
    by (simp add: item_json_def ima_json_object_def nl_def tab_def ld_def dec_def num_base.simps basename_def)
  show ?thesis
    using ima_tools_agree [OF sum_digest_ok _ _ _ _ ok items _ i sh, of unsigned_api 0 False]
    by (simp add: known_template_def)
qed

section \<open>Rejected entries\<close>

lemma read_bytes_all [simp]: "read_bytes (map Byte bs) buf = Some (buf @ bs)"
  by (induction bs arbitrary: buf) simp_all

lemma ima_loop_tampered:
  assumes H: "digest_ok H" and t: "known_template t" and d: "length d < 2 ^ 31"
    and dg: "length dg = 20" "dg \<noteq> H EVP_sha1 d"
  shows "\<exists>st'. ima_loop H api (to_le 4 pcr @ dg @ to_le 4 (length t) @ bytes_of t @ to_le 4 (length d) @ d @ rest) st
    = Inr (-1, st') \<and> out st' = out st @ ''Failed to verify template hash for '' @ t"
proof -
  let ?hdr = "to_le 4 pcr @ dg @ to_le 4 (length t)"
  have l: "le (to_le 4 (length t)) = length t" using cstr_known [OF t] by (intro le_to_le_small) simp
  have hdr: "hdr_digest (header_of ?hdr) = dg" "hdr_name_len (header_of ?hdr) = length t"
    using dg l by (simp_all add: header_of_def)
  have b: "buf_read 28 (?hdr @ x) = Some (?hdr, x)" for x
    using dg by (intro buf_read_append) simp
  show ?thesis
    using b [of "bytes_of t @ to_le 4 (length d) @ d @ rest"] cstr_known [OF t] dg(2)
    by (subst ima_loop.simps) (auto simp: ima_event_def hdr TCG_EVENT_NAME_LEN_MAX_def read_known [OF t d]
        verify_template_hash_def hash_buf_def)
qed

text \<open>
  C35. An entry whose digest is not the SHA-1 of its template data ends the parsing with -1,
  but the program still returns 0: what it has printed is the array of the entries before it
  without the closing bracket, followed by the error message.
\<close>

theorem ima_list_tampered:
  assumes H: "digest_ok H" and es: "list_all item_ok es" "es \<noteq> []"
    and t: "known_template t" and d: "length d < 2 ^ 31" and dg: "length dg = 20" "dg \<noteq> H EVP_sha1 d"
    and dev: "device f = Some (map Byte (concat (map (item_bytes H) es)
      @ to_le 4 pcr @ dg @ to_le 4 (length t) @ bytes_of t @ to_le 4 (length d) @ d @ rest))"
  shows "parse_ima_main H api stale device f
    = Inr (0, ''['' @ join ('','' @ nl) (map (item_json H) es) @ ''Failed to verify template hash for '' @ t)"
proof -
  obtain st where st: "ima_loop H api (concat (map (item_bytes H) es)
      @ to_le 4 pcr @ dg @ to_le 4 (length t) @ bytes_of t @ to_le 4 (length d) @ d @ rest)
      \<lparr>data_len = stale, aliased = False, is_first = True, out = []\<rparr>
    = ima_loop H api (to_le 4 pcr @ dg @ to_le 4 (length t) @ bytes_of t @ to_le 4 (length d) @ d @ rest) st"
    "out st = ''['' @ join ('','' @ nl) (map (item_json H) es)"
    using ima_loop_list [OF H es, of "\<lparr>data_len = stale, aliased = False, is_first = True, out = []\<rparr>"] by fastforce
  obtain st' where st': "ima_loop H api (to_le 4 pcr @ dg @ to_le 4 (length t) @ bytes_of t @ to_le 4 (length d) @ d @ rest) st
    = Inr (-1, st')" "out st' = out st @ ''Failed to verify template hash for '' @ t"
    using ima_loop_tampered [OF H t d dg] by blast
  show ?thesis
    unfolding parse_ima_main_def ml_get_ima_list_new_def dev ima_parse_binary_runtime_measurements_def
    by (simp only: option.case read_bytes_all append_Nil st st' and_then_simps prod.case append_assoc)
qed

theorem ima_list_tampered_witness:
  "parse_ima_main sum_digest unsigned_api 0 [''log'' \<mapsto> map Byte
       (concat (map (item_bytes sum_digest) [(10, ''ima-ng'', replicate 32 7, ''/a'', [])])
        @ to_le 4 10 @ replicate 20 0 @ to_le 4 (length ''ima-ng'') @ bytes_of ''ima-ng'' @ to_le 4 (length [1, 2 :: byte]) @ [1, 2] @ [])] ''log''
   = Inr (0, ''['' @ join ('','' @ nl) (map (item_json sum_digest) [(10, ''ima-ng'', replicate 32 7, ''/a'', [])])
       @ ''Failed to verify template hash for '' @ ''ima-ng'')"
proof -
  have "hd (sum_digest EVP_sha1 [1, 2]) = 72" by (simp add: sum_digest_def)
  then have ne: "replicate 20 0 \<noteq> sum_digest EVP_sha1 [1, 2]" by (auto dest: arg_cong [of _ _ hd])
  have ok: "list_all item_ok [(10, ''ima-ng'', replicate 32 7, ''/a'', [])]"
    by (simp add: item_ok_def known_template_def ng_record_def sha256_prefix_def)
  show ?thesis
    by (rule ima_list_tampered [OF sum_digest_ok ok _ _ _ _ ne]) (simp_all only: fun_upd_same, simp_all add: known_template_def)
qed

text \<open>An entry of the template \<open>ima\<close> is never accepted: its module name is never extracted.\<close>

lemma template_fields_ima: "template_fields api ''ima'' tdl d fs s = Inr (t, r) \<Longrightarrow> r = None"
  by (induction fs arbitrary: s) (auto simp: template_field_def starts_def res_simps Let_def split: if_splits)

lemma ima_event_legacy:
  assumes "hdr_name_len hdr = 3" and "ima_event H api hdr (bytes_of ''ima'' @ rest) st = Inr (ret, buf', st')"
  shows "ret = -1"
proof -
  have "buf_read 3 (bytes_of ''ima'' @ rest) = Some (bytes_of ''ima'', rest)"
    by (rule buf_read_append) simp
  then show ?thesis using assms
    by (auto simp: ima_event_def res_simps Let_def get_template_data_def dest!: template_fields_ima split: if_splits prod.splits option.splits)
qed

end
