(* ===== verification/ParseIma.thy ===== *)
theory ParseIma
  imports ImaParse Cli
begin

text \<open>
  \<^verbatim>\<open>src/parse-ima-pcr/main.c\<close>: the program, from its arguments to its output, and what it does
  with the signatures of the template \<^verbatim>\<open>ima-modsig\<close>.
\<close>

section \<open>The program\<close>

definition BINARY_RUNTIME_MEASUREMENTS :: string where
  "BINARY_RUNTIME_MEASUREMENTS = ''/sys/kernel/security/ima/binary_runtime_measurements''"

definition parse_ima_option :: "string \<Rightarrow> string \<Rightarrow> string list \<Rightarrow> (nat \<times> string) res" where
  "parse_ima_option ima_file a rest =
     (if a = ''-m'' \<or> a = ''--measurements'' then value_of rest Inr
      else if a = ''-v'' \<or> a = ''--verbose'' then flag ima_file
      else usage)"

definition parse_ima_program ::
  "digest \<Rightarrow> pkcs7_api \<Rightarrow> nat \<Rightarrow> (string \<Rightarrow> read_result list option) \<Rightarrow> string list \<Rightarrow> (int \<times> string) res" where
  "parse_ima_program H api stale device args =
     (case parse_args parse_ima_option args BINARY_RUNTIME_MEASUREMENTS of
        Inl (Fail e) \<Rightarrow> Inr (-1, [])
      | Inl e \<Rightarrow> Inl e
      | Inr ima_file \<Rightarrow> parse_ima_main H api stale device ima_file)"

section \<open>The list is read completely\<close>

definition bytes_read :: "read_result list \<Rightarrow> byte list" where
  "bytes_read rs = concat (map (\<lambda>r. case r of Byte b \<Rightarrow> [b] | _ \<Rightarrow> []) rs)"

lemma read_bytes_bytes_read: "Failed \<notin> set rs \<Longrightarrow> read_bytes rs buf = Some (buf @ bytes_read rs)"
  by (induction rs buf rule: read_bytes.induct) (auto simp: bytes_read_def)

lemma parse_ima_main_read:
  assumes "device f = Some rs" and "Failed \<notin> set rs"
  shows "parse_ima_main H api stale device f
    = and_then (ima_parse_binary_runtime_measurements H api stale False (bytes_read rs)) (\<lambda>(ret, st). Inr (0, out st))"
  by (simp add: parse_ima_main_def ml_get_ima_list_new_def assms read_bytes_bytes_read)

text \<open>
  C24. The program always gets to the end of the list: however often the reads of the special
  file block, as long as none fails, it prints the JSON array of all the entries in their
  order and exits with 0. The name of the file is the default or the argument of
  \<^verbatim>\<open>--measurements\<close>.
\<close>

theorem parse_ima_program_completes:
  assumes H: "digest_ok H" and es: "list_all item_ok es" "es \<noteq> []" and junk: "length junk < 28"
    and args: "parse_args parse_ima_option args BINARY_RUNTIME_MEASUREMENTS = Inr f"
    and dev: "device f = Some rs" "Failed \<notin> set rs" "bytes_read rs = concat (map (item_bytes H) es) @ junk"
  shows "parse_ima_program H api stale device args = Inr (0, json_array (map (item_json H) es) @ nl)"
proof -
  have "parse_ima_main H api stale device f = Inr (0, json_array (map (item_json H) es) @ nl)"
    using ima_list_output [OF H es junk, of api stale False]
    by (auto simp: parse_ima_main_read [where f = f and device = device, OF dev(1,2)] dev(3) and_then_def split: sum.splits)
  then show ?thesis by (simp add: parse_ima_program_def args)
qed

theorem parse_ima_program_completes_witness:
  "parse_ima_program sum_digest unsigned_api 0
     [BINARY_RUNTIME_MEASUREMENTS \<mapsto> Blocked # map Byte (item_bytes sum_digest (10, ''ima-ng'', replicate 32 7, ''/a'', [])) @ [Blocked, Byte 1]]
     [''-v'']
   = Inr (0, json_array [item_json sum_digest (10, ''ima-ng'', replicate 32 7, ''/a'', [])] @ nl)"
proof -
  let ?e = "(10, ''ima-ng'', replicate 32 7, ''/a'', [])"
  have ok: "list_all item_ok [?e]"
    by (simp add: item_ok_def known_template_def ng_record_def sha256_prefix_def)
  have args: "parse_args parse_ima_option [''-v''] BINARY_RUNTIME_MEASUREMENTS = Inr BINARY_RUNTIME_MEASUREMENTS"
    by (simp add: parse_ima_option_def flag_def)
  have b: "bytes_read (Blocked # map Byte xs @ [Blocked, Byte 1]) = xs @ [1]" for xs
    by (simp add: bytes_read_def comp_def)
  have nf: "Failed \<notin> set (Blocked # map Byte xs @ [Blocked, Byte 1])" for xs by auto
  show ?thesis
    by (rule parse_ima_program_completes [OF sum_digest_ok ok _ _ args _ nf, unfolded list.map, where junk = "[1]"])
      (simp_all only: fun_upd_same b, simp_all)
qed

section \<open>Module signatures\<close>

text \<open>
  An entry of the template \<open>ima-modsig\<close> is complete before its signature is reached, so the
  signature is never decoded.
\<close>

lemma modsig_never_decoded:
  assumes h: "length h = 32" and p: "CHR 0x00 \<notin> set p" "length p < 2 ^ 31"
  shows "get_template_data api (fst (ima_template_fmt False ''ima-modsig'')) ''ima-modsig'' tdl (ng_record h p tail)
    = Inr ([], Some p)"
proof -
  have r: "rd_at (ng_record h p tail) 0 4 = Inr (to_le 4 40)"
    by (simp add: rd_at_def ng_record_def)
  have r': "rd_at (ng_record h p tail) 44 4 = Inr (to_le 4 (length p + 1))"
    using h by (simp add: rd_at_def ng_record_def sha256_prefix_def del: to_le_literal to_le.simps)
  have l: "le (to_le 4 (length p + 1)) = length p + 1"
    using p(2) by (intro le_to_le_small) simp
  have n: "rd_at (ng_record h p tail) 48 (length p + 1) = Inr (bytes_of p @ [0])"
    using h by (simp add: rd_at_def ng_record_def sha256_prefix_def del: to_le_literal to_le.simps)
  show ?thesis
    using n cstr_bytes_of [OF p(1), of "[]"]
    by (simp add: get_template_data_def ima_template_fmt_def template_field_def r r' l [simplified] starts_def name_field_def)
qed

text \<open>An entry whose template name makes the parser treat its second field as a module signature.\<close>

definition forged_name :: string where "forged_name = ''ima-modsig|modsig''"

definition forged_data :: "byte list \<Rightarrow> byte list" where
  "forged_data raw = to_le 4 0 @ to_le 4 (length raw) @ raw"

lemma forged_name_length: "length forged_name = 17"
  by (simp add: forged_name_def)

lemma forged_template_data:
  assumes raw: "length raw < 2 ^ 31" and freed: "snd (modsig_parse_new api raw) = FreedSig"
  shows "get_template_data api (fst (ima_template_fmt al forged_name)) forged_name tdl (forged_data raw) = Inl OutOfBounds"
proof -
  have r: "rd_at (forged_data raw) 0 4 = Inr (to_le 4 0)"
    by (simp add: rd_at_def forged_data_def)
  have r': "rd_at (forged_data raw) 4 4 = Inr (to_le 4 (length raw))"
    by (simp add: rd_at_def forged_data_def del: to_le_literal to_le.simps)
  have n: "rd_at (forged_data raw) 8 (length raw) = Inr raw"
    by (simp add: rd_at_def forged_data_def del: to_le_literal to_le.simps)
  have l: "le (to_le 4 (length raw)) = length raw" using raw by (intro le_to_le_small) simp
  have d: "bio_bytes (forged_data raw) 8 (length raw) = Inr raw" using n raw by (simp add: bio_bytes_def)
  have "modsig_field api (forged_data raw) 8 (length raw) s = Inl OutOfBounds" for s
    using freed by (cases "modsig_parse_new api raw") (simp add: modsig_field_def d)
  then show ?thesis
    by (simp add: get_template_data_def ima_template_fmt_def forged_name_def template_field_def r r' l starts_def)
qed

lemma forged_event:
  assumes d: "length (forged_data raw) < 2 ^ 31" and freed: "snd (modsig_parse_new api raw) = FreedSig"
    and hdr: "hdr_digest hdr = H EVP_sha1 (forged_data raw)" "hdr_name_len hdr = length forged_name"
  shows "ima_event H api hdr (bytes_of forged_name @ to_le 4 (length (forged_data raw)) @ forged_data raw @ rest) st
    = Inl OutOfBounds"
proof -
  have n: "length forged_name \<le> 255" "forged_name \<noteq> ''ima''" "CHR 0x00 \<notin> set forged_name"
    by (simp_all add: forged_name_def)
  obtain tfmt al where f: "ima_template_fmt (aliased st) forged_name = (tfmt, al)" by fastforce
  have raw: "length raw < 2 ^ 31" using d by (simp add: forged_data_def)
  have g: "get_template_data api tfmt forged_name tdl (forged_data raw) = Inl OutOfBounds" for tdl
    using forged_template_data [OF raw freed, of "aliased st"] by (simp add: f)
  show ?thesis
    unfolding ima_event_def
    using n by (simp add: hdr TCG_EVENT_NAME_LEN_MAX_def read_template_data_entry [OF n(2) d] verify_template_hash_def
        hash_buf_def f g)
qed

text \<open>
  C25. A list accepted by its digests can still make the parser use freed memory: the first
  field of an entry named \<^verbatim>\<open>ima-modsig|modsig\<close> is skipped and its second one is decoded as a
  module signature; when the decoded structure lacks a signer, the issuer, the signature or
  the serial number, \<^verbatim>\<open>modsig_parse_new\<close> frees its result, returns the pointer nevertheless, and
  the caller reads the signature through it.
\<close>

theorem forged_signature_freed:
  assumes H: "digest_ok H" and raw: "length raw < 2 ^ 31 - 8" and dec: "d2i_PKCS7 api raw = Some p"
    and p: "signer_info p = Some ss"
      "ss = [] \<or> issuer_and_serial (hd ss) = None \<or> enc_digest (hd ss) = None
       \<or> serial (the (issuer_and_serial (hd ss))) = None"
    and dev: "device f = Some rs" "Failed \<notin> set rs"
      "bytes_read rs = ima_list_entry H pcr forged_name (forged_data raw) @ rest"
  shows "parse_ima_main H api stale device f = Inl OutOfBounds"
proof -
  let ?d = "forged_data raw"
  let ?hdr = "to_le 4 pcr @ H EVP_sha1 ?d @ to_le 4 (length forged_name)"
  have d: "length ?d < 2 ^ 31" using raw by (simp add: forged_data_def)
  have freed: "snd (modsig_parse_new api raw) = FreedSig"
    using dec p by (auto simp: modsig_freed_iff)
  have hdr: "hdr_digest (header_of ?hdr) = H EVP_sha1 ?d" "hdr_name_len (header_of ?hdr) = length forged_name"
    using H by (simp_all add: header_of_def le_to_le_small forged_name_length)
  have e: "ima_event H api (header_of ?hdr) (bytes_of forged_name @ to_le 4 (length ?d) @ ?d @ rest)
      \<lparr>data_len = stale, aliased = False, is_first = True, out = []\<rparr> = Inl OutOfBounds"
    by (rule forged_event [where H = H and hdr = "header_of ?hdr", OF d freed hdr])
  have b: "buf_read 28 (?hdr @ x) = Some (?hdr, x)" for x
    using H by (intro buf_read_append) simp
  have "ima_loop H api (bytes_read rs) \<lparr>data_len = stale, aliased = False, is_first = True, out = []\<rparr> = Inl OutOfBounds"
    using b [of "bytes_of forged_name @ to_le 4 (length ?d) @ ?d @ rest"] e
    by (subst ima_loop.simps) (simp add: dev(3) ima_list_entry_def)
  then show ?thesis
    by (simp add: parse_ima_main_read [where f = f and device = device, OF dev(1,2)] ima_parse_binary_runtime_measurements_def)
qed

theorem forged_signature_freed_witness:
  "parse_ima_main sum_digest (unsigned_api\<lparr>d2i_PKCS7 := (\<lambda>b. if b = [0x30, 0] then Some \<lparr>signer_info = Some []\<rparr> else None)\<rparr>) 0
     [''log'' \<mapsto> map Byte (ima_list_entry sum_digest 10 forged_name (forged_data [0x30, 0]))] ''log'' = Inl OutOfBounds"
proof -
  have b: "bytes_read (map Byte xs) = xs @ []" for xs
    by (simp add: bytes_read_def comp_def)
  have nf: "Failed \<notin> set (map Byte xs)" for xs by auto
  show ?thesis
    by (rule forged_signature_freed [OF sum_digest_ok _ _ _ _ _ nf b, where p = "\<lparr>signer_info = Some []\<rparr>" and ss = "[]"])
      (simp_all only: fun_upd_same, simp_all)
qed

end
