(* ===== verification/EventCb.thy ===== *)
theory EventCb
  imports EventLog Gpt
begin

text \<open>
  \<^verbatim>\<open>src/parse-srtm-pcrs/eventcb.c\<close>: the callbacks that turn the events of a TCG boot log into
  the text log of each selected PCR and replay their SHA-256 digests. The memory of the log
  is part of the state, since one callback writes to it. A callback that returns false ends
  the parsing and is \<open>Fail 0\<close>. Diagnostic messages are not modelled, not even the one
  \<^verbatim>\<open>get_algo_str\<close> prints to standard output for an algorithm without a name, and log files
  are shorter than 2 GiB, so that sizes fit an \<open>int\<close>.
\<close>

section \<open>Event types\<close>

definition EV_POST_CODE :: nat where "EV_POST_CODE = 0x1"
definition EV_NO_ACTION :: nat where "EV_NO_ACTION = 0x3"
definition EV_S_CRTM_CONTENTS :: nat where "EV_S_CRTM_CONTENTS = 0x7"
definition EV_IPL :: nat where "EV_IPL = 0xd"
definition EV_EFI_EVENT_BASE :: nat where "EV_EFI_EVENT_BASE = 0x80000000"
definition EV_EFI_VARIABLE_DRIVER_CONFIG :: nat where "EV_EFI_VARIABLE_DRIVER_CONFIG = EV_EFI_EVENT_BASE + 0x1"
definition EV_EFI_VARIABLE_BOOT :: nat where "EV_EFI_VARIABLE_BOOT = EV_EFI_EVENT_BASE + 0x2"
definition EV_EFI_BOOT_SERVICES_APPLICATION :: nat where "EV_EFI_BOOT_SERVICES_APPLICATION = EV_EFI_EVENT_BASE + 0x3"
definition EV_EFI_BOOT_SERVICES_DRIVER :: nat where "EV_EFI_BOOT_SERVICES_DRIVER = EV_EFI_EVENT_BASE + 0x4"
definition EV_EFI_RUNTIME_SERVICES_DRIVER :: nat where "EV_EFI_RUNTIME_SERVICES_DRIVER = EV_EFI_EVENT_BASE + 0x5"
definition EV_EFI_GPT_EVENT :: nat where "EV_EFI_GPT_EVENT = EV_EFI_EVENT_BASE + 0x6"
definition EV_EFI_ACTION :: nat where "EV_EFI_ACTION = EV_EFI_EVENT_BASE + 0x7"
definition EV_EFI_PLATFORM_FIRMWARE_BLOB :: nat where "EV_EFI_PLATFORM_FIRMWARE_BLOB = EV_EFI_EVENT_BASE + 0x8"
definition EV_EFI_HCRTM_EVENT :: nat where "EV_EFI_HCRTM_EVENT = EV_EFI_EVENT_BASE + 0x10"
definition EV_EFI_VARIABLE_AUTHORITY :: nat where "EV_EFI_VARIABLE_AUTHORITY = EV_EFI_EVENT_BASE + 0xe0"

lemmas event_type_defs = EV_POST_CODE_def EV_NO_ACTION_def EV_S_CRTM_CONTENTS_def EV_IPL_def
  EV_EFI_VARIABLE_DRIVER_CONFIG_def EV_EFI_VARIABLE_BOOT_def EV_EFI_BOOT_SERVICES_APPLICATION_def
  EV_EFI_BOOT_SERVICES_DRIVER_def EV_EFI_RUNTIME_SERVICES_DRIVER_def EV_EFI_GPT_EVENT_def
  EV_EFI_ACTION_def EV_EFI_PLATFORM_FIRMWARE_BLOB_def EV_EFI_HCRTM_EVENT_def
  EV_EFI_VARIABLE_AUTHORITY_def EV_EFI_EVENT_BASE_def

definition event_type_names :: "(nat \<times> string) list" where
  "event_type_names =
     [(0x0, ''EV_PREBOOT_CERT''), (EV_POST_CODE, ''EV_POST_CODE''), (0x2, ''EV_UNUSED''),
      (EV_NO_ACTION, ''EV_NO_ACTION''), (0x4, ''EV_SEPARATOR''), (0x5, ''EV_ACTION''),
      (0x6, ''EV_EVENT_TAG''), (EV_S_CRTM_CONTENTS, ''EV_S_CRTM_CONTENTS''),
      (0x8, ''EV_S_CRTM_VERSION''), (0x9, ''EV_CPU_MICROCODE''), (0xa, ''EV_PLATFORM_CONFIG_FLAGS''),
      (0xb, ''EV_TABLE_OF_DEVICES''), (0xc, ''EV_COMPACT_HASH''), (EV_IPL, ''EV_IPL''),
      (0xe, ''EV_IPL_PARTITION_DATA''), (0xf, ''EV_NONHOST_CODE''), (0x10, ''EV_NONHOST_CONFIG''),
      (0x11, ''EV_NONHOST_INFO''), (0x12, ''EV_OMIT_BOOT_DEVICE_EVENTS''), (0x13, ''EV_POST_CODE2''),
      (EV_EFI_VARIABLE_DRIVER_CONFIG, ''EV_EFI_VARIABLE_DRIVER_CONFIG''),
      (EV_EFI_VARIABLE_BOOT, ''EV_EFI_VARIABLE_BOOT''),
      (EV_EFI_BOOT_SERVICES_APPLICATION, ''EV_EFI_BOOT_SERVICES_APPLICATION''),
      (EV_EFI_BOOT_SERVICES_DRIVER, ''EV_EFI_BOOT_SERVICES_DRIVER''),
      (EV_EFI_RUNTIME_SERVICES_DRIVER, ''EV_EFI_RUNTIME_SERVICES_DRIVER''),
      (EV_EFI_GPT_EVENT, ''EV_EFI_GPT_EVENT''), (EV_EFI_ACTION, ''EV_EFI_ACTION''),
      (EV_EFI_PLATFORM_FIRMWARE_BLOB, ''EV_EFI_PLATFORM_FIRMWARE_BLOB''),
      (EV_EFI_EVENT_BASE + 0x9, ''EV_EFI_HANDOFF_TABLES''),
      (EV_EFI_EVENT_BASE + 0xa, ''EV_EFI_PLATFORM_FIRMWARE_BLOB2''),
      (EV_EFI_EVENT_BASE + 0xb, ''EV_EFI_HANDOFF_TABLES2''),
      (EV_EFI_EVENT_BASE + 0xd, ''EV_EFI_GPT_EVENT2''),
      (EV_EFI_HCRTM_EVENT, ''EV_EFI_HCRTM_EVENT''),
      (EV_EFI_VARIABLE_AUTHORITY, ''EV_EFI_VARIABLE_AUTHORITY''),
      (EV_EFI_EVENT_BASE + 0xe1, ''EV_EFI_SPDM_FIRMWARE_BLOB''),
      (EV_EFI_EVENT_BASE + 0xe2, ''EV_EFI_SPDM_FIRMWARE_CONFIG''),
      (EV_EFI_EVENT_BASE + 0xe3, ''EV_EFI_SPDM_DEVICE_POLICY''),
      (EV_EFI_EVENT_BASE + 0xe4, ''EV_EFI_SPDM_DEVICE_AUTHORITY'')]"

definition eventtype_to_string :: "nat \<Rightarrow> string" where
  "eventtype_to_string t = (case map_of event_type_names t of Some s \<Rightarrow> s | None \<Rightarrow> ''Unknown event type'')"

definition TPM2_ALG_SHA1 :: nat where "TPM2_ALG_SHA1 = 0x4"
definition TPM2_ALG_SHA256 :: nat where "TPM2_ALG_SHA256 = 0xb"
definition TPM2_ALG_SHA384 :: nat where "TPM2_ALG_SHA384 = 0xc"
definition TPM2_ALG_SHA512 :: nat where "TPM2_ALG_SHA512 = 0xd"
definition TPM2_ALG_SM3_256 :: nat where "TPM2_ALG_SM3_256 = 0x12"

definition get_algo_str :: "nat \<Rightarrow> string" where
  "get_algo_str i =
     (if i = TPM2_ALG_SHA1 then ''sha1'' else if i = TPM2_ALG_SHA256 then ''sha256''
      else if i = TPM2_ALG_SHA384 then ''sha384'' else if i = TPM2_ALG_SHA512 then ''sha512''
      else ''unknown'')"

section \<open>State\<close>

record tcg_state =
  cb_evl :: eventlog_t
  pcr_nums :: "nat list"
  calc_pcrs :: "byte list list"
  active_pcr :: nat
  no_action_event_pending :: bool
  mem :: "byte list"

text \<open>
  The macro \<open>ADD_EVLOG\<close>: only selected PCRs are logged, each entry is cut to its buffer, and
  \<open>mystrcat\<close> appends it to the log of the active PCR.
\<close>

definition mystrcat :: "nat \<Rightarrow> string \<Rightarrow> eventlog_t \<Rightarrow> eventlog_t res" where
  "mystrcat idx src evl = append_slot evl idx src"

definition add_evlog :: "string \<Rightarrow> tcg_state \<Rightarrow> tcg_state res" where
  "add_evlog text st =
     (if contains (pcr_nums st) (active_pcr st) then
        and_then (mystrcat (active_pcr st) (snprintf 4096 text) (cb_evl st)) (\<lambda>evl. Inr (st\<lparr>cb_evl := evl\<rparr>))
      else Inr st)"

definition description_text :: "format_t \<Rightarrow> string \<Rightarrow> string" where
  \<open>description_text f text = (case f of
     FORMAT_JSON \<Rightarrow> tab @ ''"description":"'' @ text @ ''"'' @ nl @ ''},'' @ nl
   | FORMAT_TEXT \<Rightarrow> tab @ ''description: '' @ text @ nl)\<close>

definition add_evlog_description :: "string \<Rightarrow> tcg_state \<Rightarrow> tcg_state res" where
  "add_evlog_description text st = add_evlog (description_text (fmt (cb_evl st)) text) st"

section \<open>The callbacks for headers and digests\<close>

text \<open>The index is printed with \<open>%d\<close>.\<close>

definition index_text :: "nat \<Rightarrow> string" where
  "index_text pcr = ld (int32 (int pcr))"

definition sha1_entry_text :: "format_t \<Rightarrow> nat \<Rightarrow> nat \<Rightarrow> byte list \<Rightarrow> string" where
  \<open>sha1_entry_text f ty pcr digest = (case f of
     FORMAT_JSON \<Rightarrow> ''{'' @ nl @ tab @ ''"type":"TPM Reference Value",'' @ nl @ tab @ ''"subtype":"''
       @ eventtype_to_string ty @ ''",'' @ nl @ tab @ ''"index":'' @ index_text pcr @ '','' @ nl @ tab
       @ ''"sha256":"'' @ hex_string digest @ ''"'' @ nl @ ''},'' @ nl
   | FORMAT_TEXT \<Rightarrow> ''name: '' @ eventtype_to_string ty @ nl @ tab @ ''pcr: '' @ index_text pcr @ nl @ tab
       @ ''sha256: '' @ hex_string digest @ nl)\<close>

text \<open>\<open>event_specid_cb\<close> and \<open>event_header_cb\<close> have the same body.\<close>

definition event_header_cb :: "nat \<Rightarrow> nat \<Rightarrow> byte list \<Rightarrow> tcg_state \<Rightarrow> tcg_state res" where
  "event_header_cb ty pcr digest st =
     (if ty = EV_NO_ACTION then Inr st
      else add_evlog (sha1_entry_text (fmt (cb_evl st)) ty pcr digest) (st\<lparr>active_pcr := pcr\<rparr>))"

definition event_specid_cb :: "nat \<Rightarrow> nat \<Rightarrow> byte list \<Rightarrow> tcg_state \<Rightarrow> tcg_state res" where
  "event_specid_cb ty pcr digest st =
     (if ty = EV_NO_ACTION then Inr st
      else add_evlog (sha1_entry_text (fmt (cb_evl st)) ty pcr digest) (st\<lparr>active_pcr := pcr\<rparr>))"

definition initval_text :: "format_t \<Rightarrow> nat \<Rightarrow> nat \<Rightarrow> string" where
  \<open>initval_text f locality pcr = (case f of
     FORMAT_JSON \<Rightarrow> ''{'' @ nl @ tab @ ''"type":"TPM Reference Value",'' @ nl @ tab
       @ ''"subtype":"TPM_PCR_INIT_VALUE",'' @ nl @ tab @ ''"index":'' @ dec pcr @ '','' @ nl @ tab
       @ ''"sha256":"'' @ replicate 63 (CHR ''0'') @ dec locality @ ''"'' @ nl @ ''},'' @ nl
   | FORMAT_TEXT \<Rightarrow> ''name: TPM_PCR_INIT_VALUE'' @ nl @ tab @ ''pcr: '' @ dec pcr @ nl @ tab
       @ ''sha256: '' @ replicate 63 (CHR ''0'') @ dec locality @ nl)\<close>

definition event_initval_cb :: "nat \<Rightarrow> nat \<Rightarrow> tcg_state \<Rightarrow> tcg_state res" where
  "event_initval_cb locality pcr st =
     add_evlog (initval_text (fmt (cb_evl st)) locality pcr) (st\<lparr>active_pcr := pcr\<rparr>)"

definition header2_text :: "format_t \<Rightarrow> nat \<Rightarrow> nat \<Rightarrow> string" where
  \<open>header2_text f ty pcr = (case f of
     FORMAT_JSON \<Rightarrow> ''{'' @ nl @ tab @ ''"type":"TPM Reference Value",'' @ nl @ tab @ ''"subtype":"''
       @ eventtype_to_string ty @ ''",'' @ nl @ tab @ ''"index":'' @ dec pcr @ '','' @ nl
   | FORMAT_TEXT \<Rightarrow> ''name: '' @ eventtype_to_string ty @ nl @ tab @ ''pcr: '' @ dec pcr @ nl)\<close>

definition event2_header_cb :: "nat \<Rightarrow> nat \<Rightarrow> tcg_state \<Rightarrow> tcg_state res" where
  "event2_header_cb ty pcr st =
     (let st = st\<lparr>active_pcr := pcr\<rparr> in
      if ty = EV_NO_ACTION then Inr (st\<lparr>no_action_event_pending := True\<rparr>)
      else add_evlog (header2_text (fmt (cb_evl st)) ty pcr) st)"

text \<open>
  \<open>bytes_to_str\<close> stops two characters before the end of its buffer. The buffers of its callers
  are large enough: 2049 characters for a digest, \<open>2 * n + 1\<close> for a device path of n bytes, so
  the entries are written with \<open>hex_string\<close>.
\<close>

definition DIGEST_HEX_STRING_MAX :: nat where "DIGEST_HEX_STRING_MAX = 1024 * 2 + 1"

definition bytes_to_str :: "byte list \<Rightarrow> nat \<Rightarrow> nat \<Rightarrow> string res" where
  "bytes_to_str buf n dest_size =
     and_then (rd buf 0 (min n ((sub64 dest_size 2 + 1) div 2))) (\<lambda>b. Inr (hex_string b))"

lemma bytes_to_str_hex_string:
  assumes "length b < 2 ^ 62" and "2 * length b + 1 \<le> n" and "n < 2 ^ 64"
  shows "bytes_to_str b (length b) n = Inr (hex_string b)"
proof -
  have "length b \<le> (sub64 n 2 + 1) div 2"
    using assms by (cases "2 \<le> n") (auto simp: sub_small sub64_wraps)
  then show ?thesis by (simp add: bytes_to_str_def min_def)
qed

definition digest_text :: "format_t \<Rightarrow> nat \<Rightarrow> byte list \<Rightarrow> string" where
  \<open>digest_text f alg digest = (case f of
     FORMAT_JSON \<Rightarrow> tab @ ''"'' @ get_algo_str alg @ ''":"'' @ hex_string digest @ ''",'' @ nl
   | FORMAT_TEXT \<Rightarrow> tab @ get_algo_str alg @ '': '' @ hex_string digest @ nl)\<close>

definition event_digest_cb :: "digest \<Rightarrow> nat \<Rightarrow> byte list \<Rightarrow> tcg_state \<Rightarrow> tcg_state res" where
  "event_digest_cb H alg digest st =
     (if no_action_event_pending st then Inr (st\<lparr>no_action_event_pending := False\<rparr>)
      else
        and_then (add_evlog (digest_text (fmt (cb_evl st)) alg digest) st) (\<lambda>st.
        and_then (check (\<not> active_pcr st \<ge> MAX_PCRS) (Fail 0)) (\<lambda>_.
        if alg = TPM2_ALG_SHA256 then
          and_then (hash_extend H EVP_sha256 (calc_pcrs st ! active_pcr st) digest 32) (\<lambda>v.
            Inr (st\<lparr>calc_pcrs := (calc_pcrs st)[active_pcr st := v]\<rparr>))
        else Inr st)))"

section \<open>The callbacks for event data\<close>

text \<open>\<open>ev\<close> is the offset of the event data in the memory and \<open>len\<close> its length.\<close>

definition event_uefi_var :: "nat \<Rightarrow> nat \<Rightarrow> tcg_state \<Rightarrow> tcg_state res" where
  "event_uefi_var ev len st =
     and_then (check (\<not> len < 32) (Fail 0)) (\<lambda>_.
     and_then (rd (mem st) ev 16) (\<lambda>g.
       add_evlog (description_text (fmt (cb_evl st)) (''Variable '' @ guid_text (guid_of_bytes g))) st))"

text \<open>
  Tabs are replaced by spaces in the memory, up to the first zero byte, wherever that is.
\<close>

definition replace_tabs :: "byte list \<Rightarrow> nat \<Rightarrow> byte list res" where
  "replace_tabs m ev =
     (if 0 \<in> set (drop ev m) then
        let s = cstr (drop ev m) in
        Inr (take ev m @ map (\<lambda>b. if b = 0x09 then 0x20 else b) s @ drop (ev + length s) m)
      else Inl OutOfBounds)"

function ipl_lines :: "byte list \<Rightarrow> byte list list" where
  "ipl_lines d = (if d = [] then []
     else let s = takeWhile (\<lambda>b. b \<noteq> 0x0A \<and> b \<noteq> 0) d in s # ipl_lines (drop (length s + 1) d))"
  by pat_completeness auto
termination by (relation "measure length") auto

declare ipl_lines.simps [simp del]

definition event_ipl :: "nat \<Rightarrow> nat \<Rightarrow> tcg_state \<Rightarrow> tcg_state res" where
  \<open>event_ipl ev len st =
     and_then (add_evlog (case fmt (cb_evl st) of FORMAT_JSON \<Rightarrow> tab @ ''"description":"''
                          | FORMAT_TEXT \<Rightarrow> tab @ ''description: '') st) (\<lambda>st.
     and_then (replace_tabs (mem st) ev) (\<lambda>m.
     let st = st\<lparr>mem := m\<rparr> in
     and_then (rd m ev len) (\<lambda>d.
     and_then (fold_res (\<lambda>line. add_evlog (chars line)) (ipl_lines d) st) (\<lambda>st.
       case fmt (cb_evl st) of FORMAT_JSON \<Rightarrow> add_evlog (''"'' @ nl @ ''},'' @ nl) st
       | FORMAT_TEXT \<Rightarrow> Inr st))))\<close>

definition blob_text :: "byte list \<Rightarrow> string" where
  "blob_text d = ''BlobBase: 0x'' @ hex (g64 d 0) @ '';  BlobLength: 0x'' @ hex (g64 d 8)"

definition event_uefi_platfwblob :: "nat \<Rightarrow> tcg_state \<Rightarrow> tcg_state res" where
  "event_uefi_platfwblob ev st =
     and_then (rd (mem st) ev 16) (\<lambda>d. add_evlog_description (blob_text d) st)"

definition event_uefi_image_load :: "nat \<Rightarrow> nat \<Rightarrow> tcg_state \<Rightarrow> tcg_state res" where
  "event_uefi_image_load ev len st =
     and_then (rd (mem st) ev 32) (\<lambda>d.
     and_then (rd (mem st) (ev + 32) (sub64 len 32)) (\<lambda>path.
       add_evlog_description
         (''ImageLocationInMemory: 0x'' @ hex (g64 d 0) @ ''; '' @ ''ImageLengthInMemory: '' @ dec (g64 d 8) @ ''; ''
          @ ''ImageLinkTimeAddress: 0x'' @ hex (g64 d 16) @ ''; '' @ ''LengthOfDevicePath: '' @ dec (g64 d 24) @ ''; ''
          @ ''DevicePath: '' @ hex_string path) st))"

text \<open>\<open>%.*s\<close>: the text of at most \<open>len\<close> bytes.\<close>

definition event_uefi_action :: "nat \<Rightarrow> nat \<Rightarrow> tcg_state \<Rightarrow> tcg_state res" where
  "event_uefi_action ev len st =
     and_then (rd (mem st) ev len) (\<lambda>d. add_evlog_description (chars (cstr d)) st)"

definition event_uefi_post_code :: "nat \<Rightarrow> nat \<Rightarrow> tcg_state \<Rightarrow> tcg_state res" where
  "event_uefi_post_code ev len st =
     (if len = 16 then and_then (rd (mem st) ev 16) (\<lambda>d. add_evlog_description (blob_text d) st)
      else and_then (rd (mem st) ev len) (\<lambda>d. add_evlog_description (chars (cstr d)) st))"

definition event_gpt :: "nat \<Rightarrow> nat \<Rightarrow> tcg_state \<Rightarrow> tcg_state res" where
  "event_gpt ev len st =
     and_then (check (\<not> len < 100) (Fail 0)) (\<lambda>_.
     and_then (rd (mem st) ev 100) (\<lambda>d.
       add_evlog_description
         (''Signature: '' @ chars (cstr (take 8 d)) @ '', Revision: 0x'' @ hex (g32 d 8)
          @ '', HeaderSize: '' @ dec (g32 d 12) @ '', HeaderCRC32: 0x'' @ hex (g32 d 16)
          @ '', MyLBA: 0x'' @ hex (g64 d 24) @ '', AlternateLBA: 0x'' @ hex (g64 d 32)
          @ '', FirstUsableLBA: 0x'' @ hex (g64 d 40) @ '', LastUsableLBA: 0x'' @ hex (g64 d 48)
          @ '', DiskGUID: '' @ guid_text (guid_of_bytes (take 16 (drop 56 d)))
          @ '', PartitionEntryLBA: 0x'' @ hex (g64 d 72) @ '', NumberOfPartitionEntry: '' @ dec (g32 d 80)
          @ '', SizeOfPartitionEntry: '' @ dec (g32 d 84) @ '', PartitionEntryArrayCRC32: 0x'' @ hex (g32 d 88)
          @ '', NumberOfPartitions: '' @ dec (g64 d 92) @ '','') st))"

definition event_data_cb :: "nat \<Rightarrow> nat \<Rightarrow> nat \<Rightarrow> tcg_state \<Rightarrow> tcg_state res" where
  "event_data_cb ty ev len st =
     (if len = 0 then Inr st
      else if ty = EV_EFI_VARIABLE_DRIVER_CONFIG \<or> ty = EV_EFI_VARIABLE_BOOT \<or> ty = EV_EFI_VARIABLE_AUTHORITY
        then event_uefi_var ev len st
      else if ty = EV_POST_CODE then event_uefi_post_code ev len st
      else if ty = EV_S_CRTM_CONTENTS \<or> ty = EV_EFI_PLATFORM_FIRMWARE_BLOB then event_uefi_platfwblob ev st
      else if ty = EV_EFI_ACTION then event_uefi_action ev len st
      else if ty = EV_IPL then event_ipl ev len st
      else if ty = EV_EFI_BOOT_SERVICES_APPLICATION \<or> ty = EV_EFI_BOOT_SERVICES_DRIVER
          \<or> ty = EV_EFI_RUNTIME_SERVICES_DRIVER
        then event_uefi_image_load ev len st
      else if ty = EV_EFI_GPT_EVENT then event_gpt ev len st
      else if ty = EV_NO_ACTION then Inr st
      else add_evlog_description [] st)"

end
