(* ===== verification/TcgLog.thy ===== *)
theory TcgLog
  imports EventCb
begin

text \<open>
  The parser of the binary TCG boot log: \<^verbatim>\<open>src/parse-srtm-pcrs/thirdparty/tpm2-tools/tpm2_eventlog.c\<close>
  with the callbacks of \<^verbatim>\<open>eventcb.c\<close>, and the reading of the log in \<^verbatim>\<open>src/parse-srtm-pcrs/main.c\<close>. A log
  is a crypto-agile log, which starts with a specification event, or an old SHA-1 log.
  Positions in the log are offsets in the memory, which is the contents of the file and the
  rest of the last chunk allocated for it.
\<close>

section \<open>Digests of an event\<close>

definition get_hash_size :: "nat \<Rightarrow> nat" where
  "get_hash_size alg =
     (if alg = TPM2_ALG_SHA1 then 20 else if alg = TPM2_ALG_SHA256 then 32
      else if alg = TPM2_ALG_SHA384 then 48 else if alg = TPM2_ALG_SHA512 then 64
      else if alg = TPM2_ALG_SM3_256 then 32 else 0)"

fun digest_loop ::
  "(nat \<Rightarrow> byte list \<Rightarrow> 's \<Rightarrow> 's res) \<Rightarrow> byte list \<Rightarrow> nat \<Rightarrow> nat \<Rightarrow> nat \<Rightarrow> 's \<Rightarrow> 's res" where
  "digest_loop cb m off 0 len s = Inr s"
| "digest_loop cb m off (Suc n) len s =
     and_then (check (\<not> len < 2) (Fail 0)) (\<lambda>_.
     and_then (rd16 m off) (\<lambda>alg.
     let alg_size = get_hash_size alg in
     and_then (check (\<not> len < 2 + alg_size) (Fail 0)) (\<lambda>_.
     and_then (rd m (off + 2) alg_size) (\<lambda>d.
     and_then (cb alg d s) (\<lambda>s.
       digest_loop cb m (off + 2 + alg_size) n (len - (2 + alg_size)) s)))))"

definition TPM2_MAX_PCRS :: nat where "TPM2_MAX_PCRS = 32"

definition foreach_digest2 ::
  "(nat \<Rightarrow> byte list \<Rightarrow> 's \<Rightarrow> 's res) \<Rightarrow> byte list \<Rightarrow> nat \<Rightarrow> nat \<Rightarrow> nat \<Rightarrow> nat \<Rightarrow> 's \<Rightarrow> 's res" where
  "foreach_digest2 cb m pcr_index off count len s =
     and_then (check (\<not> pcr_index > TPM2_MAX_PCRS - 1) (Fail 0)) (\<lambda>_. digest_loop cb m off count len s)"

definition digest2_accumulator_callback :: "nat \<Rightarrow> byte list \<Rightarrow> nat \<Rightarrow> nat res" where
  "digest2_accumulator_callback alg d acc = Inr (acc + 2 + length d)"

section \<open>Events\<close>

text \<open>The sizes of an event and of its digests.\<close>

definition parse_event2 :: "byte list \<Rightarrow> nat \<Rightarrow> nat \<Rightarrow> (nat \<times> nat) res" where
  "parse_event2 m off buf_size =
     and_then (check (\<not> buf_size < 12) (Fail 0)) (\<lambda>_.
     and_then (rd32 m off) (\<lambda>pcr.
     and_then (rd32 m (off + 8)) (\<lambda>count.
     and_then (foreach_digest2 digest2_accumulator_callback m pcr (off + 12) count (buf_size - 12) 0) (\<lambda>digests_size.
     let event_size = 12 + digests_size in
     and_then (check (\<not> buf_size < event_size + 4) (Fail 0)) (\<lambda>_.
     and_then (rd32 m (off + event_size)) (\<lambda>EventSize.
     let event_size = event_size + 4 in
     and_then (check (\<not> buf_size < event_size + EventSize) (Fail 0)) (\<lambda>_.
       Inr (event_size + EventSize, digests_size))))))))"

definition parse_event2body :: "byte list \<Rightarrow> nat \<Rightarrow> nat \<Rightarrow> nat \<Rightarrow> unit res" where
  "parse_event2body m ty ev EventSize =
     (if ty = EV_EFI_VARIABLE_DRIVER_CONFIG \<or> ty = EV_EFI_VARIABLE_BOOT \<or> ty = EV_EFI_VARIABLE_AUTHORITY then
        and_then (check (\<not> EventSize < 32) (Fail 0)) (\<lambda>_.
        and_then (rd64 m (ev + 16)) (\<lambda>UnicodeNameLength.
        and_then (rd64 m (ev + 24)) (\<lambda>VariableDataLength.
          check (\<not> EventSize < u64 (32 + UnicodeNameLength * 2 + VariableDataLength)) (Fail 0))))
      else if ty = EV_S_CRTM_CONTENTS \<or> ty = EV_EFI_PLATFORM_FIRMWARE_BLOB then
        check (\<not> EventSize < 16) (Fail 0)
      else if ty = EV_EFI_BOOT_SERVICES_APPLICATION \<or> ty = EV_EFI_BOOT_SERVICES_DRIVER
          \<or> ty = EV_EFI_RUNTIME_SERVICES_DRIVER then
        check (\<not> EventSize < 32) (Fail 0)
      else Inr ())"

record loop_vars =
  found_hcrtm :: bool
  pcr_occurence_vector :: "32 word"
  locality :: nat

definition STARTUP_LOCALITY_SIGNATURE :: "byte list" where
  "STARTUP_LOCALITY_SIGNATURE = bytes_of ''StartupLocality'' @ [0]"

definition set_locality :: "nat \<Rightarrow> tcg_state \<Rightarrow> tcg_state" where
  "set_locality l st = st\<lparr>calc_pcrs := (calc_pcrs st)[0 := (calc_pcrs st ! 0)[31 := of_nat l]]\<rparr>"

definition startup_locality ::
  "nat \<Rightarrow> nat \<Rightarrow> nat \<Rightarrow> nat \<Rightarrow> loop_vars \<Rightarrow> tcg_state \<Rightarrow> (loop_vars \<times> tcg_state) res" where
  "startup_locality ty pcr event_size ev v st =
     (let (v, st) = (if ty = EV_EFI_HCRTM_EVENT \<and> pcr = 0
          then (v\<lparr>found_hcrtm := True, locality := 4\<rparr>, set_locality 4 st) else (v, st)) in
      if \<not> found_hcrtm v \<and> ty = EV_NO_ACTION \<and> pcr = 0 then
        and_then (check (\<not> event_size < 17) (Fail 0)) (\<lambda>_.
        and_then (rd (mem st) ev 16) (\<lambda>signature.
        if signature = STARTUP_LOCALITY_SIGNATURE then
          and_then (rd8 (mem st) (ev + 16)) (\<lambda>l. Inr (v\<lparr>locality := l\<rparr>, set_locality l st))
        else Inr (v, st)))
      else Inr (v, st))"

definition first_occurrence :: "nat \<Rightarrow> loop_vars \<Rightarrow> tcg_state \<Rightarrow> (loop_vars \<times> tcg_state) res" where
  "first_occurrence pcr v st =
     (if pcr_occurence_vector v AND push_bit pcr 1 = 0 then
        let v = v\<lparr>pcr_occurence_vector := pcr_occurence_vector v OR push_bit pcr 1,
                  locality := if pcr \<noteq> 0 then 0 else locality v\<rparr> in
        and_then (event_initval_cb (locality v) pcr st) (\<lambda>st. Inr (v, st))
      else Inr (v, st))"

text \<open>The body of the loop over the events; it returns the size of the event.\<close>

definition event2_body :: "digest \<Rightarrow> nat \<Rightarrow> nat \<Rightarrow> loop_vars \<Rightarrow> tcg_state \<Rightarrow> (nat \<times> loop_vars \<times> tcg_state) res" where
  "event2_body H off len v st =
     and_then (parse_event2 (mem st) off len) (\<lambda>(event_size, digests_size).
     and_then (rd32 (mem st) off) (\<lambda>pcr.
     and_then (rd32 (mem st) (off + 4)) (\<lambda>ty.
     and_then (rd32 (mem st) (off + 8)) (\<lambda>count.
     and_then (rd32 (mem st) (off + 12 + digests_size)) (\<lambda>EventSize.
     let ev = off + 16 + digests_size in
     and_then (startup_locality ty pcr event_size ev v st) (\<lambda>(v, st).
     and_then (first_occurrence pcr v st) (\<lambda>(v, st).
     and_then (event2_header_cb ty pcr st) (\<lambda>st.
     and_then (foreach_digest2 (event_digest_cb H) (mem st) pcr (off + 12) count digests_size st) (\<lambda>st.
     and_then (parse_event2body (mem st) ty ev EventSize) (\<lambda>_.
     and_then (event_data_cb ty ev EventSize st) (\<lambda>st.
       Inr (event_size, v, st))))))))))))"

lemma parse_event2_size: "parse_event2 m off n = Inr (es, ds) \<Longrightarrow> 16 + ds \<le> es \<and> es \<le> n"
  by (auto simp: parse_event2_def Let_def res_simps check_def split: if_splits)

lemma event2_body_size: "event2_body H off n v st = Inr (es, v', st') \<Longrightarrow> 16 \<le> es \<and> es \<le> n"
  by (auto simp: event2_body_def Let_def res_simps split: prod.splits dest!: parse_event2_size)

function foreach_event2 :: "digest \<Rightarrow> nat \<Rightarrow> nat \<Rightarrow> loop_vars \<Rightarrow> tcg_state \<Rightarrow> tcg_state res" where
  "foreach_event2 H off len v st =
     (if len = 0 then Inr st
      else and_then (event2_body H off len v st) (\<lambda>(event_size, v, st).
        foreach_event2 H (off + event_size) (len - event_size) v st))"
  by pat_completeness auto
termination
  by (relation "measure (\<lambda>(H, off, len, v, st). len)") (auto dest!: event2_body_size)

declare foreach_event2.simps [simp del]

section \<open>SHA-1 logs\<close>

text \<open>The size of an event of the old format: pcr, type, digest, size and data.\<close>

definition parse_sha1_log_event :: "byte list \<Rightarrow> nat \<Rightarrow> nat \<Rightarrow> nat res" where
  "parse_sha1_log_event m off len =
     and_then (check (\<not> len < 32) (Fail 0)) (\<lambda>_.
     and_then (rd32 m (off + 28)) (\<lambda>eventDataSize.
     and_then (check (\<not> len < 32 + eventDataSize) (Fail 0)) (\<lambda>_. Inr (32 + eventDataSize))))"

definition sha1_body :: "nat \<Rightarrow> nat \<Rightarrow> tcg_state \<Rightarrow> (nat \<times> tcg_state) res" where
  "sha1_body off len st =
     and_then (parse_sha1_log_event (mem st) off len) (\<lambda>event_size.
     and_then (rd32 (mem st) off) (\<lambda>pcr.
     and_then (rd32 (mem st) (off + 4)) (\<lambda>ty.
     and_then (rd (mem st) (off + 8) 20) (\<lambda>d.
     and_then (event_header_cb ty pcr d st) (\<lambda>st.
     and_then (parse_event2body (mem st) ty (off + 32) (event_size - 32)) (\<lambda>_.
     and_then (event_data_cb ty (off + 32) (event_size - 32) st) (\<lambda>st.
       Inr (event_size, st))))))))"

lemma sha1_body_size: "sha1_body off n st = Inr (es, st') \<Longrightarrow> 32 \<le> es \<and> es \<le> n"
  by (auto simp: sha1_body_def parse_sha1_log_event_def Let_def res_simps check_def split: if_splits)

function foreach_sha1_log_event :: "nat \<Rightarrow> nat \<Rightarrow> tcg_state \<Rightarrow> tcg_state res" where
  "foreach_sha1_log_event off len st =
     (if len = 0 then Inr st
      else and_then (sha1_body off len st) (\<lambda>(event_size, st).
        foreach_sha1_log_event (off + event_size) (len - event_size) st))"
  by pat_completeness auto
termination by (relation "measure (\<lambda>(off, len, st). len)") (auto dest!: sha1_body_size)

declare foreach_sha1_log_event.simps [simp del]

section \<open>The log\<close>

text \<open>The specification event; the offset of the first event after it.\<close>

definition specid_event :: "byte list \<Rightarrow> nat \<Rightarrow> nat res" where
  "specid_event m len =
     and_then (check (\<not> len < 32) (Fail 0)) (\<lambda>_.
     and_then (rd32 m 4) (\<lambda>ty.
     and_then (check (ty = EV_NO_ACTION) (Fail 0)) (\<lambda>_.
     and_then (rd32 m 0) (\<lambda>pcr.
     and_then (check (pcr = 0) (Fail 0)) (\<lambda>_.
     and_then (rd m 8 20) (\<lambda>d.
     and_then (check (list_all (\<lambda>b. b = 0) d) (Fail 0)) (\<lambda>_.
     and_then (rd32 m 28) (\<lambda>eventDataSize.
     and_then (check (\<not> eventDataSize < 28) (Fail 0)) (\<lambda>_.
     and_then (check (\<not> len < 32 + eventDataSize) (Fail 0)) (\<lambda>_.
     and_then (rd32 m 56) (\<lambda>numberOfAlgorithms.
     and_then (check (numberOfAlgorithms \<noteq> 0) (Fail 0)) (\<lambda>_.
     let algs = 60 + 4 * numberOfAlgorithms in
     and_then (check (\<not> len < algs) (Fail 0)) (\<lambda>_.
     and_then (check (\<not> len < algs + 1) (Fail 0)) (\<lambda>_.
     and_then (rd8 m algs) (\<lambda>vendorInfoSize.
     and_then (check (\<not> len < algs + 1 + vendorInfoSize) (Fail 0)) (\<lambda>_.
       Inr (algs + 1 + vendorInfoSize)))))))))))))))))"

definition parse_eventlog :: "digest \<Rightarrow> nat \<Rightarrow> tcg_state \<Rightarrow> tcg_state res" where
  "parse_eventlog H len st =
     and_then (check (\<not> len < 32) (Fail 0)) (\<lambda>_.
     and_then (rd32 (mem st) 4) (\<lambda>ty.
     if ty = EV_NO_ACTION then
       and_then (specid_event (mem st) len) (\<lambda>next.
       and_then (rd32 (mem st) 0) (\<lambda>pcr.
       and_then (rd (mem st) 8 20) (\<lambda>d.
       and_then (event_specid_cb ty pcr d st) (\<lambda>st.
         foreach_event2 H next (len - next) \<lparr>found_hcrtm = False, pcr_occurence_vector = 0, locality = 0\<rparr> st))))
     else foreach_sha1_log_event 0 len st))"

text \<open>
  Reading the file: chunks are read until one is short. The memory ends with the rest of the
  last chunk, which is zero for the first allocation and indeterminate (\<open>slack\<close>) after that.
\<close>

definition CHUNK_SIZE :: nat where "CHUNK_SIZE = 16384"

definition read_file_chunk :: "byte list \<Rightarrow> byte list \<times> byte list" where
  "read_file_chunk f = (take CHUNK_SIZE f, drop CHUNK_SIZE f)"

function read_log :: "(nat \<Rightarrow> byte) \<Rightarrow> byte list \<Rightarrow> byte list \<Rightarrow> byte list \<times> nat" where
  "read_log slack buf f =
     (let (chunk, rest) = read_file_chunk f; buf' = buf @ chunk in
      if length chunk = CHUNK_SIZE then read_log slack buf' rest
      else (buf' @ map (\<lambda>i. if buf = [] then 0 else slack i) [length chunk..<CHUNK_SIZE], length buf'))"
  by pat_completeness auto
termination
  by (relation "measure (\<lambda>(s, buf, f). length f)") (auto simp: read_file_chunk_def CHUNK_SIZE_def)

declare read_log.simps [simp del]

text \<open>\<open>tpm_parse_eventlog\<close>: every failure is the code -1.\<close>

definition tpm_parse_eventlog ::
  "digest \<Rightarrow> (nat \<Rightarrow> byte) \<Rightarrow> filesys \<Rightarrow> string \<Rightarrow> tcg_state \<Rightarrow> tcg_state res" where
  "tpm_parse_eventlog H slack fs filename st =
     (case fs filename of None \<Rightarrow> Inl (Fail (-1))
      | Some f \<Rightarrow> (case read_log slack [] f of (buf, len) \<Rightarrow>
          (case parse_eventlog H len (st\<lparr>mem := buf\<rparr>) of
             Inl (Fail n) \<Rightarrow> Inl (Fail (-1)) | r \<Rightarrow> r)))"

end
