(* ===== verification/TcgSpec.thy ===== *)
theory TcgSpec
  imports TcgLog
begin

text \<open>
  What the boot log parser computes: the serialisation of a crypto-agile log, the replay of
  its SHA-256 digests, and the cases in which the parser departs from it.
\<close>

section \<open>The serialised log\<close>

type_synonym tcg_digest = "nat \<times> byte list"
type_synonym tcg_event = "nat \<times> nat \<times> tcg_digest list \<times> byte list"

fun digest_bytes :: "tcg_digest \<Rightarrow> byte list" where
  "digest_bytes (alg, d) = to_le 2 alg @ d"

fun event_bytes :: "tcg_event \<Rightarrow> byte list" where
  "event_bytes (pcr, ty, ds, x) = to_le 4 pcr @ to_le 4 ty @ to_le 4 (length ds)
     @ concat (map digest_bytes ds) @ to_le 4 (length x) @ x"

fun digest_wf :: "tcg_digest \<Rightarrow> bool" where
  "digest_wf (alg, d) = (alg < 2 ^ 16 \<and> length d = get_hash_size alg)"

lemma rd_at_append:
  "length pre = off \<Longrightarrow> length xs = n \<Longrightarrow> rd (pre @ xs @ post) off n = Inr xs"
  by (simp add: rd_def)

lemma rdN_append:
  "\<lbrakk>length pre = off; v < 2 ^ 16\<rbrakk> \<Longrightarrow> rd16 (pre @ to_le 2 v @ post) off = Inr v"
  "\<lbrakk>length pre = off; v < 2 ^ 32\<rbrakk> \<Longrightarrow> rd32 (pre @ to_le 4 v @ post) off = Inr v"
  by (simp_all add: rd16_def rd32_def rd_at_append le_to_le_small del: to_le_literal to_le.simps)

lemma digest_loop_all:
  assumes "list_all digest_wf ds" and "length (concat (map digest_bytes ds)) \<le> len" and "off = length pre"
  shows "digest_loop cb (pre @ concat (map digest_bytes ds) @ post) off (length ds) len s
    = fold_res (\<lambda>(alg, d). cb alg d) ds s"
  using assms
proof (induction ds arbitrary: pre off len s)
  case (Cons a ds)
  obtain alg d where a: "a = (alg, d)" by (cases a)
  have wf: "alg < 2 ^ 16" "length d = get_hash_size alg" and ds: "list_all digest_wf ds"
    using Cons.prems(1) by (simp_all add: a)
  have l: "2 + get_hash_size alg + length (concat (map digest_bytes ds)) \<le> len"
    using Cons.prems(2) wf by (simp add: a)
  let ?rest = "concat (map digest_bytes ds) @ post"
  have r1: "rd16 (pre @ to_le 2 alg @ d @ ?rest) off = Inr alg"
    using Cons.prems(3) wf(1) by (intro rdN_append) simp_all
  have r2: "rd (pre @ to_le 2 alg @ d @ ?rest) (off + 2) (get_hash_size alg) = Inr d"
    using rd_at_append [of "pre @ to_le 2 alg" "off + 2" d "get_hash_size alg" ?rest] Cons.prems(3) wf(2) by simp
  have IH: "digest_loop cb (pre @ to_le 2 alg @ d @ ?rest) (off + 2 + get_hash_size alg) (length ds)
      (len - (2 + get_hash_size alg)) = fold_res (\<lambda>(alg, d). cb alg d) ds"
    using Cons.IH [OF ds, of "len - (2 + get_hash_size alg)" "off + 2 + get_hash_size alg" "pre @ to_le 2 alg @ d"]
      l Cons.prems(3) wf(2) by (intro ext) simp
  show ?case using l by (simp add: a r1 r2 [simplified] IH [simplified] Let_def)
qed simp

lemma accumulate_digests:
  "fold_res (\<lambda>(alg, d). digest2_accumulator_callback alg d) ds acc = Inr (acc + length (concat (map digest_bytes ds)))"
  by (induction ds arbitrary: acc) (auto simp: digest2_accumulator_callback_def)

lemma foreach_digest2_all:
  assumes "pcr < 32" and "list_all digest_wf ds" and "length (concat (map digest_bytes ds)) \<le> len"
    and "m = pre @ concat (map digest_bytes ds) @ post" and "off = length pre"
  shows "foreach_digest2 cb m pcr off (length ds) len s = fold_res (\<lambda>(alg, d). cb alg d) ds s"
  using assms by (simp add: foreach_digest2_def TPM2_MAX_PCRS_def digest_loop_all)

text \<open>An event with a header, digests and data that fit their fields.\<close>

definition event_wf :: "tcg_event \<Rightarrow> bool" where
  "event_wf e = (case e of (pcr, ty, ds, x) \<Rightarrow>
     pcr < 24 \<and> ty < 2 ^ 32 \<and> length ds < 2 ^ 32 \<and> list_all digest_wf ds \<and> length x < 2 ^ 32)"

lemma event_reads:
  assumes "event_wf (pcr, ty, ds, x)" and "m = pre @ event_bytes (pcr, ty, ds, x) @ post" and "off = length pre"
    and "n = length (concat (map digest_bytes ds))"
  shows "rd32 m off = Inr pcr" "rd32 m (off + 4) = Inr ty" "rd32 m (off + 8) = Inr (length ds)"
    "rd32 m (off + 12 + n) = Inr (length x)"
  using rdN_append(2) [of pre off pcr] rdN_append(2) [of "pre @ to_le 4 pcr" "off + 4" ty]
    rdN_append(2) [of "pre @ to_le 4 pcr @ to_le 4 ty" "off + 8" "length ds"]
    rdN_append(2) [of "pre @ to_le 4 pcr @ to_le 4 ty @ to_le 4 (length ds) @ concat (map digest_bytes ds)"
      "off + 12 + n" "length x"] assms
  by (simp_all add: event_wf_def del: to_le_literal to_le.simps)

lemma parse_event2_wf:
  assumes wf: "event_wf (pcr, ty, ds, x)" and m: "m = pre @ event_bytes (pcr, ty, ds, x) @ post" and off: "off = length pre"
    and len: "length (event_bytes (pcr, ty, ds, x)) \<le> len"
  shows "parse_event2 m off len = Inr (length (event_bytes (pcr, ty, ds, x)), length (concat (map digest_bytes ds)))"
proof -
  let ?n = "length (concat (map digest_bytes ds))"
  have l: "12 + ?n + 4 + length x \<le> len" using len by simp
  have d: "foreach_digest2 cb m pcr (off + 12) (length ds) (len - 12) s = fold_res (\<lambda>(alg, d). cb alg d) ds s"
    for cb :: "nat \<Rightarrow> byte list \<Rightarrow> nat \<Rightarrow> nat res" and s
    using wf l by (intro foreach_digest2_all [where pre = "pre @ to_le 4 pcr @ to_le 4 ty @ to_le 4 (length ds)"
          and post = "to_le 4 (length x) @ x @ post"])
      (simp_all add: event_wf_def m off del: to_le_literal to_le.simps)
  show ?thesis
    using l by (simp add: parse_event2_def event_reads [OF wf m off refl]
          event_reads(4) [OF wf m off refl, unfolded add.assoc] d accumulate_digests Let_def add.assoc
        del: to_le_literal to_le.simps)
qed

section \<open>The callbacks only append to the log\<close>

definition tcg_wf :: "tcg_state \<Rightarrow> bool" where
  "tcg_wf st \<longleftrightarrow> srtm_wf (cb_evl st) \<and> (\<forall>n\<in>set (pcr_nums st). n < MAX_PCRS)
     \<and> length (calc_pcrs st) = MAX_PCRS \<and> (\<forall>v\<in>set (calc_pcrs st). length v = 32)"

definition logged :: "tcg_state res \<Rightarrow> tcg_state \<Rightarrow> bool" where
  "logged r st \<longleftrightarrow> (\<exists>evl. r = Inr (st\<lparr>cb_evl := evl\<rparr>) \<and> srtm_wf evl)"

lemma tcg_wf_evl [simp]: "tcg_wf st \<Longrightarrow> srtm_wf evl \<Longrightarrow> tcg_wf (st\<lparr>cb_evl := evl\<rparr>)"
  by (simp add: tcg_wf_def)

lemma add_evlog_logged [intro]: "tcg_wf st \<Longrightarrow> logged (add_evlog t st) st"
proof -
  assume wf: "tcg_wf st"
  show ?thesis
  proof (cases "active_pcr st \<in> set (pcr_nums st)")
    case True
    then have "active_pcr st < length (log (cb_evl st))" using wf by (auto simp: tcg_wf_def srtm_wf_def)
    then obtain evl where e: "append_slot (cb_evl st) (active_pcr st) (snprintf 4096 t) = Inr evl"
      using append_slot_total by blast
    then have "srtm_wf evl" using append_slot_shape [OF e] wf by (simp add: tcg_wf_def srtm_wf_def)
    then show ?thesis using True e by (auto simp: logged_def add_evlog_def mystrcat_def)
  next
    case False
    then show ?thesis using wf by (auto simp: logged_def add_evlog_def tcg_wf_def intro!: exI [of _ "cb_evl st"])
  qed
qed

lemma logged_then:
  "\<lbrakk>logged r st; \<And>evl. srtm_wf evl \<Longrightarrow> logged (f (st\<lparr>cb_evl := evl\<rparr>)) (st\<lparr>cb_evl := evl\<rparr>)\<rbrakk> \<Longrightarrow> logged (and_then r f) st"
  by (fastforce simp: logged_def)

lemma add_evlog_lines:
  "tcg_wf st \<Longrightarrow> logged (fold_res (\<lambda>line. add_evlog (chars line)) ls st) st"
proof (induction ls arbitrary: st)
  case Nil
  then show ?case by (auto simp: logged_def tcg_wf_def intro!: exI [of _ "cb_evl st"])
next
  case (Cons l ls)
  then show ?case by (auto intro!: logged_then)
qed

text \<open>The data that the callbacks accept, by the kind of the event.\<close>

definition is_variable :: "nat \<Rightarrow> bool" where
  "is_variable ty \<longleftrightarrow> ty = EV_EFI_VARIABLE_DRIVER_CONFIG \<or> ty = EV_EFI_VARIABLE_BOOT \<or> ty = EV_EFI_VARIABLE_AUTHORITY"

definition is_blob :: "nat \<Rightarrow> bool" where
  "is_blob ty \<longleftrightarrow> ty = EV_S_CRTM_CONTENTS \<or> ty = EV_EFI_PLATFORM_FIRMWARE_BLOB"

definition is_image :: "nat \<Rightarrow> bool" where
  "is_image ty \<longleftrightarrow> ty = EV_EFI_BOOT_SERVICES_APPLICATION \<or> ty = EV_EFI_BOOT_SERVICES_DRIVER
     \<or> ty = EV_EFI_RUNTIME_SERVICES_DRIVER"

lemmas kind_folds = is_variable_def [symmetric] is_blob_def [symmetric] is_image_def [symmetric]

definition data_ok :: "nat \<Rightarrow> byte list \<Rightarrow> bool" where
  "data_ok ty x \<longleftrightarrow>
     (is_variable ty \<longrightarrow> 32 \<le> length x \<and> u64 (32 + g64 x 16 * 2 + g64 x 24) \<le> length x)
     \<and> (is_blob ty \<longrightarrow> 16 \<le> length x) \<and> (is_image ty \<longrightarrow> 32 \<le> length x)
     \<and> (ty = EV_EFI_GPT_EVENT \<longrightarrow> x = [] \<or> 100 \<le> length x)
     \<and> (ty = EV_IPL \<longrightarrow> x = [] \<or> 0 \<in> set x)"

lemma rd_inner:
  "\<lbrakk>m = pre @ x @ post; ev = length pre; k + n \<le> length x\<rbrakk> \<Longrightarrow> rd m (ev + k) n = Inr (take n (drop k x))"
  by (simp add: rd_def)

lemma rd64_inner:
  "\<lbrakk>m = pre @ x @ post; ev = length pre; k + 8 \<le> length x\<rbrakk> \<Longrightarrow> rd64 m (ev + k) = Inr (g64 x k)"
  by (simp add: rd64_def rd_inner g64_def)

lemma parse_event2body_ok:
  assumes "data_ok ty x" and m: "m = pre @ x @ post" "ev = length pre"
  shows "parse_event2body m ty ev (length x) = Inr ()"
proof -
  have "rd64 m (ev + 16) = Inr (g64 x 16)" "rd64 m (ev + 24) = Inr (g64 x 24)" if "32 \<le> length x"
    using that by (simp_all add: rd64_inner [OF m])
  then show ?thesis
    using assms(1) unfolding parse_event2body_def data_ok_def kind_folds by (auto simp: check_def)
qed

text \<open>Only the description of an \<open>EV_IPL\<close> event changes the memory.\<close>

definition data_step :: "tcg_state res \<Rightarrow> nat \<Rightarrow> nat \<Rightarrow> tcg_state \<Rightarrow> bool" where
  "data_step r ev n st \<longleftrightarrow> (\<exists>evl x. r = Inr (st\<lparr>cb_evl := evl, mem := take ev (mem st) @ x @ drop (ev + n) (mem st)\<rparr>)
     \<and> srtm_wf evl \<and> length x = n)"

lemma logged_data_step:
  "\<lbrakk>logged r st; ev + n \<le> length (mem st)\<rbrakk> \<Longrightarrow> data_step r ev n st"
proof -
  assume "logged r st" and l: "ev + n \<le> length (mem st)"
  then obtain evl where r: "r = Inr (st\<lparr>cb_evl := evl\<rparr>)" "srtm_wf evl" by (auto simp: logged_def)
  have "take ev (mem st) @ take n (drop ev (mem st)) @ drop (ev + n) (mem st) = mem st"
    by (metis append_assoc append_take_drop_id take_add)
  then show ?thesis
    unfolding data_step_def using r l
    by (intro exI [of _ evl] exI [of _ "take n (drop ev (mem st))"]) simp
qed

lemma replace_tabs_inner:
  assumes "0 \<in> set x" and m: "m = pre @ x @ post" "ev = length pre"
  shows "\<exists>x'. replace_tabs m ev = Inr (pre @ x' @ post) \<and> length x' = length x"
proof -
  let ?f = "\<lambda>b :: byte. if b = 0x09 then 0x20 else b"
  let ?s = "takeWhile (\<lambda>b. b \<noteq> 0) x"
  have s: "cstr (drop ev m) = ?s" using assms by (auto simp: cstr_def takeWhile_append1)
  have l: "length ?s \<le> length x" by (rule length_takeWhile_le)
  have z: "0 \<in> set (drop ev m)" using assms by simp
  have "replace_tabs m ev = Inr (take ev m @ map ?f ?s @ drop (ev + length ?s) m)"
    unfolding replace_tabs_def s Let_def using z by simp
  then show ?thesis
    using m l by (intro exI [of _ "map ?f ?s @ drop (length ?s) x"]) simp
qed

lemma event_ipl_run:
  assumes wf: "tcg_wf st" and t: "replace_tabs (mem st) ev = Inr m'" and l: "ev + n \<le> length m'"
  shows "\<exists>evl. event_ipl ev n st = Inr (st\<lparr>cb_evl := evl, mem := m'\<rparr>) \<and> srtm_wf evl"
proof -
  let ?t = \<open>case fmt (cb_evl st) of FORMAT_JSON \<Rightarrow> tab @ ''"description":"'' | FORMAT_TEXT \<Rightarrow> tab @ ''description: ''\<close>
  obtain e1 where e1: "add_evlog ?t st = Inr (st\<lparr>cb_evl := e1\<rparr>)" "srtm_wf e1"
    using add_evlog_logged [OF wf] by (auto simp: logged_def)
  let ?st = "st\<lparr>cb_evl := e1, mem := m'\<rparr>"
  have wf': "tcg_wf ?st" using wf e1(2) by (simp add: tcg_wf_def)
  have r: "rd m' ev n = Inr (take n (drop ev m'))" using l by simp
  obtain e2 where e2: "fold_res (\<lambda>line. add_evlog (chars line)) (ipl_lines (take n (drop ev m'))) ?st
      = Inr (?st\<lparr>cb_evl := e2\<rparr>)" "srtm_wf e2"
    using add_evlog_lines [OF wf'] by (auto simp: logged_def)
  have wf2: "tcg_wf (?st\<lparr>cb_evl := e2\<rparr>)" using wf' e2(2) by (rule tcg_wf_evl)
  have "logged (case fmt (cb_evl (?st\<lparr>cb_evl := e2\<rparr>)) of FORMAT_JSON \<Rightarrow> add_evlog t (?st\<lparr>cb_evl := e2\<rparr>)
      | FORMAT_TEXT \<Rightarrow> Inr (?st\<lparr>cb_evl := e2\<rparr>)) (?st\<lparr>cb_evl := e2\<rparr>)" for t
    using add_evlog_logged [OF wf2] e2(2) by (auto simp: logged_def split: format_t.split)
  then obtain e3 where e3: \<open>(case fmt (cb_evl (?st\<lparr>cb_evl := e2\<rparr>)) of FORMAT_JSON \<Rightarrow> add_evlog (''"'' @ nl @ ''},'' @ nl) (?st\<lparr>cb_evl := e2\<rparr>)
      | FORMAT_TEXT \<Rightarrow> Inr (?st\<lparr>cb_evl := e2\<rparr>)) = Inr (?st\<lparr>cb_evl := e2, cb_evl := e3\<rparr>)\<close> "srtm_wf e3"
    unfolding logged_def by blast
  have m1: "mem (st\<lparr>cb_evl := e1\<rparr>) = mem st" by simp
  have "event_ipl ev n st = Inr (?st\<lparr>cb_evl := e2, cb_evl := e3\<rparr>)"
    by (simp only: event_ipl_def e1(1) and_then_simps m1 t Let_def r e2(1) e3(1))
  then show ?thesis using e3(2) by (intro exI [of _ e3]) simp
qed

lemma event_ipl_step:
  assumes wf: "tcg_wf st" and x: "0 \<in> set x" and m: "mem st = pre @ x @ post" "ev = length pre"
  shows "data_step (event_ipl ev (length x) st) ev (length x) st"
proof -
  obtain x' where x': "replace_tabs (mem st) ev = Inr (pre @ x' @ post)" "length x' = length x"
    using replace_tabs_inner [OF x m] by blast
  obtain e where "event_ipl ev (length x) st = Inr (st\<lparr>cb_evl := e, mem := pre @ x' @ post\<rparr>)" "srtm_wf e"
    using event_ipl_run [OF wf x'(1), of "length x"] x'(2) m by auto
  then show ?thesis
    unfolding data_step_def using x'(2) m by (intro exI [of _ e] exI [of _ x']) simp
qed

lemma event_data_step:
  assumes wf: "tcg_wf st" and ok: "data_ok ty x" and m: "mem st = pre @ x @ post" "ev = length pre"
    and len: "length x < 2 ^ 32"
  shows "data_step (event_data_cb ty ev (length x) st) ev (length x) st"
proof (cases "x = []")
  case True
  have "logged (Inr st) st" using wf by (auto simp: logged_def tcg_wf_def intro!: exI [of _ "cb_evl st"])
  then show ?thesis using True m by (auto simp: event_data_cb_def intro!: logged_data_step)
next
  case False
  have r: "rd (mem st) (ev + k) n = Inr (take n (drop k x))" if "k + n \<le> length x" for k n
    by (rule rd_inner [OF m that])
  note r0 = r [of 0, simplified]
  have log: "data_step r ev (length x) st" if "logged r st" for r
    using that m by (intro logged_data_step) simp_all
  have desc: "logged (add_evlog_description t st) st" for t
    using add_evlog_logged [OF wf] by (simp add: add_evlog_description_def)
  have none: "logged (Inr st) st" using wf by (auto simp: logged_def tcg_wf_def intro!: exI [of _ "cb_evl st"])
  have c: "logged (event_uefi_var ev (length x) st) st" if "is_variable ty"
    using that ok r0 [of 16] add_evlog_logged [OF wf] by (simp add: event_uefi_var_def data_ok_def)
  have b: "logged (event_uefi_platfwblob ev st) st" if "is_blob ty"
    using that ok r0 [of 16] desc by (simp add: event_uefi_platfwblob_def data_ok_def)
  have p: "logged (event_uefi_post_code ev (length x) st) st"
    using r0 [of 16] r0 [of "length x"] desc by (simp add: event_uefi_post_code_def)
  have a: "logged (event_uefi_action ev (length x) st) st"
    using r0 [of "length x"] desc by (simp add: event_uefi_action_def)
  have i: "logged (event_uefi_image_load ev (length x) st) st" if "is_image ty"
    using that ok r0 [of 32] r [of 32 "length x - 32"] len desc
    by (simp add: event_uefi_image_load_def data_ok_def sub_small)
  have g: "logged (event_gpt ev (length x) st) st" if "ty = EV_EFI_GPT_EVENT"
    using that ok r0 [of 100] False desc by (simp add: event_gpt_def data_ok_def)
  have ipl: "data_step (event_ipl ev (length x) st) ev (length x) st" if "ty = EV_IPL"
    using that ok False by (intro event_ipl_step [OF wf _ m]) (simp add: data_ok_def)
  show ?thesis
    unfolding event_data_cb_def kind_folds
    using False by (auto simp: log c b p a i g ipl desc none)
qed

section \<open>The effect of an event\<close>

definition sha256_of :: "tcg_digest list \<Rightarrow> byte list list" where
  "sha256_of ds = map snd (filter (\<lambda>(alg, d). alg = TPM2_ALG_SHA256) ds)"

definition is_locality :: "tcg_event \<Rightarrow> bool" where
  "is_locality e = (case e of (pcr, ty, ds, x) \<Rightarrow>
     pcr = 0 \<and> ty = EV_NO_ACTION \<and> take 16 x = STARTUP_LOCALITY_SIGNATURE)"

definition locality_effect :: "tcg_event \<Rightarrow> byte list list \<Rightarrow> byte list list" where
  "locality_effect e pcrs = (case e of (pcr, ty, ds, x) \<Rightarrow>
     if is_locality e then pcrs[0 := (pcrs ! 0)[31 := x ! 16]] else pcrs)"

text \<open>Only the first digest of an informative event is skipped.\<close>

definition event_effect :: "digest \<Rightarrow> tcg_event \<Rightarrow> byte list list \<Rightarrow> byte list list" where
  "event_effect H e pcrs = (case e of (pcr, ty, ds, x) \<Rightarrow>
     (locality_effect e pcrs)[pcr := replay H EVP_sha256 (locality_effect e pcrs ! pcr)
        (sha256_of (if ty = EV_NO_ACTION then tl ds else ds))])"

text \<open>
  The events considered: an informative event (\<open>EV_NO_ACTION\<close>) has a digest and, for PCR 0,
  data of the size of a startup locality; there is no H-CRTM event of PCR 0.
\<close>

definition header_ok :: "tcg_event \<Rightarrow> bool" where
  "header_ok e \<longleftrightarrow> event_wf e \<and> (case e of (pcr, ty, ds, x) \<Rightarrow>
     (ty = EV_NO_ACTION \<longrightarrow> ds \<noteq> [] \<and> (pcr = 0 \<longrightarrow> 17 \<le> length x))
     \<and> (ty = EV_EFI_HCRTM_EVENT \<longrightarrow> pcr \<noteq> 0))"

definition event_ok :: "tcg_event \<Rightarrow> bool" where
  "event_ok e \<longleftrightarrow> header_ok e \<and> (case e of (pcr, ty, ds, x) \<Rightarrow> data_ok ty x)"

lemma tcg_wf_fields [simp]:
  "tcg_wf (st\<lparr>active_pcr := a\<rparr>) = tcg_wf st" "tcg_wf (st\<lparr>no_action_event_pending := b\<rparr>) = tcg_wf st"
  "tcg_wf (st\<lparr>mem := m\<rparr>) = tcg_wf st"
  by (simp_all add: tcg_wf_def)

lemma first_occurrence_step:
  assumes "tcg_wf st"
  shows "\<exists>v' evl a. first_occurrence pcr v st = Inr (v', st\<lparr>cb_evl := evl, active_pcr := a\<rparr>) \<and> srtm_wf evl
    \<and> found_hcrtm v' = found_hcrtm v"
proof (cases "pcr_occurence_vector v AND push_bit pcr 1 = 0")
  case True
  have "logged (event_initval_cb l pcr st) (st\<lparr>active_pcr := pcr\<rparr>)" for l
    unfolding event_initval_cb_def using assms by (intro add_evlog_logged) simp
  then obtain evl where "event_initval_cb (if pcr \<noteq> 0 then 0 else locality v) pcr st
      = Inr (st\<lparr>active_pcr := pcr, cb_evl := evl\<rparr>)" "srtm_wf evl"
    unfolding logged_def by blast
  then show ?thesis using True
    by (auto simp: first_occurrence_def Let_def intro!: exI [of _ evl] exI [of _ pcr])
next
  case False
  then have "first_occurrence pcr v st = Inr (v, st\<lparr>cb_evl := cb_evl st, active_pcr := active_pcr st\<rparr>)"
    by (simp add: first_occurrence_def)
  then show ?thesis using assms unfolding tcg_wf_def by blast
qed

lemma header_step:
  assumes "tcg_wf st" and "\<not> no_action_event_pending st"
  shows "\<exists>evl. event2_header_cb ty pcr st
    = Inr (st\<lparr>cb_evl := evl, active_pcr := pcr, no_action_event_pending := (ty = EV_NO_ACTION)\<rparr>) \<and> srtm_wf evl"
proof (cases "ty = EV_NO_ACTION")
  case True
  then show ?thesis
    using assms by (auto simp: event2_header_cb_def tcg_wf_def intro!: exI [of _ "cb_evl st"])
next
  case False
  have "logged (add_evlog (header2_text (fmt (cb_evl st)) ty pcr) (st\<lparr>active_pcr := pcr\<rparr>)) (st\<lparr>active_pcr := pcr\<rparr>)"
    using assms by (intro add_evlog_logged) simp
  then obtain evl where "add_evlog (header2_text (fmt (cb_evl st)) ty pcr) (st\<lparr>active_pcr := pcr\<rparr>)
      = Inr (st\<lparr>active_pcr := pcr, cb_evl := evl\<rparr>)" "srtm_wf evl"
    unfolding logged_def by blast
  then show ?thesis using False assms(2) by (auto simp: event2_header_cb_def Let_def intro!: exI [of _ evl])
qed

lemma digests_step:
  assumes H: "digest_ok H"
  shows "\<lbrakk>tcg_wf st; \<not> no_action_event_pending st; active_pcr st < MAX_PCRS; list_all digest_wf ds\<rbrakk> \<Longrightarrow>
    \<exists>evl. fold_res (\<lambda>(alg, d). event_digest_cb H alg d) ds st
      = Inr (st\<lparr>cb_evl := evl, calc_pcrs := (calc_pcrs st)[active_pcr st :=
          replay H EVP_sha256 (calc_pcrs st ! active_pcr st) (sha256_of ds)]\<rparr>) \<and> srtm_wf evl"
proof (induction ds arbitrary: st)
  case Nil
  then show ?case by (auto simp: sha256_of_def tcg_wf_def intro!: exI [of _ "cb_evl st"])
next
  case (Cons a ds)
  obtain alg d where a: "a = (alg, d)" by (cases a)
  let ?p = "active_pcr st"
  have pl: "?p < length (calc_pcrs st)" "length (calc_pcrs st ! ?p) = 32"
    using Cons.prems(1,3) by (auto simp: tcg_wf_def)
  obtain e1 where e1: "add_evlog (digest_text (fmt (cb_evl st)) alg d) st = Inr (st\<lparr>cb_evl := e1\<rparr>)" "srtm_wf e1"
    using add_evlog_logged [OF Cons.prems(1)] by (auto simp: logged_def)
  let ?v = "if alg = TPM2_ALG_SHA256 then Hash.extend H EVP_sha256 (calc_pcrs st ! ?p) d else calc_pcrs st ! ?p"
  let ?st = "st\<lparr>cb_evl := e1, calc_pcrs := (calc_pcrs st)[?p := ?v]\<rparr>"
  have ext: "hash_extend H EVP_sha256 (calc_pcrs st ! ?p) d 32 = Inr (Hash.extend H EVP_sha256 (calc_pcrs st ! ?p) d)"
    if "alg = TPM2_ALG_SHA256"
    using hash_extend_is_extend_aux [OF H, of "calc_pcrs st ! ?p" EVP_sha256 d] Cons.prems(4) pl(2) that
    by (simp add: a get_hash_size_def TPM2_ALG_SHA256_def TPM2_ALG_SHA1_def)
  have step: "event_digest_cb H alg d st = Inr ?st"
    using Cons.prems(2,3) e1(1) ext by (auto simp: event_digest_cb_def)
  have wf: "tcg_wf ?st"
    using Cons.prems(1) e1(2) H pl by (auto simp: tcg_wf_def dest: set_update_subset_insert [THEN subsetD])
  obtain e2 where "fold_res (\<lambda>(alg, d). event_digest_cb H alg d) ds ?st
      = Inr (?st\<lparr>cb_evl := e2, calc_pcrs := (calc_pcrs ?st)[?p := replay H EVP_sha256 (calc_pcrs ?st ! ?p) (sha256_of ds)]\<rparr>)"
    "srtm_wf e2"
    using Cons.IH [OF wf] Cons.prems(2-4) by auto
  then show ?case
    using pl step by (auto simp: a sha256_of_def intro!: exI [of _ e2])
qed

lemma startup_step:
  assumes wf: "tcg_wf st" and ok: "header_ok (pcr, ty, ds, x)" and v: "\<not> found_hcrtm v"
    and m: "mem st = pre @ x @ post" "ev = length pre" and es: "17 \<le> event_size \<or> ty \<noteq> EV_NO_ACTION"
  shows "\<exists>v'. startup_locality ty pcr event_size ev v st
      = Inr (v', st\<lparr>calc_pcrs := if is_locality (pcr, ty, ds, x)
          then (calc_pcrs st)[0 := (calc_pcrs st ! 0)[31 := x ! 16]] else calc_pcrs st\<rparr>) \<and> \<not> found_hcrtm v'"
proof (cases "ty = EV_NO_ACTION \<and> pcr = 0")
  case True
  then have l: "17 \<le> length x" and h: "ty \<noteq> EV_EFI_HCRTM_EVENT" using ok by (auto simp: header_ok_def event_type_defs)
  have r: "rd (mem st) ev 16 = Inr (take 16 x)" using rd_inner [OF m, of 0 16] l by simp
  have "take 1 (drop 16 x) = [x ! 16]" using l by (simp add: take_Suc_conv_app_nth Cons_nth_drop_Suc [symmetric])
  then have r1: "rd8 (mem st) (ev + 16) = Inr (unat (x ! 16))" using rd_inner [OF m, of 16 1] l by (simp add: rd8_def)
  show ?thesis
    using True h v es r r1 by (auto simp: startup_locality_def Let_def set_locality_def is_locality_def)
next
  case False
  then show ?thesis using v ok
    by (auto simp: startup_locality_def is_locality_def header_ok_def intro!: exI [of _ v])
qed

lemma tcg_wf_effect:
  assumes H: "digest_ok H" and wf: "tcg_wf st" and e: "event_wf e"
  shows "tcg_wf (st\<lparr>calc_pcrs := locality_effect e (calc_pcrs st)\<rparr>)"
    "tcg_wf (st\<lparr>calc_pcrs := event_effect H e (calc_pcrs st)\<rparr>)"
proof -
  have upd: "tcg_wf (st\<lparr>calc_pcrs := (calc_pcrs st)[i := v]\<rparr>)" if "tcg_wf st" "length v = 32" for st i v
    using that by (auto simp: tcg_wf_def dest: set_update_subset_insert [THEN subsetD])
  obtain pcr ty ds x where ee: "e = (pcr, ty, ds, x)" by (cases e)
  have nth: "length (calc_pcrs st ! i) = 32" if "tcg_wf st" "i < 24" for st i
    using that by (simp add: tcg_wf_def MAX_PCRS_def)
  show l: "tcg_wf (st\<lparr>calc_pcrs := locality_effect e (calc_pcrs st)\<rparr>)"
    using upd [OF wf] nth [OF wf] wf by (simp add: locality_effect_def ee)
  show "tcg_wf (st\<lparr>calc_pcrs := event_effect H e (calc_pcrs st)\<rparr>)"
    using upd [OF l] nth [OF l, of pcr] e length_replay [OF H, of _ EVP_sha256]
    by (simp add: event_effect_def ee event_wf_def)
qed

lemma event2_body_front:
  assumes e: "e = (pcr, ty, ds, x)" and H: "digest_ok H" and wf: "tcg_wf st" and pend: "\<not> no_action_event_pending st" and v: "\<not> found_hcrtm v"
    and ok: "header_ok e" and m: "mem st = pre @ event_bytes e @ post" and off: "off = length pre"
    and len: "length (event_bytes e) \<le> len"
  shows "\<exists>v' st'. event2_body H off len v st
      = and_then (parse_event2body (mem st') ty (off + 16 + length (concat (map digest_bytes ds))) (length x)) (\<lambda>_.
        and_then (event_data_cb ty (off + 16 + length (concat (map digest_bytes ds))) (length x) st') (\<lambda>st'.
          Inr (length (event_bytes e), v', st')))
    \<and> tcg_wf st' \<and> \<not> no_action_event_pending st' \<and> \<not> found_hcrtm v' \<and> mem st' = mem st
    \<and> calc_pcrs st' = event_effect H e (calc_pcrs st) \<and> pcr_nums st' = pcr_nums st"
proof -
  have ewf: "event_wf (pcr, ty, ds, x)" using ok by (simp add: header_ok_def e)
  have na: "ty = EV_NO_ACTION \<Longrightarrow> ds \<noteq> []" and p: "pcr < 24"
    and xl: "length x < 2 ^ 32" and dwf: "list_all digest_wf ds"
    using ok by (auto simp: header_ok_def e event_wf_def)
  let ?D = "concat (map digest_bytes ds)"
  let ?n = "length ?D"
  let ?es = "length (event_bytes e)"
  let ?hd = "to_le 4 pcr @ to_le 4 ty @ to_le 4 (length ds)"
  let ?pre = "pre @ ?hd @ ?D @ to_le 4 (length x)"
  let ?ev = "off + 16 + ?n"
  have m': "mem st = ?pre @ x @ post" "?ev = length ?pre" using m off by (simp_all add: e)
  have reads: "rd32 (mem st) off = Inr pcr" "rd32 (mem st) (off + 4) = Inr ty" "rd32 (mem st) (off + 8) = Inr (length ds)"
    "rd32 (mem st) (off + 12 + ?n) = Inr (length x)"
    using event_reads [OF ewf m [unfolded e] off refl] by simp_all
  have pe: "parse_event2 (mem st) off len = Inr (?es, ?n)"
    using parse_event2_wf [OF ewf m [unfolded e] off] len by (simp add: e)
  have es17: "17 \<le> ?es \<or> ty \<noteq> EV_NO_ACTION" using na by (cases ds) (auto simp: e)
  obtain v1 where s1: "startup_locality ty pcr ?es ?ev v st
      = Inr (v1, st\<lparr>calc_pcrs := if is_locality e
          then (calc_pcrs st)[0 := (calc_pcrs st ! 0)[31 := x ! 16]] else calc_pcrs st\<rparr>)" "\<not> found_hcrtm v1"
    using startup_step [OF wf ok [unfolded e] v m' es17] by (auto simp: e)
  define P where "P = locality_effect e (calc_pcrs st)"
  have Pd: "P = (if is_locality e then (calc_pcrs st)[0 := (calc_pcrs st ! 0)[31 := x ! 16]] else calc_pcrs st)"
    by (simp add: P_def locality_effect_def e)
  have wf1: "tcg_wf (st\<lparr>calc_pcrs := P\<rparr>)"
    using tcg_wf_effect(1) [OF H wf, of e] ewf by (simp add: P_def e)
  obtain v2 e2 a2 where s2: "first_occurrence pcr v1 (st\<lparr>calc_pcrs := P\<rparr>)
      = Inr (v2, st\<lparr>calc_pcrs := P, cb_evl := e2, active_pcr := a2\<rparr>)" "srtm_wf e2" "\<not> found_hcrtm v2"
    using first_occurrence_step [OF wf1, of pcr v1] s1(2) by auto
  have wf2: "tcg_wf (st\<lparr>calc_pcrs := P, cb_evl := e2, active_pcr := a2\<rparr>)" using wf1 s2(2) by simp
  obtain e3 where s3: "event2_header_cb ty pcr (st\<lparr>calc_pcrs := P, cb_evl := e2, active_pcr := a2\<rparr>)
      = Inr (st\<lparr>calc_pcrs := P, cb_evl := e2, active_pcr := a2, cb_evl := e3, active_pcr := pcr,
          no_action_event_pending := (ty = EV_NO_ACTION)\<rparr>)" "srtm_wf e3"
    using header_step [OF wf2, of ty pcr] pend by auto
  let ?st3 = "st\<lparr>calc_pcrs := P, cb_evl := e2, active_pcr := a2, cb_evl := e3, active_pcr := pcr,
          no_action_event_pending := (ty = EV_NO_ACTION)\<rparr>"
  have wf3: "tcg_wf ?st3" using wf2 s3(2) by (simp add: tcg_wf_def)
  have fd: "foreach_digest2 (event_digest_cb H) (mem ?st3) pcr (off + 12) (length ds) ?n ?st3
      = fold_res (\<lambda>(alg, d). event_digest_cb H alg d) ds ?st3"
    using p dwf m off by (intro foreach_digest2_all [where pre = "pre @ ?hd" and post = "to_le 4 (length x) @ x @ post"])
      (simp_all add: e del: to_le_literal to_le.simps)
  have "\<exists>e4. fold_res (\<lambda>(alg, d). event_digest_cb H alg d) ds ?st3
      = Inr (?st3\<lparr>cb_evl := e4, no_action_event_pending := False, calc_pcrs := event_effect H e (calc_pcrs st)\<rparr>) \<and> srtm_wf e4"
  proof (cases "ty = EV_NO_ACTION")
    case True
    then obtain alg d ds' where ds: "ds = (alg, d) # ds'" using na by (cases ds) auto
    let ?s = "?st3\<lparr>no_action_event_pending := False\<rparr>"
    have "event_digest_cb H alg d ?st3 = Inr ?s" using True by (simp add: event_digest_cb_def)
    moreover obtain e4 where "fold_res (\<lambda>(alg, d). event_digest_cb H alg d) ds' ?s
        = Inr (?s\<lparr>cb_evl := e4, calc_pcrs := event_effect H e (calc_pcrs st)\<rparr>)" "srtm_wf e4"
      using digests_step [OF H _ _ _ , of ?s ds'] wf3 dwf True p
      by (auto simp: P_def event_effect_def e MAX_PCRS_def ds)
    ultimately show ?thesis by (intro exI [of _ e4]) (simp add: ds)
  next
    case False
    then obtain e4 where "fold_res (\<lambda>(alg, d). event_digest_cb H alg d) ds ?st3
        = Inr (?st3\<lparr>cb_evl := e4, calc_pcrs := event_effect H e (calc_pcrs st)\<rparr>)" "srtm_wf e4"
      using digests_step [OF H wf3 _ _ dwf] p by (auto simp: P_def event_effect_def e MAX_PCRS_def)
    then show ?thesis using False by (intro exI [of _ e4]) simp
  qed
  then obtain e4 where s4: "fold_res (\<lambda>(alg, d). event_digest_cb H alg d) ds ?st3
      = Inr (?st3\<lparr>cb_evl := e4, no_action_event_pending := False, calc_pcrs := event_effect H e (calc_pcrs st)\<rparr>)"
    "srtm_wf e4" by blast
  let ?st4 = "?st3\<lparr>cb_evl := e4, no_action_event_pending := False, calc_pcrs := event_effect H e (calc_pcrs st)\<rparr>"
  have wf4: "tcg_wf ?st4"
    using tcg_wf_effect(2) [OF H wf, of e] ewf s4(2) by (simp add: e tcg_wf_def)
  show ?thesis
    by (rule exI [of _ v2], rule exI [of _ ?st4], intro conjI,
        simp only: event2_body_def pe reads and_then_simps prod.case Let_def s1(1) [folded Pd] s2(1) s3(1) fd s4(1), rule wf4)
      (use s2(3) in simp_all)
qed

lemma event2_body_step:
  assumes H: "digest_ok H" and wf: "tcg_wf st" and pend: "\<not> no_action_event_pending st" and v: "\<not> found_hcrtm v"
    and ok: "event_ok e" and m: "mem st = pre @ event_bytes e @ post" and off: "off = length pre"
    and len: "length (event_bytes e) \<le> len"
  shows "\<exists>v' st' pre'. event2_body H off len v st = Inr (length (event_bytes e), v', st') \<and> tcg_wf st'
    \<and> \<not> no_action_event_pending st' \<and> \<not> found_hcrtm v' \<and> mem st' = pre' @ post
    \<and> length pre' = off + length (event_bytes e) \<and> calc_pcrs st' = event_effect H e (calc_pcrs st)
    \<and> pcr_nums st' = pcr_nums st"
proof -
  obtain pcr ty ds x where e: "e = (pcr, ty, ds, x)" by (cases e)
  have h: "header_ok e" and data: "data_ok ty x" and xl: "length x < 2 ^ 32"
    using ok by (auto simp: event_ok_def header_ok_def event_wf_def e)
  let ?D = "concat (map digest_bytes ds)"
  let ?pre = "pre @ to_le 4 pcr @ to_le 4 ty @ to_le 4 (length ds) @ ?D @ to_le 4 (length x)"
  let ?ev = "off + 16 + length ?D"
  obtain v4 st4 where f: "event2_body H off len v st = and_then (parse_event2body (mem st4) ty ?ev (length x)) (\<lambda>_.
        and_then (event_data_cb ty ?ev (length x) st4) (\<lambda>st'. Inr (length (event_bytes e), v4, st')))"
    "tcg_wf st4" "\<not> no_action_event_pending st4" "\<not> found_hcrtm v4" "mem st4 = mem st"
    "calc_pcrs st4 = event_effect H e (calc_pcrs st)" "pcr_nums st4 = pcr_nums st"
    using event2_body_front [OF e H wf pend v h m off len] by blast
  have m4: "mem st4 = ?pre @ x @ post" "?ev = length ?pre" using m off f(5) by (simp_all add: e)
  obtain e5 x' where s5: "event_data_cb ty ?ev (length x) st4
      = Inr (st4\<lparr>cb_evl := e5, mem := take ?ev (mem st4) @ x' @ drop (?ev + length x) (mem st4)\<rparr>)"
    "srtm_wf e5" "length x' = length x"
    using event_data_step [OF f(2) data m4 xl] unfolding data_step_def by blast
  have parts: "take ?ev (mem st4) = ?pre" "drop (?ev + length x) (mem st4) = post"
    using m4 by simp_all
  let ?st5 = "st4\<lparr>cb_evl := e5, mem := ?pre @ x' @ post\<rparr>"
  have b: "event2_body H off len v st = Inr (length (event_bytes e), v4, ?st5)"
    by (simp only: f(1) parse_event2body_ok [OF data m4] s5(1) parts and_then_simps)
  have wf5: "tcg_wf ?st5" using f(2) s5(2) by (simp add: tcg_wf_def)
  show ?thesis
    by (rule exI [of _ v4], rule exI [of _ ?st5], rule exI [of _ "?pre @ x'"], intro conjI, rule b, rule wf5)
      (use f s5(3) off in \<open>simp_all add: e\<close>)
qed

lemma foreach_event2_all:
  assumes H: "digest_ok H"
  shows "\<lbrakk>tcg_wf st; \<not> no_action_event_pending st; \<not> found_hcrtm v; list_all event_ok es;
      mem st = pre @ concat (map event_bytes es) @ post; off = length pre; len = length (concat (map event_bytes es))\<rbrakk> \<Longrightarrow>
    \<exists>st'. foreach_event2 H off len v st = Inr st' \<and> calc_pcrs st' = fold (event_effect H) es (calc_pcrs st)"
proof (induction es arbitrary: st v pre off len)
  case Nil
  then show ?case by (subst foreach_event2.simps) simp
next
  case (Cons e es)
  have m: "mem st = pre @ event_bytes e @ (concat (map event_bytes es) @ post)" using Cons.prems(5) by simp
  have ne: "len \<noteq> 0" using Cons.prems(7) by (cases e) simp
  obtain v' st' pre' where b: "event2_body H off len v st = Inr (length (event_bytes e), v', st')" "tcg_wf st'"
    "\<not> no_action_event_pending st'" "\<not> found_hcrtm v'" "mem st' = pre' @ concat (map event_bytes es) @ post"
    "length pre' = off + length (event_bytes e)" "calc_pcrs st' = event_effect H e (calc_pcrs st)"
    using event2_body_step [OF H Cons.prems(1-3) _ m Cons.prems(6), of len] Cons.prems(4,7) by auto
  have "len - length (event_bytes e) = length (concat (map event_bytes es))" using Cons.prems(7) by simp
  then show ?case
    using Cons.IH [OF b(2-4) _ b(5) b(6) [symmetric]] Cons.prems(4) b(1,7) ne
    by (subst foreach_event2.simps) simp
qed

section \<open>The whole log\<close>

text \<open>The specification event: signature, class fields, algorithms with digest sizes, vendor data.\<close>

record tcg_specid =
  spec_signature :: "byte list"
  spec_class :: "byte list"
  spec_algs :: "(nat \<times> nat) list"
  spec_vendor :: "byte list"

definition specid_ok :: "tcg_specid \<Rightarrow> bool" where
  "specid_ok s \<longleftrightarrow> length (spec_signature s) = 16 \<and> length (spec_class s) = 8
     \<and> spec_algs s \<noteq> [] \<and> length (spec_algs s) < 2 ^ 28 \<and> length (spec_vendor s) < 256"

definition alg_bytes :: "tcg_specid \<Rightarrow> byte list" where
  "alg_bytes s = concat (map (\<lambda>(a, n). to_le 2 a @ to_le 2 n) (spec_algs s))"

definition specid_bytes :: "tcg_specid \<Rightarrow> byte list" where
  "specid_bytes s = to_le 4 0 @ to_le 4 EV_NO_ACTION @ zeros 20
     @ to_le 4 (29 + 4 * length (spec_algs s) + length (spec_vendor s))
     @ spec_signature s @ spec_class s @ to_le 4 (length (spec_algs s)) @ alg_bytes s
     @ [of_nat (length (spec_vendor s))] @ spec_vendor s"

lemma length_alg_bytes: "length (alg_bytes s) = 4 * length (spec_algs s)"
proof -
  have "length (concat (map (\<lambda>(a, n). to_le 2 a @ to_le 2 n) xs)) = 4 * length xs" for xs :: "(nat \<times> nat) list"
    by (induction xs) auto
  then show ?thesis by (simp add: alg_bytes_def)
qed

lemma length_specid_bytes:
  "specid_ok s \<Longrightarrow> length (specid_bytes s) = 61 + 4 * length (spec_algs s) + length (spec_vendor s)"
  by (simp add: specid_bytes_def specid_ok_def length_alg_bytes)

lemma specid_event_ok:
  assumes s: "specid_ok s" and m: "m = specid_bytes s @ post" and len: "length (specid_bytes s) \<le> len"
  shows "specid_event m len = Inr (length (specid_bytes s))"
    "rd32 m 0 = Inr 0" "rd32 m 4 = Inr EV_NO_ACTION" "rd m 8 20 = Inr (zeros 20)"
proof -
  let ?n = "length (spec_algs s)"
  let ?d = "29 + 4 * ?n + length (spec_vendor s)"
  have l: "length (spec_signature s) = 16" "length (spec_class s) = 8" "?n < 2 ^ 28" "length (spec_vendor s) < 256" "?n \<noteq> 0"
    using s by (simp_all add: specid_ok_def)
  have d: "?d < 2 ^ 32" using l by simp
  note del = to_le_literal [simp del] to_le.simps [simp del] to_le_zero [simp del]
  show r0: "rd32 m 0 = Inr 0"
    using rdN_append(2) [of "[]" 0 0] by (simp add: m specid_bytes_def)
  show r4: "rd32 m 4 = Inr EV_NO_ACTION"
    using rdN_append(2) [of "to_le 4 0" 4 EV_NO_ACTION] by (simp add: m specid_bytes_def EV_NO_ACTION_def)
  show r8: "rd m 8 20 = Inr (zeros 20)"
    using rd_at_append [of "to_le 4 0 @ to_le 4 EV_NO_ACTION" 8 "zeros 20" 20] by (simp add: m specid_bytes_def)
  have r28: "rd32 m 28 = Inr ?d"
    using rdN_append(2) [of "to_le 4 0 @ to_le 4 EV_NO_ACTION @ zeros 20" 28 ?d] d by (simp add: m specid_bytes_def)
  have r56: "rd32 m 56 = Inr ?n"
    using rdN_append(2) [of "to_le 4 0 @ to_le 4 EV_NO_ACTION @ zeros 20 @ to_le 4 ?d @ spec_signature s @ spec_class s" 56 ?n] l
    by (simp add: m specid_bytes_def)
  have "rd m (60 + 4 * ?n) 1 = Inr [of_nat (length (spec_vendor s))]"
    using rd_at_append [of "to_le 4 0 @ to_le 4 EV_NO_ACTION @ zeros 20 @ to_le 4 ?d @ spec_signature s @ spec_class s
        @ to_le 4 ?n @ alg_bytes s" "60 + 4 * ?n" "[of_nat (length (spec_vendor s))]" 1] l
    by (simp add: m specid_bytes_def length_alg_bytes)
  then have rv: "rd8 m (60 + 4 * ?n) = Inr (length (spec_vendor s))"
    using l by (simp add: rd8_def unat_of_nat)
  have z: "list_all (\<lambda>b. b = 0) (zeros 20)" by (simp add: zeros_def list_all_iff)
  show "specid_event m len = Inr (length (specid_bytes s))"
    using len l(5) unfolding length_specid_bytes [OF s]
    by (simp add: specid_event_def r0 r4 r8 z r28 r56 rv Let_def)
qed

definition pcr_digests :: "nat \<Rightarrow> tcg_event list \<Rightarrow> byte list list" where
  "pcr_digests p es = concat (map (\<lambda>(pcr, ty, ds, x). if pcr = p \<and> ty \<noteq> EV_NO_ACTION then sha256_of ds else []) es)"

text \<open>An informative event with a single digest.\<close>

definition one_digest :: "tcg_event \<Rightarrow> bool" where
  "one_digest e = (case e of (pcr, ty, ds, x) \<Rightarrow> ty = EV_NO_ACTION \<longrightarrow> length ds = 1)"

lemma sha256_of_one: "length ds = 1 \<Longrightarrow> sha256_of (tl ds) = []"
  by (cases ds) (simp_all add: sha256_of_def)

lemma fold_event_effect:
  "\<lbrakk>length pcrs = 24; p < 24; list_all (\<lambda>e. event_wf e \<and> one_digest e \<and> \<not> is_locality e) es\<rbrakk> \<Longrightarrow>
    fold (event_effect H) es pcrs ! p = replay H EVP_sha256 (pcrs ! p) (pcr_digests p es)"
proof (induction es arbitrary: pcrs)
  case (Cons e es)
  obtain pcr ty ds x where e: "e = (pcr, ty, ds, x)" by (cases e)
  have l: "length (event_effect H e pcrs) = 24"
    using Cons.prems(1) by (simp add: event_effect_def locality_effect_def e)
  have "event_effect H e pcrs ! p = replay H EVP_sha256 (pcrs ! p) (pcr_digests p [e])"
    using Cons.prems
    by (auto simp: e event_effect_def locality_effect_def pcr_digests_def event_wf_def one_digest_def
        sha256_of_one nth_list_update)
  then show ?case
    using Cons.IH [OF l Cons.prems(2)] Cons.prems(3) by (simp add: pcr_digests_def e)
qed (simp add: pcr_digests_def)

lemma read_log_unfold:
  "read_log slack buf f = (if length (take CHUNK_SIZE f) = CHUNK_SIZE
     then read_log slack (buf @ take CHUNK_SIZE f) (drop CHUNK_SIZE f)
     else (buf @ take CHUNK_SIZE f @ map (\<lambda>i. if buf = [] then 0 else slack i) [length (take CHUNK_SIZE f)..<CHUNK_SIZE],
           length (buf @ take CHUNK_SIZE f)))"
  by (subst read_log.simps) (simp add: read_file_chunk_def Let_def)

lemma read_log_contents: "\<exists>post. read_log slack buf f = (buf @ f @ post, length buf + length f)"
proof (induction "length f" arbitrary: buf f rule: less_induct)
  case less
  show ?case
  proof (cases "CHUNK_SIZE \<le> length f")
    case True
    have "length (drop CHUNK_SIZE f) < length f" using True by (simp add: CHUNK_SIZE_def)
    then obtain post where "read_log slack (buf @ take CHUNK_SIZE f) (drop CHUNK_SIZE f)
        = ((buf @ take CHUNK_SIZE f) @ drop CHUNK_SIZE f @ post, length (buf @ take CHUNK_SIZE f) + length (drop CHUNK_SIZE f))"
      using less by blast
    moreover have "take CHUNK_SIZE f @ drop CHUNK_SIZE f @ post = f @ post" by (simp flip: append_assoc)
    ultimately show ?thesis using True read_log_unfold [of slack buf f] by auto
  next
    case False
    then show ?thesis using read_log_unfold [of slack buf f] by simp
  qed
qed

text \<open>The startup locality event that may open a log, and the value it gives PCR 0.\<close>

definition startup_events :: "byte option \<Rightarrow> tcg_event list" where
  "startup_events loc = (case loc of None \<Rightarrow> []
     | Some l \<Rightarrow> [(0, EV_NO_ACTION, [(TPM2_ALG_SHA256, zeros 32)], STARTUP_LOCALITY_SIGNATURE @ [l])])"

definition initial_pcr :: "byte option \<Rightarrow> nat \<Rightarrow> byte list" where
  "initial_pcr loc p = (case loc of Some l \<Rightarrow> if p = 0 then zeros 31 @ [l] else zeros 32 | None \<Rightarrow> zeros 32)"

definition fresh_tcg_state :: "format_t \<Rightarrow> nat list \<Rightarrow> tcg_state" where
  "fresh_tcg_state f nums = \<lparr>cb_evl = empty_log f MAX_PCRS, pcr_nums = nums, calc_pcrs = replicate MAX_PCRS (zeros 32),
     active_pcr = 0, no_action_event_pending = False, mem = []\<rparr>"

lemma startup_ok: "list_all event_ok (startup_events loc)"
  by (auto simp: startup_events_def event_ok_def header_ok_def event_wf_def data_ok_def get_hash_size_def
      event_type_defs is_variable_def is_blob_def is_image_def TPM2_ALG_SHA1_def TPM2_ALG_SHA256_def
      STARTUP_LOCALITY_SIGNATURE_def split: option.split)

lemma startup_effect:
  assumes "p < 24"
  shows "fold (event_effect H) (startup_events loc) (replicate MAX_PCRS (zeros 32)) ! p = initial_pcr loc p"
proof -
  have "(zeros 32)[31 := l] = zeros 31 @ [l]" for l
    by (simp add: zeros_def list_update_append numeral_eq_Suc)
  moreover have "is_locality (0, EV_NO_ACTION, ds, STARTUP_LOCALITY_SIGNATURE @ [l])" for ds l
    by (simp add: is_locality_def STARTUP_LOCALITY_SIGNATURE_def)
  moreover have "(STARTUP_LOCALITY_SIGNATURE @ [l]) ! 16 = l" for l
    by (simp add: STARTUP_LOCALITY_SIGNATURE_def nth_append)
  ultimately show ?thesis
    using assms by (auto simp: startup_events_def initial_pcr_def event_effect_def locality_effect_def MAX_PCRS_def nth_list_update sha256_of_def
        split: option.split)
qed

lemma fresh_tcg_wf: "list_all (\<lambda>n. n < MAX_PCRS) nums \<Longrightarrow> tcg_wf (fresh_tcg_state f nums)"
  by (auto simp: tcg_wf_def fresh_tcg_state_def list_all_iff)

lemma boot_log_parsed:
  assumes H: "digest_ok H" and nums: "list_all (\<lambda>n. n < MAX_PCRS) nums" and s: "specid_ok spec"
    and es: "list_all event_ok es" and f: "fs name = Some (specid_bytes spec @ concat (map event_bytes es))"
  shows "\<exists>st. tpm_parse_eventlog H slack fs name (fresh_tcg_state form nums) = Inr st
    \<and> calc_pcrs st = fold (event_effect H) es (replicate MAX_PCRS (zeros 32))"
proof -
  let ?f = "specid_bytes spec @ concat (map event_bytes es)"
  let ?v = "\<lparr>found_hcrtm = False, pcr_occurence_vector = 0, locality = 0\<rparr>"
  let ?s = "length (specid_bytes spec)"
  obtain post where r: "read_log slack [] ?f = (?f @ post, length ?f)"
    using read_log_contents [of slack "[]" ?f] by auto
  define B where "B = ?f @ post"
  define n where "n = length ?f"
  define st0 where "st0 = (fresh_tcg_state form nums)\<lparr>mem := B\<rparr>"
  have wf: "tcg_wf st0" using fresh_tcg_wf [OF nums] by (simp add: st0_def)
  have m: "mem st0 = specid_bytes spec @ concat (map event_bytes es) @ post" by (simp add: st0_def B_def)
  have sp: "specid_event (mem st0) n = Inr ?s" "rd32 (mem st0) 0 = Inr 0" "rd32 (mem st0) 4 = Inr EV_NO_ACTION"
    "rd (mem st0) 8 20 = Inr (zeros 20)"
    using specid_event_ok [OF s m, of n] by (simp_all add: n_def)
  obtain st where st: "foreach_event2 H ?s (n - ?s) ?v st0 = Inr st"
    "calc_pcrs st = fold (event_effect H) es (replicate MAX_PCRS (zeros 32))"
    using foreach_event2_all [OF H wf _ _ es m refl, of ?v "n - ?s"]
    by (auto simp: n_def st0_def fresh_tcg_state_def)
  have "\<not> n < 32" using length_specid_bytes [OF s] by (simp add: n_def)
  then have "parse_eventlog H n st0 = Inr st"
    by (simp add: parse_eventlog_def sp event_specid_cb_def st(1))
  then show ?thesis
    using st(2) unfolding tpm_parse_eventlog_def f option.case r prod.case by (simp add: st0_def B_def n_def)
qed

lemma length_fold_event_effect: "length (fold (event_effect H) es pcrs) = length pcrs"
proof (induction es arbitrary: pcrs)
  case (Cons e es)
  obtain pcr ty ds x where e: "e = (pcr, ty, ds, x)" by (cases e)
  show ?case using Cons.IH by (simp add: event_effect_def locality_effect_def e)
qed simp

lemma boot_log_replay_aux:
  assumes H: "digest_ok H" and nums: "list_all (\<lambda>n. n < MAX_PCRS) nums" and s: "specid_ok spec"
    and es: "list_all (\<lambda>e. event_ok e \<and> one_digest e \<and> \<not> is_locality e) es"
    and f: "fs name = Some (specid_bytes spec @ concat (map event_bytes (startup_events loc @ es)))"
  shows "\<exists>st. tpm_parse_eventlog H slack fs name (fresh_tcg_state form nums) = Inr st
    \<and> (\<forall>p \<in> {..<MAX_PCRS}. calc_pcrs st ! p = replay H EVP_sha256 (initial_pcr loc p) (pcr_digests p es))
    \<and> length (calc_pcrs st) = MAX_PCRS"
proof -
  have ok: "list_all event_ok (startup_events loc @ es)" using startup_ok [of loc] es by (auto simp: list_all_iff)
  obtain st where st: "tpm_parse_eventlog H slack fs name (fresh_tcg_state form nums) = Inr st"
    "calc_pcrs st = fold (event_effect H) (startup_events loc @ es) (replicate MAX_PCRS (zeros 32))"
    using boot_log_parsed [OF H nums s ok, of fs name slack form] f by blast
  let ?pcrs = "fold (event_effect H) (startup_events loc) (replicate MAX_PCRS (zeros 32))"
  have l: "length ?pcrs = 24"
    by (simp add: startup_events_def event_effect_def locality_effect_def MAX_PCRS_def split: option.split)
  have wf: "list_all (\<lambda>e. event_wf e \<and> one_digest e \<and> \<not> is_locality e) es"
    using es by (simp add: list_all_iff event_ok_def header_ok_def)
  show ?thesis
    using st fold_event_effect [OF l _ wf, of _ H] startup_effect [of _ H loc] l
    by (auto simp: MAX_PCRS_def length_fold_event_effect)
qed

text \<open>
  C7. Replay of a boot log: for every crypto-agile log that opens with a specification event
  and an optional startup locality event and whose events have accepted data, the parser
  succeeds and the value it computes for each PCR is the replay, from the initial value that
  the locality determines, of the SHA-256 digests of that PCR's events in log order;
  informative events (with one digest each) and the digests of other algorithms do not count.
\<close>

theorem boot_log_replay:
  assumes H: "digest_ok H" and nums: "list_all (\<lambda>n. n < MAX_PCRS) nums" and s: "specid_ok spec"
    and es: "list_all (\<lambda>e. event_ok e \<and> one_digest e \<and> \<not> is_locality e) es"
    and f: "fs name = Some (specid_bytes spec @ concat (map event_bytes (startup_events loc @ es)))"
  shows "\<exists>st. tpm_parse_eventlog H slack fs name (fresh_tcg_state form nums) = Inr st
    \<and> (\<forall>p \<in> {..<MAX_PCRS}. calc_pcrs st ! p = replay H EVP_sha256 (initial_pcr loc p) (pcr_digests p es))"
  using boot_log_replay_aux [where spec = spec and loc = loc and es = es and fs = fs and name = name, OF assms, of slack form] by blast

definition sample_specid :: tcg_specid where
  "sample_specid = \<lparr>spec_signature = bytes_of ''Spec ID Event03'' @ [0], spec_class = zeros 8,
     spec_algs = [(TPM2_ALG_SHA256, 32)], spec_vendor = []\<rparr>"

lemma sample_specid_ok: "specid_ok sample_specid"
  by (simp add: specid_ok_def sample_specid_def)

definition sample_separator :: "nat \<Rightarrow> byte \<Rightarrow> tcg_event" where
  "sample_separator p b = (p, 4, [(TPM2_ALG_SHA256, replicate 32 b)], zeros 4)"

lemma sample_separator_ok:
  "p < 24 \<Longrightarrow> event_ok (sample_separator p b) \<and> one_digest (sample_separator p b) \<and> \<not> is_locality (sample_separator p b)"
  by (simp add: sample_separator_def event_ok_def header_ok_def event_wf_def data_ok_def is_locality_def one_digest_def
      is_variable_def is_blob_def is_image_def event_type_defs get_hash_size_def TPM2_ALG_SHA1_def TPM2_ALG_SHA256_def)

theorem boot_log_replay_witness:
  "\<exists>st. tpm_parse_eventlog sum_digest (\<lambda>_. 0) [''log'' \<mapsto> specid_bytes sample_specid
        @ concat (map event_bytes (startup_events (Some 3) @ [sample_separator 0 1, sample_separator 7 2]))] ''log''
      (fresh_tcg_state FORMAT_JSON [0, 7]) = Inr st
    \<and> (\<forall>p \<in> {..<MAX_PCRS}. calc_pcrs st ! p = replay sum_digest EVP_sha256 (initial_pcr (Some 3) p)
        (pcr_digests p [sample_separator 0 1, sample_separator 7 2]))"
  by (rule boot_log_replay [OF sum_digest_ok _ sample_specid_ok])
    (simp_all add: MAX_PCRS_def sample_separator_ok)

section \<open>Departures from the replay\<close>

text \<open>
  A log with the SHA-1 and the SHA-256 bank: the startup locality event has a zero digest for
  each bank.
\<close>

definition two_bank_startup :: "byte \<Rightarrow> tcg_event" where
  "two_bank_startup l = (0, EV_NO_ACTION, [(TPM2_ALG_SHA1, zeros 20), (TPM2_ALG_SHA256, zeros 32)],
     STARTUP_LOCALITY_SIGNATURE @ [l])"

lemma two_bank_ok: "event_ok (two_bank_startup l)"
  by (auto simp: two_bank_startup_def event_ok_def header_ok_def event_wf_def data_ok_def get_hash_size_def
      event_type_defs is_variable_def is_blob_def is_image_def TPM2_ALG_SHA1_def TPM2_ALG_SHA256_def
      STARTUP_LOCALITY_SIGNATURE_def)

text \<open>
  C36. An informative event has a digest for each bank of the log, but only the first is
  skipped: in a log with the SHA-1 and SHA-256 banks, the startup locality event, which must
  not be extended, is extended into PCR 0 with a digest of zero bytes, so that the computed
  PCR 0 is wrong from the first event on.
\<close>

theorem informative_event_extended:
  assumes H: "digest_ok H" and nums: "list_all (\<lambda>n. n < MAX_PCRS) nums" and s: "specid_ok spec"
    and f: "fs name = Some (specid_bytes spec @ event_bytes (two_bank_startup l))"
  shows "\<exists>st. tpm_parse_eventlog H slack fs name (fresh_tcg_state form nums) = Inr st
    \<and> calc_pcrs st ! 0 = replay H EVP_sha256 (initial_pcr (Some l) 0) [zeros 32]"
proof -
  have ok: "list_all event_ok [two_bank_startup l]" by (simp add: two_bank_ok)
  obtain st where st: "tpm_parse_eventlog H slack fs name (fresh_tcg_state form nums) = Inr st"
    "calc_pcrs st = fold (event_effect H) [two_bank_startup l] (replicate MAX_PCRS (zeros 32))"
    using boot_log_parsed [OF H nums s ok, of fs name slack form] f by auto
  have "locality_effect (two_bank_startup l) (replicate MAX_PCRS (zeros 32)) ! 0 = initial_pcr (Some l) 0"
    using startup_effect [of 0 H "Some l"]
    by (simp add: startup_events_def event_effect_def locality_effect_def two_bank_startup_def is_locality_def
        sha256_of_def MAX_PCRS_def)
  then show ?thesis
    using st by (simp add: event_effect_def two_bank_startup_def sha256_of_def MAX_PCRS_def locality_effect_def)
qed

theorem informative_event_extended_witness:
  "\<exists>st. tpm_parse_eventlog sum_digest (\<lambda>_. 0) [''log'' \<mapsto> specid_bytes sample_specid @ event_bytes (two_bank_startup 3)]
        ''log'' (fresh_tcg_state FORMAT_JSON [0]) = Inr st
    \<and> calc_pcrs st ! 0 = replay sum_digest EVP_sha256 (initial_pcr (Some 3) 0) [zeros 32]"
  by (rule informative_event_extended [OF sum_digest_ok _ sample_specid_ok]) (simp_all add: MAX_PCRS_def)

text \<open>
  A description that is not terminated: the search for the terminator continues in the next
  event, and the low byte 9 of its PCR index, which is the code of a tab, becomes a space.
\<close>

lemma rejected_index:
  "\<lbrakk>rd32 m off = Inr pcr; 32 \<le> pcr; rd32 m (off + 8) = Inr n\<rbrakk> \<Longrightarrow> parse_event2 m off len = Inl (Fail 0)"
  by (cases "len < 12") (simp_all add: parse_event2_def foreach_digest2_def TPM2_MAX_PCRS_def)

lemma unterminated_description:
  assumes H: "digest_ok H" and wf: "tcg_wf st" and pend: "\<not> no_action_event_pending st" and v: "\<not> found_hcrtm v"
    and e: "e = (pcr, EV_IPL, ds, x)" "event_wf e" and x: "0 \<notin> set x" "x \<noteq> []"
    and e': "e' = (9, ty, ds', x')" "event_wf e'"
    and m: "mem st = pre @ event_bytes e @ event_bytes e' @ post" and off: "off = length pre"
    and len: "len = length (event_bytes e) + length (event_bytes e')"
  shows "foreach_event2 H off len v st = Inl (Fail 0)"
proof -
  have h: "header_ok e" using e(2) by (simp add: e header_ok_def event_type_defs)
  have l: "length (event_bytes e) \<le> len" using len by simp
  let ?D = "concat (map digest_bytes ds)"
  let ?hd = "pre @ to_le 4 pcr @ to_le 4 EV_IPL @ to_le 4 (length ds) @ ?D @ to_le 4 (length x)"
  let ?ev = "off + 16 + length ?D"
  let ?tl = "to_le 4 ty @ to_le 4 (length ds') @ concat (map digest_bytes ds') @ to_le 4 (length x') @ x' @ post"
  let ?f = "\<lambda>b :: byte. if b = 0x09 then 0x20 else b"
  obtain v4 st4 where f: "event2_body H off len v st = and_then (parse_event2body (mem st4) EV_IPL ?ev (length x)) (\<lambda>_.
        and_then (event_data_cb EV_IPL ?ev (length x) st4) (\<lambda>st'. Inr (length (event_bytes e), v4, st')))"
    "tcg_wf st4" "mem st4 = mem st"
    using event2_body_front [OF e(1) H wf pend v h m off l] by blast
  have le9: "to_le 4 9 = [9, 0, 0, 0]" by (simp, simp add: numeral_3_eq_3)
  have m4: "mem st4 = ?hd @ x @ [9, 0, 0, 0] @ ?tl" "?ev = length ?hd"
    using m off f(3) by (simp_all add: e(1) e'(1) le9 del: to_le_literal to_le.simps)
  let ?m = "?hd @ map ?f x @ [0x20, 0, 0, 0] @ ?tl"
  have c: "cstr (x @ [9, 0, 0, 0] @ ?tl) = x @ [9]"
  proof -
    have z: "\<And>b. b \<in> set x \<Longrightarrow> b \<noteq> 0" using x(1) by auto
    show ?thesis by (simp add: cstr_def takeWhile_append2 [OF z])
  qed
  have "replace_tabs (mem st4) ?ev = Inr ?m"
    unfolding m4(1) using m4(2) c by (simp add: replace_tabs_def Let_def)
  then obtain evl where ipl: "event_ipl ?ev (length x) st4 = Inr (st4\<lparr>cb_evl := evl, mem := ?m\<rparr>)"
    using event_ipl_run [OF f(2), of ?ev ?m "length x"] m4(2) by auto
  have dat: "event_data_cb EV_IPL ?ev (length x) st4 = event_ipl ?ev (length x) st4"
    using x(2) by (simp add: event_data_cb_def event_type_defs)
  have body: "parse_event2body (mem st4) EV_IPL ?ev (length x) = Inr ()"
    by (simp add: parse_event2body_def event_type_defs)
  let ?st = "st4\<lparr>cb_evl := evl, mem := ?m\<rparr>"
  have one: "event2_body H off len v st = Inr (length (event_bytes e), v4, ?st)"
    by (simp only: f(1) body dat ipl and_then_simps)
  let ?o = "off + length (event_bytes e)"
  have o: "?o = length (?hd @ map ?f x)" using m4(2) by (simp add: e(1))
  have le32: "to_le 4 32 = [0x20, 0, 0, 0]" by (simp, simp add: numeral_3_eq_3)
  have mm: "?m = (?hd @ map ?f x) @ to_le 4 32 @ ?tl" by (simp only: le32 append_assoc append_Cons append_Nil)
  have r1: "rd32 ?m ?o = Inr 32"
    unfolding mm by (rule rdN_append(2)) (use o in simp_all)
  have "length ds' < 2 ^ 32" using e' by (simp add: event_wf_def)
  then have "rd32 ((?hd @ map ?f x @ to_le 4 32 @ to_le 4 ty) @ to_le 4 (length ds') @ concat (map digest_bytes ds')
      @ to_le 4 (length x') @ x' @ post) (?o + 8) = Inr (length ds')"
    using o by (intro rdN_append(2)) simp_all
  then have r2: "rd32 ?m (?o + 8) = Inr (length ds')"
    unfolding mm by (simp only: append_assoc)
  note r = r1 r2
  have "parse_event2 (mem ?st) ?o (len - length (event_bytes e)) = Inl (Fail 0)"
    using rejected_index [OF r(1) _ r(2)] by simp
  then have two: "event2_body H ?o (len - length (event_bytes e)) v4 ?st = Inl (Fail 0)"
    unfolding event2_body_def by (simp only: and_then_simps)
  have ne: "len \<noteq> 0" "len - length (event_bytes e) \<noteq> 0" using len by (simp_all add: e(1) e'(1))
  have "foreach_event2 H ?o (len - length (event_bytes e)) v4 ?st = Inl (Fail 0)"
    by (subst foreach_event2.simps) (simp only: if_not_P [OF ne(2)] two and_then_simps)
  then show ?thesis
    by (subst foreach_event2.simps) (simp only: if_not_P [OF ne(1)] one and_then_simps prod.case)
qed

text \<open>
  C37. A boot log in which an \<open>EV_IPL\<close> event with a non-empty description that contains no
  zero byte is followed by any event of PCR 9 is rejected, although both events are well
  formed: replacing the tabs of the description overwrites the PCR index of the next event.
\<close>

theorem description_overwrites_next_event:
  assumes H: "digest_ok H" and nums: "list_all (\<lambda>n. n < MAX_PCRS) nums" and s: "specid_ok spec"
    and e: "e = (pcr, EV_IPL, ds, x)" "event_wf e" and x: "0 \<notin> set x" "x \<noteq> []"
    and e': "e' = (9, ty, ds', x')" "event_wf e'"
    and f: "fs name = Some (specid_bytes spec @ event_bytes e @ event_bytes e')"
  shows "tpm_parse_eventlog H slack fs name (fresh_tcg_state form nums) = Inl (Fail (-1))"
proof -
  let ?f = "specid_bytes spec @ event_bytes e @ event_bytes e'"
  let ?v = "\<lparr>found_hcrtm = False, pcr_occurence_vector = 0, locality = 0\<rparr>"
  let ?s = "length (specid_bytes spec)"
  obtain post where r: "read_log slack [] ?f = (?f @ post, length ?f)"
    using read_log_contents [of slack "[]" ?f] by auto
  define n where "n = length ?f"
  define st0 where "st0 = (fresh_tcg_state form nums)\<lparr>mem := ?f @ post\<rparr>"
  have wf: "tcg_wf st0" using fresh_tcg_wf [OF nums] by (simp add: st0_def)
  have m: "mem st0 = specid_bytes spec @ event_bytes e @ event_bytes e' @ post" by (simp add: st0_def)
  have sp: "specid_event (mem st0) n = Inr ?s" "rd32 (mem st0) 0 = Inr 0" "rd32 (mem st0) 4 = Inr EV_NO_ACTION"
    "rd (mem st0) 8 20 = Inr (zeros 20)"
    using specid_event_ok [OF s m, of n] by (simp_all add: n_def)
  have p: "\<not> no_action_event_pending st0" by (simp add: st0_def fresh_tcg_state_def)
  have v: "\<not> found_hcrtm ?v" by simp
  have l: "n - ?s = length (event_bytes e) + length (event_bytes e')" by (simp add: n_def)
  have fe: "foreach_event2 H ?s (n - ?s) ?v st0 = Inl (Fail 0)"
    by (rule unterminated_description [OF H wf p v e x e' m refl l])
  have "\<not> n < 32" using length_specid_bytes [OF s] by (simp add: n_def)
  then have "parse_eventlog H n st0 = Inl (Fail 0)"
    by (simp add: parse_eventlog_def sp event_specid_cb_def fe)
  then show ?thesis
    unfolding tpm_parse_eventlog_def f option.case r prod.case by (simp add: st0_def n_def)
qed

theorem description_overwrites_next_event_witness:
  "tpm_parse_eventlog sum_digest (\<lambda>_. 0) [''log'' \<mapsto> specid_bytes sample_specid
       @ event_bytes (8, EV_IPL, [(TPM2_ALG_SHA256, replicate 32 1)], bytes_of ''grub_cmd'')
       @ event_bytes (9, EV_IPL, [(TPM2_ALG_SHA256, replicate 32 2)], bytes_of ''vmlinuz'' @ [0])] ''log''
     (fresh_tcg_state FORMAT_JSON [8, 9]) = Inl (Fail (-1))"
  by (rule description_overwrites_next_event [OF sum_digest_ok _ sample_specid_ok,
        where e = "(8, EV_IPL, [(TPM2_ALG_SHA256, replicate 32 1)], bytes_of ''grub_cmd'')"
          and e' = "(9, EV_IPL, [(TPM2_ALG_SHA256, replicate 32 2)], bytes_of ''vmlinuz'' @ [0])", OF _ refl _ _ _ refl])
    (simp_all only: fun_upd_same, simp_all add: MAX_PCRS_def event_wf_def event_type_defs get_hash_size_def
      TPM2_ALG_SHA1_def TPM2_ALG_SHA256_def bytes_of_def)

end
