(* ===== verification/TcgShape.thy ===== *)
theory TcgShape
  imports TcgLog
begin

text \<open>
  Invariants of the boot log parser, for every input whatsoever. The parser knows its client
  only through the callbacks, so what it keeps is a property of these: the locale
  \<open>log_invariant\<close> is that contract and carries an invariant of the callbacks through the loops.
  It is used for the shape of the state (the configuration, the number of log slots, the 24 PCR
  values of 32 bytes) and, through \<open>register_invariant\<close>, for every property of the values that
  an extension and a startup locality keep.
\<close>

definition shape_ok :: "format_t \<Rightarrow> nat list \<Rightarrow> tcg_state \<Rightarrow> bool" where
  "shape_ok f nums st \<longleftrightarrow> fmt (cb_evl st) = f \<and> pcr_nums st = nums
     \<and> length (log (cb_evl st)) = MAX_PCRS \<and> length (calc_pcrs st) = MAX_PCRS
     \<and> (\<forall>v \<in> set (calc_pcrs st). length v = 32)"

named_theorems shape_intros "preservation of the shape of the parser's state"

lemma shape_ok_update [simp]:
  "shape_ok f nums (st\<lparr>active_pcr := p\<rparr>) = shape_ok f nums st"
  "shape_ok f nums (st\<lparr>no_action_event_pending := b\<rparr>) = shape_ok f nums st"
  "shape_ok f nums (st\<lparr>mem := m\<rparr>) = shape_ok f nums st"
  by (simp_all add: shape_ok_def)

section \<open>The callbacks\<close>

lemma add_evlog_shape [shape_intros]:
  "\<lbrakk>add_evlog t st = Inr st'; shape_ok f nums st\<rbrakk> \<Longrightarrow> shape_ok f nums st'"
  by (auto simp: add_evlog_def mystrcat_def append_slot_def shape_ok_def res_simps split: if_splits option.splits)

lemma add_evlog_description_shape [shape_intros]:
  "\<lbrakk>add_evlog_description t st = Inr st'; shape_ok f nums st\<rbrakk> \<Longrightarrow> shape_ok f nums st'"
  unfolding add_evlog_description_def by (rule add_evlog_shape)

lemma hash_extend_length:
  "\<lbrakk>hash_extend H EVP_sha256 v d 32 = Inr v'; length v = 32\<rbrakk> \<Longrightarrow> length v' = 32"
  by (auto simp: hash_extend_def res_simps)

lemma calc_pcrs_update_shape:
  "\<lbrakk>shape_ok f nums st; length v = 32\<rbrakk> \<Longrightarrow> shape_ok f nums (st\<lparr>calc_pcrs := (calc_pcrs st)[i := v]\<rparr>)"
  by (auto simp: shape_ok_def dest: subsetD [OF set_update_subset_insert])

lemma set_locality_shape [shape_intros]: "shape_ok f nums st \<Longrightarrow> shape_ok f nums (set_locality l st)"
  unfolding set_locality_def by (rule calc_pcrs_update_shape) (auto simp: shape_ok_def MAX_PCRS_def)

lemma event_digest_cb_shape [shape_intros]:
  assumes "event_digest_cb H alg d st = Inr st'" and "shape_ok f nums st"
  shows "shape_ok f nums st'"
proof (cases "no_action_event_pending st")
  case False
  then obtain s where s: "add_evlog (digest_text (fmt (cb_evl st)) alg d) st = Inr s" "active_pcr s < MAX_PCRS"
    and st': "st' = s \<or> (\<exists>v. hash_extend H EVP_sha256 (calc_pcrs s ! active_pcr s) d 32 = Inr v
      \<and> st' = s\<lparr>calc_pcrs := (calc_pcrs s)[active_pcr s := v]\<rparr>)"
    using assms(1) by (auto simp: event_digest_cb_def res_simps split: if_splits)
  have ok: "shape_ok f nums s" using s(1) assms(2) by (rule add_evlog_shape)
  then have "length (calc_pcrs s ! active_pcr s) = 32" using s(2) by (simp add: shape_ok_def)
  then show ?thesis using st' ok by (auto intro: calc_pcrs_update_shape hash_extend_length)
qed (use assms in \<open>auto simp: event_digest_cb_def\<close>)

lemma header_cbs_shape [shape_intros]:
  "\<lbrakk>event_header_cb ty pcr d st = Inr st'; shape_ok f nums st\<rbrakk> \<Longrightarrow> shape_ok f nums st'"
  "\<lbrakk>event_specid_cb ty pcr d st = Inr st'; shape_ok f nums st\<rbrakk> \<Longrightarrow> shape_ok f nums st'"
  "\<lbrakk>event_initval_cb l pcr st = Inr st'; shape_ok f nums st\<rbrakk> \<Longrightarrow> shape_ok f nums st'"
  "\<lbrakk>event2_header_cb ty pcr st = Inr st'; shape_ok f nums st\<rbrakk> \<Longrightarrow> shape_ok f nums st'"
  by (auto simp: event_header_cb_def event_specid_cb_def event_initval_cb_def event2_header_cb_def Let_def
      split: if_splits dest!: add_evlog_shape [where f = f and nums = nums])

lemma event_ipl_cases:
  assumes "event_ipl ev len st = Inr st'"
  obtains t s m d s' where "add_evlog t st = Inr s"
    and "fold_res (\<lambda>line. add_evlog (chars line)) (ipl_lines d) (s\<lparr>mem := m\<rparr>) = Inr s'"
    and "st' = s' \<or> (\<exists>t. add_evlog t s' = Inr st')"
proof -
  obtain t s where s: "add_evlog t st = Inr s"
    and rest: \<open>and_then (replace_tabs (mem s) ev) (\<lambda>m. and_then (rd m ev len) (\<lambda>d.
       and_then (fold_res (\<lambda>line. add_evlog (chars line)) (ipl_lines d) (s\<lparr>mem := m\<rparr>)) (\<lambda>s.
       case fmt (cb_evl s) of FORMAT_JSON \<Rightarrow> add_evlog (''"'' @ nl @ ''},'' @ nl) s | FORMAT_TEXT \<Rightarrow> Inr s))) = Inr st'\<close>
    using assms by (auto simp: event_ipl_def Let_def and_then_Inr_iff)
  obtain m d s' where "fold_res (\<lambda>line. add_evlog (chars line)) (ipl_lines d) (s\<lparr>mem := m\<rparr>) = Inr s'"
    and "st' = s' \<or> (\<exists>t. add_evlog t s' = Inr st')"
    using rest by (auto simp: and_then_Inr_iff split: format_t.splits) (metis format_t.exhaust)
  with s show thesis by (rule that)
qed

lemma event_ipl_shape [shape_intros]:
  assumes "event_ipl ev len st = Inr st'" and "shape_ok f nums st"
  shows "shape_ok f nums st'"
proof -
  obtain t s m d s' where s: "add_evlog t st = Inr s"
    and s': "fold_res (\<lambda>line. add_evlog (chars line)) (ipl_lines d) (s\<lparr>mem := m\<rparr>) = Inr s'"
    and st': "st' = s' \<or> (\<exists>t. add_evlog t s' = Inr st')"
    using assms(1) by (rule event_ipl_cases)
  have ok: "shape_ok f nums s" using s assms(2) by (rule add_evlog_shape)
  have "shape_ok f nums s'"
    by (rule fold_res_invariant [OF _ _ s']) (use ok in \<open>auto intro: add_evlog_shape\<close>)
  then show ?thesis using st' by (auto intro: add_evlog_shape)
qed

lemma event_data_cb_shape [shape_intros]:
  "\<lbrakk>event_data_cb ty ev len st = Inr st'; shape_ok f nums st\<rbrakk> \<Longrightarrow> shape_ok f nums st'"
  by (auto simp: event_data_cb_def event_uefi_var_def event_uefi_post_code_def event_uefi_platfwblob_def
      event_uefi_action_def event_uefi_image_load_def event_gpt_def res_simps
      intro: shape_intros split: if_splits)

lemma calc_pcrs_frame:
  "add_evlog t st = Inr st' \<Longrightarrow> calc_pcrs st' = calc_pcrs st"
  "add_evlog_description t st = Inr st' \<Longrightarrow> calc_pcrs st' = calc_pcrs st"
  by (auto simp: add_evlog_description_def add_evlog_def res_simps split: if_splits)

lemma header_cbs_frame:
  "event_header_cb ty pcr d st = Inr st' \<Longrightarrow> calc_pcrs st' = calc_pcrs st"
  "event_specid_cb ty pcr d st = Inr st' \<Longrightarrow> calc_pcrs st' = calc_pcrs st"
  "event_initval_cb l pcr st = Inr st' \<Longrightarrow> calc_pcrs st' = calc_pcrs st"
  "event2_header_cb ty pcr st = Inr st' \<Longrightarrow> calc_pcrs st' = calc_pcrs st"
  by (auto simp: event_header_cb_def event_specid_cb_def event_initval_cb_def event2_header_cb_def Let_def
      split: if_splits dest!: calc_pcrs_frame)

lemma event_ipl_frame: "event_ipl ev len st = Inr st' \<Longrightarrow> calc_pcrs st' = calc_pcrs st"
proof -
  assume a: "event_ipl ev len st = Inr st'"
  obtain t s m d s' where s: "add_evlog t st = Inr s"
    and s': "fold_res (\<lambda>line. add_evlog (chars line)) (ipl_lines d) (s\<lparr>mem := m\<rparr>) = Inr s'"
    and st': "st' = s' \<or> (\<exists>t. add_evlog t s' = Inr st')"
    using a by (rule event_ipl_cases)
  have "calc_pcrs s' = calc_pcrs st"
    by (rule fold_res_invariant [OF _ _ s', of "\<lambda>x. calc_pcrs x = calc_pcrs st"])
      (use calc_pcrs_frame(1) [OF s] in \<open>auto dest: calc_pcrs_frame\<close>)
  then show ?thesis using st' by (auto dest: calc_pcrs_frame)
qed

lemma event_data_cb_frame: "event_data_cb ty ev len st = Inr st' \<Longrightarrow> calc_pcrs st' = calc_pcrs st"
  by (auto simp: event_data_cb_def event_uefi_var_def event_uefi_post_code_def event_uefi_platfwblob_def
      event_uefi_action_def event_uefi_image_load_def event_gpt_def res_simps
      dest: calc_pcrs_frame event_ipl_frame split: if_splits)

section \<open>What the loops keep\<close>

locale log_invariant =
  fixes H :: digest and I :: "tcg_state \<Rightarrow> bool"
  assumes header: "\<lbrakk>event_header_cb ty pcr d st = Inr st'; I st\<rbrakk> \<Longrightarrow> I st'"
    and specid: "\<lbrakk>event_specid_cb ty pcr d st = Inr st'; I st\<rbrakk> \<Longrightarrow> I st'"
    and initval: "\<lbrakk>event_initval_cb l pcr st = Inr st'; I st\<rbrakk> \<Longrightarrow> I st'"
    and header2: "\<lbrakk>event2_header_cb ty pcr st = Inr st'; I st\<rbrakk> \<Longrightarrow> I st'"
    and digest2: "\<lbrakk>event_digest_cb H alg d st = Inr st'; I st\<rbrakk> \<Longrightarrow> I st'"
    and data: "\<lbrakk>event_data_cb ty ev len st = Inr st'; I st\<rbrakk> \<Longrightarrow> I st'"
    and locality: "I st \<Longrightarrow> I (set_locality l st)"
    and memory: "I st \<Longrightarrow> I (st\<lparr>mem := m\<rparr>)"
begin

lemma digest_loop_keeps: "\<lbrakk>digest_loop (event_digest_cb H) m off n len st = Inr st'; I st\<rbrakk> \<Longrightarrow> I st'"
  by (induction "event_digest_cb H" m off n len st rule: digest_loop.induct)
    (auto simp: Let_def res_simps dest: digest2)

lemma foreach_digest2_keeps:
  "\<lbrakk>foreach_digest2 (event_digest_cb H) m pcr off n len st = Inr st'; I st\<rbrakk> \<Longrightarrow> I st'"
  by (auto simp: foreach_digest2_def and_then_Inr_iff intro: digest_loop_keeps)

lemma startup_locality_keeps: "\<lbrakk>startup_locality ty pcr es ev v st = Inr (v', st'); I st\<rbrakk> \<Longrightarrow> I st'"
  by (auto simp: startup_locality_def Let_def res_simps intro: locality split: if_splits prod.splits)

lemma first_occurrence_keeps: "\<lbrakk>first_occurrence pcr v st = Inr (v', st'); I st\<rbrakk> \<Longrightarrow> I st'"
  by (auto simp: first_occurrence_def Let_def res_simps intro: initval split: if_splits)

lemma event2_body_keeps:
  assumes "event2_body H off len v st = Inr (es, v', st')" and "I st"
  shows "I st'"
proof -
  obtain ty pcr n ev es v1 st1 v2 st2 st3 st4 ds cnt where
    "startup_locality ty pcr es ev v st = Inr (v1, st1)" "first_occurrence pcr v1 st1 = Inr (v2, st2)"
    and h: "event2_header_cb ty pcr st2 = Inr st3"
      "foreach_digest2 (event_digest_cb H) (mem st3) pcr (off + 12) cnt ds st3 = Inr st4"
      "event_data_cb ty ev n st4 = Inr st'"
    using assms(1) by (auto simp: event2_body_def Let_def and_then_Inr_iff)
  then have "I st2" using assms(2) by (blast intro: startup_locality_keeps first_occurrence_keeps)
  then have "I st3" by (rule header2 [OF h(1)])
  then have "I st4" by (rule foreach_digest2_keeps [OF h(2)])
  then show ?thesis by (rule data [OF h(3)])
qed

lemma foreach_event2_keeps: "\<lbrakk>foreach_event2 G off len v st = Inr st'; I st; G = H\<rbrakk> \<Longrightarrow> I st'"
proof (induction G off len v st rule: foreach_event2.induct)
  case (1 G off len v st)
  show ?case
  proof (cases "len = 0")
    case False
    then obtain es v1 st1 where b: "event2_body G off len v st = Inr (es, v1, st1)"
      and r: "foreach_event2 G (off + es) (len - es) v1 st1 = Inr st'"
      using 1(2) by (subst (asm) foreach_event2.simps) (auto simp: res_simps)
    show ?thesis
      by (rule 1(1) [OF False b refl refl r]) (use event2_body_keeps b 1(3,4) in auto)
  qed (use 1 in \<open>simp add: foreach_event2.simps\<close>)
qed

lemma sha1_body_keeps: "\<lbrakk>sha1_body off len st = Inr (es, st'); I st\<rbrakk> \<Longrightarrow> I st'"
  by (auto simp: sha1_body_def res_simps dest: header data)

lemma foreach_sha1_keeps: "\<lbrakk>foreach_sha1_log_event off len st = Inr st'; I st\<rbrakk> \<Longrightarrow> I st'"
proof (induction off len st rule: foreach_sha1_log_event.induct)
  case (1 off len st)
  show ?case
  proof (cases "len = 0")
    case False
    then obtain es st1 where b: "sha1_body off len st = Inr (es, st1)"
      and r: "foreach_sha1_log_event (off + es) (len - es) st1 = Inr st'"
      using 1(2) by (subst (asm) foreach_sha1_log_event.simps) (auto simp: res_simps)
    show ?thesis
      by (rule 1(1) [OF False b refl r]) (rule sha1_body_keeps [OF b 1(3)])
  qed (use 1 in \<open>simp add: foreach_sha1_log_event.simps\<close>)
qed

lemma parse_eventlog_keeps: "\<lbrakk>parse_eventlog H len st = Inr st'; I st\<rbrakk> \<Longrightarrow> I st'"
  by (auto simp: parse_eventlog_def res_simps dest: specid foreach_event2_keeps foreach_sha1_keeps split: if_splits)

lemma tpm_parse_eventlog_keeps:
  "\<lbrakk>tpm_parse_eventlog H slack fs name st = Inr st'; I st\<rbrakk> \<Longrightarrow> I st'"
  by (auto simp: tpm_parse_eventlog_def intro: memory dest: parse_eventlog_keeps
      split: option.splits prod.splits sum.splits fault.splits)

end

interpretation shape: log_invariant H "shape_ok f nums"
  by unfold_locales (simp_all add: header_cbs_shape event_digest_cb_shape event_data_cb_shape set_locality_shape)

lemmas tpm_parse_eventlog_shape = shape.tpm_parse_eventlog_keeps

section \<open>What the register values keep\<close>

text \<open>A digest changes the values by an extension of the active PCR, if it changes them at all.\<close>

lemma event_digest_cb_effect:
  assumes cb: "event_digest_cb H alg d st = Inr st'" and ok: "shape_ok f nums st"
  shows "calc_pcrs st' = calc_pcrs st \<or> (\<exists>p v. p < MAX_PCRS \<and> length (calc_pcrs st ! p) = 32
    \<and> hash_extend H EVP_sha256 (calc_pcrs st ! p) d 32 = Inr v \<and> calc_pcrs st' = (calc_pcrs st)[p := v])"
proof (cases "no_action_event_pending st")
  case False
  then obtain s where s: "add_evlog (digest_text (fmt (cb_evl st)) alg d) st = Inr s" "active_pcr s < MAX_PCRS"
    and st': "st' = s \<or> (\<exists>v. hash_extend H EVP_sha256 (calc_pcrs s ! active_pcr s) d 32 = Inr v
      \<and> st' = s\<lparr>calc_pcrs := (calc_pcrs s)[active_pcr s := v]\<rparr>)"
    using cb by (auto simp: event_digest_cb_def res_simps split: if_splits)
  have eq: "calc_pcrs s = calc_pcrs st" using s(1) by (rule calc_pcrs_frame)
  have l: "length (calc_pcrs st ! active_pcr s) = 32" using ok s(2) by (simp add: shape_ok_def)
  have "calc_pcrs st' = calc_pcrs st \<or> (\<exists>v. hash_extend H EVP_sha256 (calc_pcrs st ! active_pcr s) d 32 = Inr v
      \<and> calc_pcrs st' = (calc_pcrs st)[active_pcr s := v])"
    using st' eq by auto
  then show ?thesis using s(2) l by blast
qed (use cb in \<open>auto simp: event_digest_cb_def\<close>)

locale register_invariant =
  fixes H :: digest and P :: "byte list list \<Rightarrow> bool"
  assumes extended: "\<lbrakk>P pcrs; length pcrs = MAX_PCRS; p < MAX_PCRS; length (pcrs ! p) = 32;
      hash_extend H EVP_sha256 (pcrs ! p) x 32 = Inr v\<rbrakk> \<Longrightarrow> P (pcrs[p := v])"
    and located: "\<lbrakk>P pcrs; length pcrs = MAX_PCRS; length (pcrs ! 0) = 32\<rbrakk>
      \<Longrightarrow> P (pcrs[0 := (pcrs ! 0)[31 := l]])"

sublocale register_invariant \<subseteq> log_invariant H "\<lambda>st. shape_ok f nums st \<and> P (calc_pcrs st)" for f nums
proof unfold_locales
  fix alg d st st'
  assume cb: "event_digest_cb H alg d st = Inr st'" and I: "shape_ok f nums st \<and> P (calc_pcrs st)"
  have "shape_ok f nums st'" using cb I event_digest_cb_shape by blast
  moreover have "P (calc_pcrs st')"
    using event_digest_cb_effect [OF cb, of f nums] I extended by (auto simp: shape_ok_def)
  ultimately show "shape_ok f nums st' \<and> P (calc_pcrs st')" ..
next
  fix st l
  assume I: "shape_ok f nums st \<and> P (calc_pcrs st)"
  then have "P ((calc_pcrs st)[0 := (calc_pcrs st ! 0)[31 := of_nat l]])"
    by (intro located) (simp_all add: shape_ok_def MAX_PCRS_def)
  then show "shape_ok f nums (set_locality l st) \<and> P (calc_pcrs (set_locality l st))"
    using I set_locality_shape by (simp add: set_locality_def)
qed (use header_cbs_shape event_data_cb_shape in \<open>auto dest: header_cbs_frame event_data_cb_frame\<close>)

end
