(* ===== verification/ParseSrtm.thy ===== *)
theory ParseSrtm
  imports TcgSpec TcgShape SrtmSpec
begin

text \<open>
  \<^verbatim>\<open>src/parse-srtm-pcrs/main.c\<close>: the options of the boot log parser and the printing of its log,
  summary and aggregate. The PCR numbers on the command line are not compared with the number
  of PCRs, so a larger one reads outside the arrays.
\<close>

section \<open>Options\<close>

record parse_opts =
  p_summary :: bool
  p_eventlog :: bool
  p_aggregate :: bool
  p_pcrs :: "nat list"
  p_format :: format_t
  p_input :: "string option"

definition parse_defaults :: parse_opts where
  "parse_defaults = \<lparr>p_summary = False, p_eventlog = False, p_aggregate = False, p_pcrs = [],
     p_format = FORMAT_TEXT, p_input = None\<rparr>"

definition BIOS_MEASUREMENTS :: string where
  "BIOS_MEASUREMENTS = ''/sys/kernel/security/tpm0/binary_bios_measurements''"

definition parse_option :: "parse_opts \<Rightarrow> string \<Rightarrow> string list \<Rightarrow> (nat \<times> parse_opts) res" where
  "parse_option opts a rest =
     (if a = ''-h'' \<or> a = ''--help'' then usage
      else if a = ''-e'' \<or> a = ''--eventlog'' then flag (opts\<lparr>p_eventlog := True\<rparr>)
      else if a = ''-s'' \<or> a = ''--summary'' then flag (opts\<lparr>p_summary := True\<rparr>)
      else if a = ''-a'' \<or> a = ''--aggregate'' then flag (opts\<lparr>p_aggregate := True\<rparr>)
      else if a = ''-f'' \<or> a = ''--format'' then
        value_of rest (\<lambda>v. and_then (format_of v) (\<lambda>f. Inr (opts\<lparr>p_format := f\<rparr>)))
      else if a = ''-p'' \<or> a = ''--pcrs'' then
        value_of rest (\<lambda>v. Inr (opts\<lparr>p_pcrs := p_pcrs opts @ number_list 32 v\<rparr>))
      else if a = ''-i'' \<or> a = ''--in'' then value_of rest (\<lambda>v. Inr (opts\<lparr>p_input := Some v\<rparr>))
      else if a = ''-v'' \<or> a = ''--verbose'' then flag opts
      else usage)"

definition parse_options :: "string list \<Rightarrow> parse_opts res" where
  "parse_options args =
     and_then (parse_args parse_option args parse_defaults) (\<lambda>opts.
     and_then (check (p_pcrs opts \<noteq> []) (Fail (-1))) (\<lambda>_. Inr opts))"

section \<open>Output\<close>

definition slot_at :: "'a list \<Rightarrow> nat \<Rightarrow> 'a res" where
  "slot_at xs i = (if i < length xs then Inr (xs ! i) else Inl OutOfBounds)"

text \<open>The loop over the later PCRs, which looks for one with a log.\<close>

fun no_later_log :: "string option list \<Rightarrow> nat list \<Rightarrow> bool res" where
  "no_later_log l [] = Inr True"
| "no_later_log l (j # ns) =
     and_then (slot_at l j) (\<lambda>t. and_then (no_later_log l ns) (\<lambda>b. Inr (t = None \<and> b)))"

text \<open>The last two characters become a newline, whatever the format is.\<close>

definition trim_last :: "string \<Rightarrow> string res" where
  "trim_last t = and_then (check (2 \<le> length t) OutOfBounds) (\<lambda>_. Inr (take (length t - 2) t @ nl))"

fun parse_print_log :: "string option list \<Rightarrow> nat list \<Rightarrow> string res" where
  "parse_print_log l [] = Inr []"
| "parse_print_log l (i # ns) =
     and_then (no_later_log l ns) (\<lambda>is_last.
     and_then (slot_at l i) (\<lambda>slot.
     and_then (case slot of None \<Rightarrow> Inr [] | Some t \<Rightarrow> if is_last then trim_last t else Inr t) (\<lambda>t.
     and_then (parse_print_log l ns) (\<lambda>r. Inr (t @ r)))))"

definition parse_event_log :: "format_t \<Rightarrow> string option list \<Rightarrow> nat list \<Rightarrow> string res" where
  "parse_event_log f l nums =
     and_then (parse_print_log l nums) (\<lambda>t.
       Inr (if f = FORMAT_JSON then ''['' @ t @ '']'' @ nl else t))"

definition parse_summary_object :: "byte list list \<Rightarrow> nat \<Rightarrow> string res" where
  \<open>parse_summary_object pcrs i =
     and_then (slot_at pcrs i) (\<lambda>pcr.
     and_then (print_data_no_lf pcr 32 None) (\<lambda>v.
       Inr (''{'' @ nl @ tab @ ''"type":"TPM Reference Value",'' @ nl @ tab @ ''"subtype":"PCR Summary",''
         @ nl @ tab @ ''"pcr":'' @ dec i @ '','' @ nl @ tab @ ''"sha256":"'' @ v @ ''",''
         @ nl @ tab @ ''"description":"PCR'' @ dec i @ ''"'' @ nl @ ''}'')))\<close>

definition parse_summary_line :: "byte list list \<Rightarrow> nat \<Rightarrow> string res" where
  "parse_summary_line pcrs i =
     and_then (slot_at pcrs i) (\<lambda>pcr. and_then (print_data pcr 32 None) (\<lambda>v. Inr (''PCR'' @ dec i @ '': '' @ v)))"

definition parse_summary :: "format_t \<Rightarrow> byte list list \<Rightarrow> nat list \<Rightarrow> string res" where
  "parse_summary f pcrs nums = (case f of
     FORMAT_JSON \<Rightarrow> and_then (print_objects (parse_summary_object pcrs) nums) (\<lambda>t. Inr (''['' @ t @ '']'' @ nl))
   | FORMAT_TEXT \<Rightarrow> print_all (parse_summary_line pcrs) nums)"

text \<open>As in \<^verbatim>\<open>calculate-srtm-pcrs\<close>, but without a bound on the numbers.\<close>

fun digest_pcrs :: "byte list list \<Rightarrow> nat list \<Rightarrow> byte list \<Rightarrow> byte list res" where
  "digest_pcrs pcrs [] ctx = Inr ctx"
| "digest_pcrs pcrs (i # ns) ctx =
     and_then (slot_at pcrs i) (\<lambda>pcr. and_then (rd pcr 0 32) (\<lambda>v. digest_pcrs pcrs ns (ctx @ v)))"

definition parse_aggregate :: "digest \<Rightarrow> format_t \<Rightarrow> byte list list \<Rightarrow> nat list \<Rightarrow> string res" where
  \<open>parse_aggregate H f pcrs nums =
     and_then (digest_pcrs pcrs nums []) (\<lambda>ctx.
     let aggregate = H EVP_sha256 ctx in
     case f of
       FORMAT_JSON \<Rightarrow> and_then (print_data_no_lf aggregate 32 None) (\<lambda>v.
         Inr (''{'' @ nl @ tab @ ''"type":"TPM PCR Aggregate",'' @ nl @ tab @ ''"sha256":"'' @ v @ ''"'' @ nl @ ''}'' @ nl))
     | FORMAT_TEXT \<Rightarrow> and_then (print_data aggregate 32 None) (\<lambda>v. Inr (''PCR Aggregate: '' @ v)))\<close>

definition parse_report :: "digest \<Rightarrow> parse_opts \<Rightarrow> tcg_state \<Rightarrow> string res" where
  "parse_report H opts st =
     and_then (if p_eventlog opts then parse_event_log (p_format opts) (log (cb_evl st)) (p_pcrs opts) else Inr []) (\<lambda>t1.
     and_then (if p_summary opts then parse_summary (p_format opts) (calc_pcrs st) (p_pcrs opts) else Inr []) (\<lambda>t2.
     and_then (if p_aggregate opts then parse_aggregate H (p_format opts) (calc_pcrs st) (p_pcrs opts) else Inr []) (\<lambda>t3.
       Inr (t1 @ t2 @ t3))))"

definition parse_srtm_main :: "digest \<Rightarrow> (nat \<Rightarrow> byte) \<Rightarrow> filesys \<Rightarrow> string list \<Rightarrow> string res" where
  "parse_srtm_main H slack fs args =
     and_then (parse_options args) (\<lambda>opts.
     and_then (tpm_parse_eventlog H slack fs (case p_input opts of None \<Rightarrow> BIOS_MEASUREMENTS | Some f \<Rightarrow> f)
        (fresh_tcg_state (p_format opts) (p_pcrs opts))) (parse_report H opts))"

section \<open>The report replays the log\<close>

definition parsed_value_json :: "nat \<Rightarrow> byte list \<Rightarrow> string" where
  \<open>parsed_value_json i v =
     ''{'' @ nl @ tab @ ''"type":"TPM Reference Value",'' @ nl @ tab @ ''"subtype":"PCR Summary",''
       @ nl @ tab @ ''"pcr":'' @ dec i @ '','' @ nl @ tab @ ''"sha256":"'' @ hex_string v @ ''",''
       @ nl @ tab @ ''"description":"PCR'' @ dec i @ ''"'' @ nl @ ''}''\<close>

definition boot_value :: "digest \<Rightarrow> byte option \<Rightarrow> tcg_event list \<Rightarrow> nat \<Rightarrow> byte list" where
  "boot_value H loc es i = replay H EVP_sha256 (initial_pcr loc i) (pcr_digests i es)"

lemma parse_summary_json:
  assumes "\<And>i. i \<in> set ns \<Longrightarrow> slot_at pcrs i = Inr (v i) \<and> length (v i) = 32"
  shows "parse_summary FORMAT_JSON pcrs ns = Inr (json_array (map (\<lambda>i. parsed_value_json i (v i)) ns) @ nl)"
proof -
  have "print_objects (parse_summary_object pcrs) ns = Inr (join ('','' @ nl) (map (\<lambda>i. parsed_value_json i (v i)) ns))"
    by (rule print_objects_join)
      (use assms in \<open>simp add: parse_summary_object_def parsed_value_json_def print_data_no_lf_def\<close>)
  then show ?thesis by (simp add: parse_summary_def json_array_def)
qed

lemma digest_pcrs_values:
  "(\<And>i. i \<in> set ns \<Longrightarrow> slot_at pcrs i = Inr (v i) \<and> length (v i) = 32)
    \<Longrightarrow> digest_pcrs pcrs ns ctx = Inr (ctx @ concat (map v ns))"
  by (induction ns arbitrary: ctx) auto

text \<open>
  C3. The report of \<^verbatim>\<open>parse-srtm-pcrs\<close>, from the command line to the output: for a crypto-agile log
  with one digest per event, the JSON summary gives for each selected PCR the replay of the
  digests that the log holds for it, and the aggregate is the digest of these values.
\<close>

theorem parse_report_replays:
  assumes H: "digest_ok H" and args: "parse_options args = Inr opts"
    and nums: "\<And>n. n \<in> set (p_pcrs opts) \<Longrightarrow> n < MAX_PCRS" and s: "specid_ok spec"
    and es: "list_all (\<lambda>e. event_ok e \<and> one_digest e \<and> \<not> is_locality e) es"
    and f: "fs (case p_input opts of None \<Rightarrow> BIOS_MEASUREMENTS | Some f \<Rightarrow> f)
      = Some (specid_bytes spec @ concat (map event_bytes (startup_events loc @ es)))"
    and flags: "p_format opts = FORMAT_JSON" "\<not> p_eventlog opts" "p_summary opts" "p_aggregate opts"
  shows "parse_srtm_main H slack fs args = Inr
    (json_array (map (\<lambda>i. parsed_value_json i (boot_value H loc es i)) (p_pcrs opts)) @ nl
     @ aggregate_json (H EVP_sha256 (concat (map (boot_value H loc es) (p_pcrs opts)))))"
proof -
  have n: "list_all (\<lambda>n. n < MAX_PCRS) (p_pcrs opts)" using nums by (simp add: list_all_iff)
  obtain st where st: "tpm_parse_eventlog H slack fs (case p_input opts of None \<Rightarrow> BIOS_MEASUREMENTS | Some f \<Rightarrow> f)
      (fresh_tcg_state (p_format opts) (p_pcrs opts)) = Inr st"
    "\<forall>p \<in> {..<MAX_PCRS}. calc_pcrs st ! p = boot_value H loc es p" "length (calc_pcrs st) = MAX_PCRS"
    using boot_log_replay_aux [where spec = spec and loc = loc and es = es and fs = fs
        and name = "case p_input opts of None \<Rightarrow> BIOS_MEASUREMENTS | Some f \<Rightarrow> f", OF H n s es f, of slack "p_format opts"]
    unfolding boot_value_def by blast
  have v: "slot_at (calc_pcrs st) i = Inr (boot_value H loc es i) \<and> length (boot_value H loc es i) = 32"
    if "i \<in> set (p_pcrs opts)" for i
    using st(2,3) nums [OF that] H
    by (simp add: slot_at_def boot_value_def length_replay initial_pcr_def split: option.split)
  have "parse_aggregate H FORMAT_JSON (calc_pcrs st) (p_pcrs opts)
      = Inr (aggregate_json (H EVP_sha256 (concat (map (boot_value H loc es) (p_pcrs opts)))))"
    using H by (simp add: parse_aggregate_def digest_pcrs_values [OF v] print_data_no_lf_def aggregate_json_def)
  then show ?thesis
    using flags st(1) parse_summary_json [OF v] by (simp add: parse_srtm_main_def args parse_report_def)
qed

definition parse_sample_args :: "string list" where
  "parse_sample_args = [''-i'', ''log'', ''-p'', ''7,0'', ''-s'', ''-a'', ''-f'', ''json'']"

lemma parse_option_steps:
  "parse_option opts ''-i'' rest = value_of rest (\<lambda>v. Inr (opts\<lparr>p_input := Some v\<rparr>))"
  "parse_option opts ''-p'' rest = value_of rest (\<lambda>v. Inr (opts\<lparr>p_pcrs := p_pcrs opts @ number_list 32 v\<rparr>))"
  "parse_option opts ''-s'' rest = flag (opts\<lparr>p_summary := True\<rparr>)"
  "parse_option opts ''-e'' rest = flag (opts\<lparr>p_eventlog := True\<rparr>)"
  "parse_option opts ''-a'' rest = flag (opts\<lparr>p_aggregate := True\<rparr>)"
  "parse_option opts ''-f'' rest = value_of rest (\<lambda>v. and_then (format_of v) (\<lambda>f. Inr (opts\<lparr>p_format := f\<rparr>)))"
  by (simp_all add: parse_option_def)

lemma parse_sample_options: "parse_options parse_sample_args = Inr \<lparr>p_summary = True, p_eventlog = False,
  p_aggregate = True, p_pcrs = [7, 0], p_format = FORMAT_JSON, p_input = Some ''log''\<rparr>"
proof -
  have t: "strtok_all (\<lambda>c. c = CHR '','') ''7,0'' = [''7'', ''0'']" by (simp add: strtok_all_def)
  have d: "strtol 0 ''7'' = 7" "strtol 0 ''0'' = 0"
    by (simp_all add: strtol_def Let_def isspace_def digit_value_def is_digit_def hex_prefix_def)
  have n: "number_list 32 ''7,0'' = [7, 0]" by (simp add: number_list_def t d)
  show ?thesis
    by (simp add: parse_options_def parse_sample_args_def parse_option_steps n flag_def format_of_def parse_defaults_def check_def)
qed

theorem parse_report_replays_witness:
  "parse_srtm_main sum_digest (\<lambda>_. 0) [''log'' \<mapsto> specid_bytes sample_specid
        @ concat (map event_bytes (startup_events (Some 3) @ [sample_separator 0 1, sample_separator 7 2]))] parse_sample_args
    = Inr (json_array (map (\<lambda>i. parsed_value_json i (boot_value sum_digest (Some 3) [sample_separator 0 1, sample_separator 7 2] i)) [7, 0]) @ nl
     @ aggregate_json (sum_digest EVP_sha256 (concat (map (boot_value sum_digest (Some 3) [sample_separator 0 1, sample_separator 7 2]) [7, 0]))))"
proof -
  note r = parse_report_replays [where loc = "Some 3" and spec = sample_specid and es = "[sample_separator 0 1, sample_separator 7 2]"
      and fs = "[''log'' \<mapsto> specid_bytes sample_specid
        @ concat (map event_bytes (startup_events (Some 3) @ [sample_separator 0 1, sample_separator 7 2]))]",
      OF sum_digest_ok parse_sample_options _ sample_specid_ok]
  show ?thesis by (rule r [simplified parse_opts.simps option.case]) (auto simp: MAX_PCRS_def sample_separator_ok)
qed

text \<open>
  The two characters behind the last entry are removed in the text format too, where there
  is no comma: the last character of the last description is lost.
\<close>

lemma parse_text_log_truncated:
  assumes "i < length l" and "l ! i = Some (t @ [c] @ nl)"
  shows "parse_event_log FORMAT_TEXT l [i] = Inr (t @ nl)"
  using assms by (simp add: parse_event_log_def slot_at_def trim_last_def check_def nl_def)

section \<open>Numbers beyond the last PCR\<close>

definition safe_or_out :: "'a res \<Rightarrow> bool" where
  "safe_or_out r \<longleftrightarrow> r = Inl OutOfBounds \<or> (\<exists>x. r = Inr x)"

lemma safe_or_out_simps [simp]: "safe_or_out (Inr x)" "safe_or_out (Inl OutOfBounds)"
  by (simp_all add: safe_or_out_def)

lemma safe_or_out_and_then: "\<lbrakk>safe_or_out m; \<And>x. m = Inr x \<Longrightarrow> safe_or_out (f x)\<rbrakk> \<Longrightarrow> safe_or_out (and_then m f)"
  by (auto simp: safe_or_out_def)

lemma slot_at_safe [simp]: "safe_or_out (slot_at xs i)"
  by (simp add: slot_at_def)

lemma no_later_log_safe: "safe_or_out (no_later_log l ns)"
  by (induction l ns rule: no_later_log.induct) (auto intro!: safe_or_out_and_then)

lemma no_later_log_wide: "\<lbrakk>n \<in> set ns; length l \<le> n\<rbrakk> \<Longrightarrow> no_later_log l ns = Inl OutOfBounds"
proof (induction l ns rule: no_later_log.induct)
  case (2 l j ns)
  then show ?case using slot_at_safe [of l j] by (auto simp: slot_at_def)
qed simp

lemma parse_print_log_wide: "\<lbrakk>n \<in> set ns; length l \<le> n\<rbrakk> \<Longrightarrow> parse_print_log l ns = Inl OutOfBounds"
proof (induction l ns rule: parse_print_log.induct)
  case (2 l i ns)
  show ?case
  proof (cases "n \<in> set ns")
    case True
    then show ?thesis using 2(3) by (simp add: no_later_log_wide)
  next
    case False
    then have "slot_at l i = Inl OutOfBounds" using 2(2,3) by (simp add: slot_at_def)
    then show ?thesis using no_later_log_safe [of l ns] by (auto simp: safe_or_out_def)
  qed
qed simp

lemma print_objects_wide:
  "\<lbrakk>n \<in> set ns; obj n = Inl OutOfBounds; \<And>i. safe_or_out (obj i)\<rbrakk> \<Longrightarrow> print_objects obj ns = Inl OutOfBounds"
proof (induction obj ns rule: print_objects.induct)
  case (3 obj x y xs)
  then show ?case using 3(4) [of x] by (cases "obj x") (auto simp: safe_or_out_def)
qed auto

lemma print_all_wide:
  "\<lbrakk>n \<in> set ns; item n = Inl OutOfBounds; \<And>i. safe_or_out (item i)\<rbrakk> \<Longrightarrow> print_all item ns = Inl OutOfBounds"
proof (induction ns)
  case (Cons x ns)
  then show ?case using Cons.prems(3) [of x] by (cases "item x") (auto simp: safe_or_out_def)
qed simp

lemma slot_at_wide: "length xs \<le> n \<Longrightarrow> slot_at xs n = Inl OutOfBounds"
  by (simp add: slot_at_def)

lemma parse_summary_wide:
  assumes "n \<in> set ns" and "length pcrs \<le> n"
  shows "parse_summary f pcrs ns = Inl OutOfBounds"
proof -
  have "safe_or_out (parse_summary_object pcrs i)" "safe_or_out (parse_summary_line pcrs i)" for i
    by (auto simp: parse_summary_object_def parse_summary_line_def print_data_no_lf_def print_data_def rd_def
        intro!: safe_or_out_and_then)
  then have "print_objects (parse_summary_object pcrs) ns = Inl OutOfBounds"
    "print_all (parse_summary_line pcrs) ns = Inl OutOfBounds"
    using assms slot_at_wide [OF assms(2)]
    by (auto simp: parse_summary_object_def parse_summary_line_def intro: print_objects_wide print_all_wide)
  then show ?thesis by (simp add: parse_summary_def split: format_t.split)
qed

lemma digest_pcrs_wide: "\<lbrakk>n \<in> set ns; length pcrs \<le> n\<rbrakk> \<Longrightarrow> digest_pcrs pcrs ns ctx = Inl OutOfBounds"
  by (induction pcrs ns ctx rule: digest_pcrs.induct) (auto simp: slot_at_def rd_def)

text \<open>
  C26. PCR numbers are not checked against the 24 registers: whatever log the program parses
  successfully, its state keeps 24 log slots and 24 values of 32 bytes, so every output that
  was asked for with a number from 24 on reads outside these arrays. The failure of the
  parser, if any, comes first.
\<close>

theorem parse_pcr_out_of_range:
  assumes args: "parse_options args = Inr opts" and n: "n \<in> set (p_pcrs opts)" "MAX_PCRS \<le> n"
    and out: "p_eventlog opts \<or> p_summary opts \<or> p_aggregate opts"
  shows "parse_srtm_main H slack fs args =
    (case tpm_parse_eventlog H slack fs (case p_input opts of None \<Rightarrow> BIOS_MEASUREMENTS | Some f \<Rightarrow> f)
       (fresh_tcg_state (p_format opts) (p_pcrs opts)) of
       Inl e \<Rightarrow> Inl e
     | Inr st \<Rightarrow> Inl OutOfBounds)"
proof -
  have "parse_report H opts st = Inl OutOfBounds"
    if p: "tpm_parse_eventlog H slack fs name (fresh_tcg_state (p_format opts) (p_pcrs opts)) = Inr st" for name st
  proof -
    have "shape_ok (p_format opts) (p_pcrs opts) (fresh_tcg_state (p_format opts) (p_pcrs opts))"
      by (simp add: shape_ok_def fresh_tcg_state_def empty_log_def)
    then have "shape_ok (p_format opts) (p_pcrs opts) st" by (rule tpm_parse_eventlog_shape [OF p])
    then have l: "length (log (cb_evl st)) \<le> n" "length (calc_pcrs st) \<le> n"
      using n(2) by (simp_all add: shape_ok_def)
    show ?thesis
      using out parse_print_log_wide [OF n(1) l(1)] parse_summary_wide [OF n(1) l(2)] digest_pcrs_wide [OF n(1) l(2)]
      by (auto simp: parse_report_def parse_event_log_def parse_aggregate_def)
  qed
  then show ?thesis by (simp add: parse_srtm_main_def args and_then_def split: sum.split)
qed

text \<open>A log of the old format whose only event is an empty one for PCR 0.\<close>

lemma zero_log_parsed:
  assumes "0 \<notin> set nums"
  shows "\<exists>st. tpm_parse_eventlog H slack [f \<mapsto> replicate 32 0] f (fresh_tcg_state form nums) = Inr st"
proof -
  obtain post where r: "read_log slack [] (replicate 32 0) = (replicate 32 0 @ post, 32)"
    using read_log_contents [of slack "[]" "replicate 32 0"] by auto
  define m where "m = replicate 32 (0 :: byte) @ post"
  have m: "rd m i n = Inr (replicate n 0)" if "i + n \<le> 32" for i n
    using that by (simp add: rd_def m_def)
  have z: "rd32 m 0 = Inr 0" "rd32 m 4 = Inr 0" "rd32 m 28 = Inr 0" "rd m 8 20 = Inr (replicate 20 0)"
    by (simp_all add: rd32_def m)
  have b: "sha1_body 0 32 ((fresh_tcg_state form nums)\<lparr>mem := m\<rparr>) = Inr (32, (fresh_tcg_state form nums)\<lparr>mem := m\<rparr>)"
    using assms by (simp add: sha1_body_def parse_sha1_log_event_def z check_def event_header_cb_def add_evlog_def
        contains_def fresh_tcg_state_def parse_event2body_def event_data_cb_def event_type_defs)
  have "foreach_sha1_log_event 0 32 ((fresh_tcg_state form nums)\<lparr>mem := m\<rparr>) = Inr ((fresh_tcg_state form nums)\<lparr>mem := m\<rparr>)"
    by (subst foreach_sha1_log_event.simps) (simp add: b foreach_sha1_log_event.simps [of _ 0])
  then have "parse_eventlog H 32 ((fresh_tcg_state form nums)\<lparr>mem := m\<rparr>) = Inr ((fresh_tcg_state form nums)\<lparr>mem := m\<rparr>)"
    by (simp add: parse_eventlog_def z check_def event_type_defs)
  then show ?thesis by (simp add: tpm_parse_eventlog_def r m_def)
qed

theorem parse_pcr_out_of_range_witness:
  "parse_srtm_main sum_digest (\<lambda>_. 0) [''log'' \<mapsto> replicate 32 0] [''-i'', ''log'', ''-p'', ''7'', ''-p'', ''24'', ''-s'']
   = Inl OutOfBounds"
proof -
  have t: "strtok_all (\<lambda>c. c = CHR '','') ''7'' = [''7'']" "strtok_all (\<lambda>c. c = CHR '','') ''24'' = [''24'']"
    by (simp_all add: strtok_all_def)
  have d: "strtol 0 ''7'' = 7" "strtol 0 ''24'' = 24"
    by (simp_all add: strtol_def Let_def isspace_def digit_value_def is_digit_def hex_prefix_def)
  have nn: "number_list 32 ''7'' = [7]" "number_list 32 ''24'' = [24]" by (simp_all add: number_list_def t d)
  have opts: "parse_options [''-i'', ''log'', ''-p'', ''7'', ''-p'', ''24'', ''-s''] = Inr \<lparr>p_summary = True, p_eventlog = False,
    p_aggregate = False, p_pcrs = [7, 24], p_format = FORMAT_TEXT, p_input = Some ''log''\<rparr>"
    by (simp add: parse_options_def parse_option_steps nn flag_def parse_defaults_def check_def)
  obtain st where "tpm_parse_eventlog sum_digest (\<lambda>_. 0) [''log'' \<mapsto> replicate 32 0] ''log''
      (fresh_tcg_state FORMAT_TEXT [7, 24]) = Inr st"
    using zero_log_parsed [of "[7, 24]"] by fastforce
  then show ?thesis
    using parse_pcr_out_of_range [OF opts, of 24 sum_digest "\<lambda>_. 0" "[''log'' \<mapsto> replicate 32 0]"]
    by (simp add: MAX_PCRS_def)
qed

end
