(* ===== verification/BootCheck.thy ===== *)
theory BootCheck
  imports ParseSrtm
begin

text \<open>
  What the two programs for TPM registers are for: the summary that \<^verbatim>\<open>parse-srtm-pcrs\<close> prints for
  the log of a boot is compared with the one that \<^verbatim>\<open>calculate-srtm-pcrs\<close> computes from the
  artifacts. In the text format the two are the same text exactly when the registers agree.
\<close>

section \<open>Text summaries\<close>

definition value_line :: "nat \<Rightarrow> byte list \<Rightarrow> string" where
  "value_line i v = ''PCR'' @ dec i @ '': '' @ hex_string_upper v @ nl"

definition text_summary :: "(nat \<Rightarrow> byte list) \<Rightarrow> nat list \<Rightarrow> string" where
  "text_summary v ns = concat (map (\<lambda>i. value_line i (v i)) ns)"

definition text_aggregate :: "digest \<Rightarrow> (nat \<Rightarrow> byte list) \<Rightarrow> nat list \<Rightarrow> string" where
  "text_aggregate H v ns = ''PCR Aggregate: '' @ hex_string_upper (H EVP_sha256 (concat (map v ns))) @ nl"

lemma srtm_summary_text:
  assumes "\<And>i. i \<in> set ns \<Longrightarrow> pcrs ! i = v i \<and> length (v i) = 32"
  shows "srtm_summary FORMAT_TEXT pcrs ns = Inr (text_summary v ns)"
proof -
  have "print_all (srtm_summary_line pcrs) ns = Inr (concat (map (\<lambda>i. value_line i (v i)) ns))"
    by (rule print_all_concat) (use assms in \<open>simp add: srtm_summary_line_def value_line_def print_data_def\<close>)
  then show ?thesis by (simp add: srtm_summary_def text_summary_def)
qed

lemma parse_summary_text:
  assumes "\<And>i. i \<in> set ns \<Longrightarrow> slot_at pcrs i = Inr (v i) \<and> length (v i) = 32"
  shows "parse_summary FORMAT_TEXT pcrs ns = Inr (text_summary v ns)"
proof -
  have "print_all (parse_summary_line pcrs) ns = Inr (concat (map (\<lambda>i. value_line i (v i)) ns))"
    by (rule print_all_concat) (use assms in \<open>simp add: parse_summary_line_def value_line_def print_data_def\<close>)
  then show ?thesis by (simp add: parse_summary_def text_summary_def)
qed

lemma udigit_inject: "\<lbrakk>a < 16; b < 16; udigit a = udigit b\<rbrakk> \<Longrightarrow> a = b"
proof -
  assume "a < 16" "b < 16" "udigit a = udigit b"
  then have "a \<in> {0, 1, 2, 3, 4, 5, 6, 7, 8, 9, 10, 11, 12, 13, 14, 15}"
    "b \<in> {0, 1, 2, 3, 4, 5, 6, 7, 8, 9, 10, 11, 12, 13, 14, 15}"
    unfolding insert_iff empty_iff by presburger+
  then show "a = b" using \<open>udigit a = udigit b\<close>
    by (elim insertE emptyE) (simp_all add: udigit_def)
qed

lemma hex2_upper_inject: "hex2_upper a = hex2_upper b \<Longrightarrow> a = b"
proof -
  assume e: "hex2_upper a = hex2_upper b"
  have n: "unat x div 16 < 16" "unat x mod 16 < 16" for x :: byte
  proof -
    have "unat x < 256" using unsigned_less [of x, where 'a = nat] by simp
    then show "unat x div 16 < 16" by (intro less_mult_imp_div_less) simp
    show "unat x mod 16 < 16" by simp
  qed
  have "unat a div 16 = unat b div 16" "unat a mod 16 = unat b mod 16"
    using e n udigit_inject by (auto simp: hex2_upper_def)
  then have "unat a = unat b" by (metis div_mult_mod_eq)
  then show "a = b" by (rule unsigned_word_eqI)
qed

lemma hex_string_upper_inject:
  "\<lbrakk>length a = length b; hex_string_upper a = hex_string_upper b\<rbrakk> \<Longrightarrow> a = b"
proof (induction a b rule: list_induct2)
  case (Cons x xs y ys)
  have l: "length (hex2_upper x) = length (hex2_upper y)" by (simp add: hex2_upper_def)
  have "hex2_upper x = hex2_upper y" "hex_string_upper xs = hex_string_upper ys"
    using Cons.prems append_eq_append_conv [OF disjI1 [OF l]] by (simp_all add: hex_string_upper_def)
  then show ?case using Cons.IH hex2_upper_inject by simp
qed simp

lemma length_hex_upper: "length (hex_string_upper v) = 2 * length v"
  by (induction v) (simp_all add: hex_string_upper_def hex2_upper_def)

lemma text_summary_inject:
  assumes "\<And>i. i \<in> set ns \<Longrightarrow> length (v i) = 32 \<and> length (w i) = 32"
  shows "text_summary v ns @ x = text_summary w ns @ y \<longleftrightarrow> (\<forall>i\<in>set ns. v i = w i) \<and> x = y"
  using assms
proof (induction ns)
  case (Cons i ns)
  have l: "length (value_line i (v i)) = length (value_line i (w i))"
    using Cons.prems by (simp add: value_line_def length_hex_upper)
  have "value_line i (v i) = value_line i (w i) \<longleftrightarrow> v i = w i"
    using Cons.prems hex_string_upper_inject [of "v i" "w i"] by (auto simp: value_line_def)
  then show ?case using Cons append_eq_append_conv [OF disjI1 [OF l]] by (auto simp: text_summary_def)
qed (simp add: text_summary_def)

section \<open>The comparison\<close>

lemma srtm_text_report:
  assumes H: "digest_ok (e_digest E)" and args: "srtm_options (files_of E) args = Inr opts"
    and stack: "length stack = MAX_PCRS" and ok: "\<And>i. i \<in> set (s_pcrs opts) \<Longrightarrow> srtm_ok E opts i"
    and flags: "s_format opts = FORMAT_TEXT" "\<not> s_eventlog opts" "s_summary opts"
  shows "srtm_main E stack args = Inr (text_summary (pcr_value E opts) (s_pcrs opts)
    @ (if s_aggregate opts then text_aggregate (e_digest E) (pcr_value E opts) (s_pcrs opts) else []))"
proof -
  obtain r where r: "srtm_calculate E opts (empty_log (s_format opts) MAX_PCRS, stack) = Inr r" "calculated E opts 10 r"
    using srtm_calculate_calculated [OF H ok stack] by blast
  note vals = calculated_values [OF r(2) ok H]
  have "print_aggregate (e_digest E) FORMAT_TEXT (snd r) (s_pcrs opts)
      = Inr (text_aggregate (e_digest E) (pcr_value E opts) (s_pcrs opts))"
    using H by (simp add: print_aggregate_def md_update_values [OF vals] print_data_def text_aggregate_def)
  then show ?thesis
    using flags r(1) srtm_summary_text [OF vals]
    by (simp add: srtm_main_def args [unfolded files_of_def] srtm_checks_ok [OF ok] srtm_report_def)
qed

lemma length_boot_value: "digest_ok H \<Longrightarrow> length (boot_value H loc es i) = 32"
  by (simp add: boot_value_def length_replay initial_pcr_def split: option.split)

lemma parse_text_report:
  assumes H: "digest_ok H" and args: "parse_options args = Inr opts"
    and nums: "\<And>n. n \<in> set (p_pcrs opts) \<Longrightarrow> n < MAX_PCRS" and s: "specid_ok spec"
    and es: "list_all (\<lambda>e. event_ok e \<and> one_digest e \<and> \<not> is_locality e) es"
    and f: "fs (case p_input opts of None \<Rightarrow> BIOS_MEASUREMENTS | Some f \<Rightarrow> f)
      = Some (specid_bytes spec @ concat (map event_bytes (startup_events loc @ es)))"
    and flags: "p_format opts = FORMAT_TEXT" "\<not> p_eventlog opts" "p_summary opts"
  shows "parse_srtm_main H slack fs args = Inr (text_summary (boot_value H loc es) (p_pcrs opts)
    @ (if p_aggregate opts then text_aggregate H (boot_value H loc es) (p_pcrs opts) else []))"
proof -
  have n: "list_all (\<lambda>n. n < MAX_PCRS) (p_pcrs opts)" using nums by (simp add: list_all_iff)
  obtain st where st: "tpm_parse_eventlog H slack fs (case p_input opts of None \<Rightarrow> BIOS_MEASUREMENTS | Some f \<Rightarrow> f)
      (fresh_tcg_state (p_format opts) (p_pcrs opts)) = Inr st"
    "\<forall>p \<in> {..<MAX_PCRS}. calc_pcrs st ! p = boot_value H loc es p" "length (calc_pcrs st) = MAX_PCRS"
    using boot_log_replay_aux [where spec = spec and loc = loc and es = es and fs = fs
        and name = "case p_input opts of None \<Rightarrow> BIOS_MEASUREMENTS | Some f \<Rightarrow> f", OF H n s es f, of slack "p_format opts"]
    unfolding boot_value_def by blast
  have v: "slot_at (calc_pcrs st) i = Inr (boot_value H loc es i) \<and> length (boot_value H loc es i) = 32"
    if "i \<in> set (p_pcrs opts)" for i
    using st(2,3) nums [OF that] H by (simp add: slot_at_def length_boot_value)
  have "parse_aggregate H FORMAT_TEXT (calc_pcrs st) (p_pcrs opts) = Inr (text_aggregate H (boot_value H loc es) (p_pcrs opts))"
    using H by (simp add: parse_aggregate_def digest_pcrs_values [OF v] print_data_def text_aggregate_def)
  then show ?thesis
    using flags st(1) parse_summary_text [OF v] by (simp add: parse_srtm_main_def args parse_report_def)
qed

text \<open>
  C4. The programs agree on a boot exactly when the registers do. \<^verbatim>\<open>calculate-srtm-pcrs\<close> on the
  artifacts and \<^verbatim>\<open>parse-srtm-pcrs\<close> on the log of a boot, asked for the same registers in the text
  format, print the same text if and only if for each selected register the replay of the log
  is the calculated value; in particular they do so if the log holds, behind no startup
  locality other than 0, the digests of the expected events in their order.
\<close>

theorem srtm_tools_agree:
  assumes H: "digest_ok (e_digest E)" and cargs: "srtm_options (files_of E) cargs = Inr copts"
    and stack: "length stack = MAX_PCRS" and ok: "\<And>i. i \<in> set (s_pcrs copts) \<Longrightarrow> srtm_ok E copts i"
    and cflags: "s_format copts = FORMAT_TEXT" "\<not> s_eventlog copts" "s_summary copts"
    and pargs: "parse_options pargs = Inr popts" and s: "specid_ok spec"
    and es: "list_all (\<lambda>e. event_ok e \<and> one_digest e \<and> \<not> is_locality e) es"
    and f: "fs (case p_input popts of None \<Rightarrow> BIOS_MEASUREMENTS | Some f \<Rightarrow> f)
      = Some (specid_bytes spec @ concat (map event_bytes (startup_events loc @ es)))"
    and pflags: "p_format popts = FORMAT_TEXT" "\<not> p_eventlog popts" "p_summary popts"
    and same: "p_pcrs popts = s_pcrs copts" "p_aggregate popts = s_aggregate copts"
  shows "(parse_srtm_main (e_digest E) slack fs pargs = srtm_main E stack cargs
      \<longleftrightarrow> (\<forall>i\<in>set (s_pcrs copts). boot_value (e_digest E) loc es i = pcr_value E copts i))
    \<and> ((loc = None \<or> loc = Some 0)
        \<and> (\<forall>i\<in>set (s_pcrs copts). pcr_digests i es = map (fst \<circ> snd) (srtm_events E copts i))
      \<longrightarrow> parse_srtm_main (e_digest E) slack fs pargs = srtm_main E stack cargs)"
proof -
  let ?H = "e_digest E" and ?ns = "s_pcrs copts"
  let ?b = "boot_value ?H loc es" and ?c = "pcr_value E copts"
  have nums: "\<And>n. n \<in> set (p_pcrs popts) \<Longrightarrow> n < MAX_PCRS"
    using srtm_ok_le [OF ok] by (fastforce simp: same MAX_PCRS_def)
  note reports = parse_text_report [where fs = fs and slack = slack and loc = loc, OF H pargs nums s es f pflags]
    srtm_text_report [OF H cargs stack ok cflags]
  have len: "length (?b i) = 32 \<and> length (?c i) = 32" for i
    by (simp add: length_boot_value length_pcr_value H)
  have agg: "text_aggregate ?H ?b ?ns = text_aggregate ?H ?c ?ns" if "\<forall>i\<in>set ?ns. ?b i = ?c i"
    using that by (simp add: text_aggregate_def cong: map_cong)
  have iff: "parse_srtm_main ?H slack fs pargs = srtm_main E stack cargs \<longleftrightarrow> (\<forall>i\<in>set ?ns. ?b i = ?c i)"
    using reports agg text_summary_inject [of ?ns ?b ?c] len by (auto simp: same)
  have z: "zeros 31 @ [0] = zeros 32" using replicate_add [of 31 1 "0 :: byte"] by (simp add: zeros_def)
  have "?b i = ?c i"
    if "loc = None \<or> loc = Some 0" "pcr_digests i es = map (fst \<circ> snd) (srtm_events E copts i)" for i
    using that z by (auto simp: boot_value_def pcr_value_def initial_pcr_def)
  with iff show ?thesis by blast
qed

text \<open>
  A boot without drivers whose log holds the separators of PCR 2 and PCR 3 (and an event in
  PCR 7, which is not asked for).
\<close>

definition boot_copts :: srtm_opts where
  "boot_copts = srtm_defaults\<lparr>s_pcrs := [3, 2], s_summary := True, s_aggregate := True, s_boot_order := [0]\<rparr>"

definition boot_popts :: parse_opts where
  "boot_popts = \<lparr>p_summary = True, p_eventlog = False, p_aggregate = True, p_pcrs = [3, 2], p_format = FORMAT_TEXT,
     p_input = Some ''log''\<rparr>"

definition measured_separator :: "nat \<Rightarrow> tcg_event" where
  "measured_separator p = (p, 4, [(TPM2_ALG_SHA256, sum_digest EVP_sha256 (zeros 4))], zeros 4)"

definition boot_events :: "tcg_event list" where
  "boot_events = [measured_separator 2, sample_separator 7 1, measured_separator 3]"

lemma boot_options:
  "srtm_options fs [''-p'', ''3,2'', ''-s'', ''-a''] = Inr boot_copts"
  "parse_options [''-p'', ''3,2'', ''-s'', ''-a'', ''-i'', ''log''] = Inr boot_popts"
proof -
  have t: "strtok_all (\<lambda>c. c = CHR '','') ''3,2'' = [''3'', ''2'']" by (simp add: strtok_all_def)
  have d: "strtol 0 ''3'' = 3" "strtol 0 ''2'' = 2"
    by (simp_all add: strtol_def Let_def isspace_def digit_value_def is_digit_def hex_prefix_def)
  have n: "number_list 32 ''3,2'' = [3, 2]" by (simp add: number_list_def t d)
  have a: "srtm_option fs opts ''-a'' rest = flag (opts\<lparr>s_aggregate := True\<rparr>)" for opts rest
    by (simp add: srtm_option_def)
  show "srtm_options fs [''-p'', ''3,2'', ''-s'', ''-a''] = Inr boot_copts"
    by (simp add: srtm_options_def boot_copts_def summary_option a n flag_def srtm_defaults_def)
  show "parse_options [''-p'', ''3,2'', ''-s'', ''-a'', ''-i'', ''log''] = Inr boot_popts"
    by (simp add: parse_options_def boot_popts_def parse_option_steps n flag_def parse_defaults_def check_def)
qed

lemma measured_separator_ok:
  "p < 24 \<Longrightarrow> event_ok (measured_separator p) \<and> one_digest (measured_separator p) \<and> \<not> is_locality (measured_separator p)"
  by (simp add: measured_separator_def event_ok_def header_ok_def event_wf_def data_ok_def is_locality_def one_digest_def
      is_variable_def is_blob_def is_image_def event_type_defs get_hash_size_def TPM2_ALG_SHA1_def TPM2_ALG_SHA256_def
      length_digest [OF sum_digest_ok])

lemma boot_digests:
  "i = 3 \<or> i = 2 \<Longrightarrow> srtm_ok sample_env boot_copts i
    \<and> pcr_digests i boot_events = map (fst \<circ> snd) (srtm_events sample_env boot_copts i)"
  by (auto simp: srtm_ok_def srtm_events_def pcr2_events_def boot_copts_def srtm_defaults_def sample_env_def
      pcr_digests_def boot_events_def measured_separator_def sample_separator_def separator_event_def sha256_of_def
      event_type_defs)

theorem srtm_tools_agree_witness:
  "parse_srtm_main sum_digest (\<lambda>_. 0)
      [''log'' \<mapsto> specid_bytes sample_specid @ concat (map event_bytes (startup_events (Some 0) @ boot_events))]
      [''-p'', ''3,2'', ''-s'', ''-a'', ''-i'', ''log'']
    = srtm_main sample_env (replicate 24 []) [''-p'', ''3,2'', ''-s'', ''-a'']"
proof -
  have H: "digest_ok (e_digest sample_env)" "e_digest sample_env = sum_digest"
    by (simp_all add: sample_env_def sum_digest_ok)
  have c: "s_pcrs boot_copts = [3, 2]" "s_format boot_copts = FORMAT_TEXT" "\<not> s_eventlog boot_copts" "s_summary boot_copts"
    "s_aggregate boot_copts"
    by (simp_all add: boot_copts_def srtm_defaults_def)
  have p: "p_pcrs boot_popts = [3, 2]" "p_format boot_popts = FORMAT_TEXT" "\<not> p_eventlog boot_popts" "p_summary boot_popts"
    "p_aggregate boot_popts" "p_input boot_popts = Some ''log''"
    by (simp_all add: boot_popts_def)
  have es: "list_all (\<lambda>e. event_ok e \<and> one_digest e \<and> \<not> is_locality e) boot_events"
    using measured_separator_ok sample_separator_ok by (simp add: boot_events_def)
  note agree = srtm_tools_agree [where E = sample_env and stack = "replicate 24 []" and slack = "\<lambda>_. 0"
      and fs = "[''log'' \<mapsto> specid_bytes sample_specid @ concat (map event_bytes (startup_events (Some 0) @ boot_events))]"
      and spec = sample_specid and loc = "Some 0" and es = boot_events, OF H(1) boot_options(1) _ _ c(2-4) boot_options(2)
      sample_specid_ok es _ p(2-4)]
  have "\<And>i. i \<in> set (s_pcrs boot_copts) \<Longrightarrow> srtm_ok sample_env boot_copts i"
    using boot_digests by (auto simp: c(1))
  from agree [OF _ this] show ?thesis
    using boot_digests by (simp add: c p H(2) MAX_PCRS_def)
qed

end
