(* ===== verification/TpmMachine.thy ===== *)
theory TpmMachine
  imports TcgShape TcgSpec
begin

text \<open>
  The registers of a TPM as a machine: a step extends a register with a digest, or writes the
  startup locality into register 0. The boot log parser simulates it on every input it
  accepts, however malformed; where it gives the machine a step that a TPM cannot take is
  stated last.
\<close>

section \<open>The machine\<close>

inductive tpm_step :: "digest \<Rightarrow> byte list list \<Rightarrow> byte list list \<Rightarrow> bool" for H where
  extend_step: "\<lbrakk>p < MAX_PCRS; length d = 32\<rbrakk>
    \<Longrightarrow> tpm_step H pcrs (pcrs[p := Hash.extend H EVP_sha256 (pcrs ! p) d])"
| locality_step: "tpm_step H pcrs (pcrs[0 := (pcrs ! 0)[31 := l]])"

inductive tpm_reachable :: "digest \<Rightarrow> byte list list \<Rightarrow> bool" for H where
  reset: "tpm_reachable H (replicate MAX_PCRS (zeros 32))"
| step: "\<lbrakk>tpm_reachable H pcrs; tpm_step H pcrs pcrs'\<rbrakk> \<Longrightarrow> tpm_reachable H pcrs'"

inductive_cases tpm_stepE: "tpm_step H pcrs pcrs'"

text \<open>A register other than the first has the value of a replay from zero.\<close>

definition replayed :: "digest \<Rightarrow> byte list list \<Rightarrow> nat \<Rightarrow> bool" where
  "replayed H pcrs p \<longleftrightarrow> (\<exists>ds. list_all (\<lambda>d. length d = 32) ds \<and> pcrs ! p = replay H EVP_sha256 (zeros 32) ds)"

lemma replayed_extend:
  assumes "replayed H pcrs p" and "length d = 32"
  shows "\<exists>ds. list_all (\<lambda>d. length d = 32) ds
    \<and> Hash.extend H EVP_sha256 (pcrs ! p) d = replay H EVP_sha256 (zeros 32) ds"
proof -
  obtain ds where "list_all (\<lambda>d. length d = 32) ds" "pcrs ! p = replay H EVP_sha256 (zeros 32) ds"
    using assms(1) by (auto simp: replayed_def)
  then have "list_all (\<lambda>d. length d = 32) (ds @ [d])"
    "Hash.extend H EVP_sha256 (pcrs ! p) d = replay H EVP_sha256 (zeros 32) (ds @ [d])"
    using assms(2) by (simp_all add: replay_def)
  then show ?thesis by blast
qed

lemma tpm_step_invariant:
  assumes "tpm_step H pcrs pcrs'" and "length pcrs = MAX_PCRS" and "\<forall>p\<in>{1..<MAX_PCRS}. replayed H pcrs p"
  shows "length pcrs' = MAX_PCRS \<and> (\<forall>p\<in>{1..<MAX_PCRS}. replayed H pcrs' p)"
  using assms(1)
proof (rule tpm_stepE)
  fix p d
  assume p: "p < MAX_PCRS" "length d = 32" and e: "pcrs' = pcrs[p := Hash.extend H EVP_sha256 (pcrs ! p) d]"
  have "replayed H pcrs' q" if q: "q \<in> {1..<MAX_PCRS}" for q
  proof (cases "q = p")
    case True
    then show ?thesis
      using replayed_extend [of H pcrs p d] assms(2,3) p q by (simp add: e replayed_def [of _ "pcrs[_ := _]"])
  qed (use assms(3) q in \<open>simp add: e replayed_def\<close>)
  then show ?thesis using assms(2) by (simp add: e)
next
  fix l
  assume "pcrs' = pcrs[0 := (pcrs ! 0)[31 := l]]"
  then show ?thesis using assms(2,3) by (simp add: replayed_def)
qed

lemma reachable_replayed:
  "tpm_reachable H pcrs \<Longrightarrow> length pcrs = MAX_PCRS \<and> (\<forall>p\<in>{1..<MAX_PCRS}. replayed H pcrs p)"
proof (induction rule: tpm_reachable.induct)
  case reset
  have "replayed H (replicate MAX_PCRS (zeros 32)) p" if "p \<in> {1..<MAX_PCRS}" for p
    using that unfolding replayed_def by (intro exI [of _ "[]"]) (simp add: replay_def)
  then show ?case by simp
next
  case (step pcrs pcrs')
  then show ?case using tpm_step_invariant by blast
qed

section \<open>The parser simulates the machine\<close>

interpretation tpm: register_invariant H "\<lambda>pcrs. digest_ok H \<longrightarrow> tpm_reachable H pcrs"
proof unfold_locales
  fix pcrs p x v
  assume I: "digest_ok H \<longrightarrow> tpm_reachable H pcrs" and l: "length pcrs = MAX_PCRS" "p < MAX_PCRS"
    and x: "length (pcrs ! p) = 32" "hash_extend H EVP_sha256 (pcrs ! p) x 32 = Inr v"
  show "digest_ok H \<longrightarrow> tpm_reachable H (pcrs[p := v])"
  proof
    assume H: "digest_ok H"
    have "v = Hash.extend H EVP_sha256 (pcrs ! p) (take 32 x)" "length (take 32 x) = 32"
      using x H by (auto simp: hash_extend_def Hash.extend_def res_simps)
    then show "tpm_reachable H (pcrs[p := v])"
      using I H l by (metis tpm_reachable.step tpm_step.extend_step)
  qed
qed (blast intro: tpm_reachable.step tpm_step.locality_step)

lemma fresh_shape: "shape_ok f nums (fresh_tcg_state f nums)"
  by (simp add: shape_ok_def fresh_tcg_state_def empty_log_def)

text \<open>
  C8. Whatever bytes a boot log consists of: if the parser accepts it, its register values are
  reachable by the steps of the machine, so each value it reports for PCR 1 to 23 is the
  replay, from zero, of some digests of 32 bytes.
\<close>

theorem accepted_log_reachable:
  assumes H: "digest_ok H"
    and parsed: "tpm_parse_eventlog H slack fs name (fresh_tcg_state form nums) = Inr st"
  shows "tpm_reachable H (calc_pcrs st) \<and> (\<forall>p\<in>{1..<MAX_PCRS}. replayed H (calc_pcrs st) p)"
proof -
  have "shape_ok form nums (fresh_tcg_state form nums)
      \<and> (digest_ok H \<longrightarrow> tpm_reachable H (calc_pcrs (fresh_tcg_state form nums)))"
    using fresh_shape by (simp add: fresh_tcg_state_def tpm_reachable.reset)
  then have "tpm_reachable H (calc_pcrs st)"
    using tpm.tpm_parse_eventlog_keeps [OF parsed] H by blast
  then show ?thesis using reachable_replayed by blast
qed

definition sample_log :: "byte list" where
  "sample_log = specid_bytes sample_specid @ concat (map event_bytes (startup_events (Some 3) @ [sample_separator 7 2]))"

lemma sample_log_parsed:
  "\<exists>st. tpm_parse_eventlog sum_digest (\<lambda>_. 0) [''log'' \<mapsto> sample_log] ''log'' (fresh_tcg_state FORMAT_JSON [7]) = Inr st"
  using boot_log_replay_aux [where spec = sample_specid and loc = "Some 3" and es = "[sample_separator 7 2]"
      and fs = "[''log'' \<mapsto> sample_log]" and name = "''log''" and nums = "[7]" and form = FORMAT_JSON
      and slack = "\<lambda>_. 0", OF sum_digest_ok _ sample_specid_ok]
  by (auto simp: MAX_PCRS_def sample_separator_ok sample_log_def)

theorem accepted_log_reachable_witness:
  "\<exists>st. tpm_parse_eventlog sum_digest (\<lambda>_. 0) [''log'' \<mapsto> sample_log] ''log'' (fresh_tcg_state FORMAT_JSON [7]) = Inr st
    \<and> tpm_reachable sum_digest (calc_pcrs st) \<and> (\<forall>p\<in>{1..<MAX_PCRS}. replayed sum_digest (calc_pcrs st) p)"
proof -
  obtain st where st: "tpm_parse_eventlog sum_digest (\<lambda>_. 0) [''log'' \<mapsto> sample_log] ''log''
      (fresh_tcg_state FORMAT_JSON [7]) = Inr st"
    using sample_log_parsed by blast
  show ?thesis using st accepted_log_reachable [OF sum_digest_ok st] by blast
qed

section \<open>A late startup locality\<close>

text \<open>
  C39. A startup locality event counts wherever it stands in the log: behind any events it
  replaces the last byte of the value that PCR 0 has been extended to, which no extension of
  a TPM does, so whoever appends it chooses that byte of the result.
\<close>

theorem late_locality_overwrites:
  assumes H: "digest_ok H" and nums: "list_all (\<lambda>n. n < MAX_PCRS) nums" and s: "specid_ok spec"
    and es: "list_all (\<lambda>e. event_ok e \<and> one_digest e \<and> \<not> is_locality e) es"
    and f: "fs name = Some (specid_bytes spec @ concat (map event_bytes (es @ startup_events (Some l))))"
  shows "\<exists>st. tpm_parse_eventlog H slack fs name (fresh_tcg_state form nums) = Inr st
    \<and> calc_pcrs st ! 0 = (replay H EVP_sha256 (zeros 32) (pcr_digests 0 es))[31 := l]"
proof -
  let ?z = "replicate MAX_PCRS (zeros 32)" and ?es = "es @ startup_events (Some l)"
  have ok: "list_all event_ok ?es" using startup_ok [of "Some l"] es by (auto simp: list_all_iff)
  have wf: "list_all (\<lambda>e. event_wf e \<and> one_digest e \<and> \<not> is_locality e) es"
    using es by (simp add: list_all_iff event_ok_def header_ok_def)
  obtain st where st: "tpm_parse_eventlog H slack fs name (fresh_tcg_state form nums) = Inr st"
    "calc_pcrs st = fold (event_effect H) ?es ?z"
    using boot_log_parsed [OF H nums s ok, of fs name slack form] f by blast
  have eff: "event_effect H (hd (startup_events (Some l))) pcrs ! 0 = (pcrs ! 0)[31 := l]" if "length pcrs = 24" for pcrs
    using that by (simp add: startup_events_def event_effect_def locality_effect_def is_locality_def sha256_of_def
        STARTUP_LOCALITY_SIGNATURE_def replay_def bytes_of_def)
  have z: "length ?z = 24" by (simp add: MAX_PCRS_def)
  have "fold (event_effect H) es ?z ! 0 = replay H EVP_sha256 (zeros 32) (pcr_digests 0 es)"
    using fold_event_effect [OF z _ wf, of 0 H] by (simp add: MAX_PCRS_def)
  moreover have "fold (event_effect H) ?es ?z = event_effect H (hd (startup_events (Some l))) (fold (event_effect H) es ?z)"
    by (simp add: startup_events_def)
  ultimately show ?thesis using st eff [of "fold (event_effect H) es ?z"] z by (simp add: length_fold_event_effect)
qed

theorem late_locality_overwrites_witness:
  "\<exists>st. tpm_parse_eventlog sum_digest (\<lambda>_. 0) [''log'' \<mapsto> specid_bytes sample_specid
        @ concat (map event_bytes ([sample_separator 0 1] @ startup_events (Some 9)))] ''log''
      (fresh_tcg_state FORMAT_JSON [0]) = Inr st
    \<and> calc_pcrs st ! 0 = (replay sum_digest EVP_sha256 (zeros 32) (pcr_digests 0 [sample_separator 0 1]))[31 := 9]"
  by (rule late_locality_overwrites [OF sum_digest_ok _ sample_specid_ok])
    (simp_all add: MAX_PCRS_def sample_separator_ok)

end
