(* ===== verification/PcrExtend.thy ===== *)
theory PcrExtend
  imports Cli Hash
begin

text \<open>
  \<^verbatim>\<open>src/pcr-extend/main.c\<close>: the extend operation applied to digests given on the command line.
  The array of the input lengths has \<open>size_t\<close> elements but is reallocated with
  \<open>sizeof(uint32_t)\<close> bytes for each; \<open>usable n\<close> is the number of bytes that the allocator
  provides for a request of \<open>n\<close> bytes. \<open>garbage n\<close> is the contents of a fresh block of \<open>n\<close>
  bytes, which an input that cannot be converted keeps.
\<close>

section \<open>The program\<close>

type_synonym inputs = "(byte list \<times> nat) list"

definition store_input :: "(nat \<Rightarrow> nat) \<Rightarrow> (nat \<Rightarrow> byte list) \<Rightarrow> string \<Rightarrow> inputs \<Rightarrow> inputs res" where
  "store_input usable garbage pch inputs =
     (let num_inputs = length inputs; len = length pch div 2 in
      and_then (check (8 * num_inputs + 8 \<le> usable (4 * (num_inputs + 1))) OutOfBounds) (\<lambda>_.
      and_then (convert_hex_to_bin (bytes_of pch @ [0]) (length pch) (garbage len) len) (\<lambda>(ret, out).
        Inr (inputs @ [(out, len)]))))"

definition extend_option ::
  "(nat \<Rightarrow> nat) \<Rightarrow> (nat \<Rightarrow> byte list) \<Rightarrow> inputs \<Rightarrow> string \<Rightarrow> string list \<Rightarrow> (nat \<times> inputs) res" where
  "extend_option usable garbage inputs a rest =
     (if a = ''-h'' \<or> a = ''--help'' then usage
      else if a = ''-i'' \<or> a = ''--inputs'' then
        value_of rest (\<lambda>v. fold_res (store_input usable garbage) (strtok_all (\<lambda>c. c = CHR '','') v) inputs)
      else usage)"

fun extend_loop :: "digest \<Rightarrow> inputs \<Rightarrow> byte list \<Rightarrow> string res" where
  "extend_loop H [] pcr = print_data pcr 32 (Some ''PCR'')"
| "extend_loop H ((d, len) # xs) pcr =
     and_then (print_data pcr 32 (Some ''PCR'')) (\<lambda>t1.
     and_then (print_data d len (Some ''DATA'')) (\<lambda>t2.
     and_then (hash_extend H EVP_sha256 pcr d len) (\<lambda>pcr.
     and_then (extend_loop H xs pcr) (\<lambda>t. Inr (t1 @ t2 @ t)))))"

definition pcr_extend_main ::
  "digest \<Rightarrow> (nat \<Rightarrow> nat) \<Rightarrow> (nat \<Rightarrow> byte list) \<Rightarrow> string list \<Rightarrow> string res" where
  "pcr_extend_main H usable garbage args =
     and_then (parse_args (extend_option usable garbage) args []) (\<lambda>inputs. extend_loop H inputs (zeros 32))"

section \<open>Lists separated by commas\<close>

lemma strtok_go_tokens:
  assumes "\<And>x. x \<in> set xs \<Longrightarrow> x \<noteq> [] \<and> CHR '','' \<notin> set x"
  shows "strtok_go (\<lambda>c. c = CHR '','') [] (join '','' xs) = xs"
  using assms
proof (induction "'',''" xs rule: join.induct)
  case (2 x)
  then show ?case
    using strtok_go_prefix [of x "\<lambda>c. c = CHR '',''" "[]" "[]"] by force
next
  case (3 x y xs)
  then have x: "x \<noteq> []" "\<forall>c\<in>set x. \<not> c = CHR '',''" by auto
  have "strtok_go (\<lambda>c. c = CHR '','') [] (join '','' (y # xs)) = y # xs"
    by (rule "3.hyps") (use "3.prems" in auto)
  then show ?case using x strtok_go_prefix [OF x(2), of "[]" "'','' @ join '','' (y # xs)"] by simp
qed simp

lemma digit_not_comma: "d < 16 \<Longrightarrow> digit d \<noteq> CHR '',''"
proof -
  assume "d < 16"
  then have "d \<in> {0, 1, 2, 3, 4, 5, 6, 7, 8, 9, 10, 11, 12, 13, 14, 15}"
    unfolding insert_iff empty_iff by presburger
  then show ?thesis by (elim insertE emptyE) (simp_all add: digit_def)
qed

lemma hex_string_no_comma: "CHR '','' \<notin> set (hex_string bs)"
proof -
  have "CHR '','' \<notin> set (hex2 b)" for b
  proof -
    have "unat b div 16 < 16" "unat b mod 16 < 16"
      using unat_byte [of b] by (simp_all del: unat_byte add: div_less_iff_less_mult)
    then show ?thesis
      using digit_not_comma [of "unat b div 16"] digit_not_comma [of "unat b mod 16"] by (simp add: hex2_def)
  qed
  then show ?thesis by (auto simp: hex_string_def)
qed

section \<open>Replay\<close>

definition digest_list :: "byte list list \<Rightarrow> string" where
  "digest_list ds = join '','' (map hex_string ds)"

definition extend_line :: "string \<Rightarrow> byte list \<Rightarrow> string" where
  "extend_line name v = name @ '': '' @ hex_string_upper v @ nl"

fun extend_trace :: "digest \<Rightarrow> byte list list \<Rightarrow> byte list \<Rightarrow> string" where
  "extend_trace H [] pcr = extend_line ''PCR'' pcr"
| "extend_trace H (d # ds) pcr =
     extend_line ''PCR'' pcr @ extend_line ''DATA'' d @ extend_trace H ds (Hash.extend H EVP_sha256 pcr d)"

lemma extend_trace_last:
  "\<exists>t. extend_trace H ds pcr = t @ extend_line ''PCR'' (replay H EVP_sha256 pcr ds)"
proof (induction ds arbitrary: pcr)
  case (Cons d ds)
  obtain t where t: "extend_trace H ds (Hash.extend H EVP_sha256 pcr d)
      = t @ extend_line ''PCR'' (replay H EVP_sha256 (Hash.extend H EVP_sha256 pcr d) ds)"
    using Cons.IH by blast
  show ?case by (rule exI [of _ "extend_line ''PCR'' pcr @ extend_line ''DATA'' d @ t"]) (simp add: t)
qed (auto intro: exI [of _ "[]"])

lemma extend_loop_trace:
  assumes "digest_ok H" and "\<And>d. d \<in> set ds \<Longrightarrow> length d = 32" and "length pcr = 32"
  shows "extend_loop H (map (\<lambda>d. (d, 32)) ds) pcr = Inr (extend_trace H ds pcr)"
  using assms(2,3)
proof (induction ds arbitrary: pcr)
  case (Cons d ds)
  have "hash_extend H EVP_sha256 pcr d 32 = Inr (Hash.extend H EVP_sha256 pcr d)"
    using hash_extend_is_extend_aux [OF assms(1), of pcr EVP_sha256 d] Cons.prems by simp
  with Cons show ?case by (simp add: print_data_def extend_line_def assms(1))
qed (simp add: print_data_def extend_line_def)

lemma store_input_hex:
  assumes "length d = 32" and "\<And>n. length (garbage n) = n" and "8 * length inputs + 8 \<le> usable (4 * (length inputs + 1))"
  shows "store_input usable garbage (hex_string d) inputs = Inr (inputs @ [(d, 32)])"
proof -
  have "d \<noteq> []" using assms(1) by auto
  then have "convert_hex_to_bin (bytes_of (hex_string d) @ [0]) 64 (garbage 32) 32 = Inr (0, d)"
    using hex_roundtrip_aux [of d "garbage 32"] assms(1,2) by (simp add: convert_bin_to_hex_def)
  with assms(1,3) show ?thesis by (simp add: store_input_def)
qed

lemma split_first:
  "(\<forall>k. n \<le> k \<and> k < n + length (x # xs) \<longrightarrow> P k) \<longleftrightarrow> P n \<and> (\<forall>k. Suc n \<le> k \<and> k < Suc n + length xs \<longrightarrow> P k)"
proof -
  have "n \<le> k \<longleftrightarrow> k = n \<or> Suc n \<le> k" for k by auto
  then show ?thesis by auto
qed

lemma store_inputs:
  assumes "\<And>d. d \<in> set ds \<Longrightarrow> length d = 32" and "\<And>n. length (garbage n) = n"
  shows "fold_res (store_input usable garbage) (map hex_string ds) inputs
    = (if \<forall>k. length inputs \<le> k \<and> k < length inputs + length ds \<longrightarrow> 8 * k + 8 \<le> usable (4 * (k + 1))
       then Inr (inputs @ map (\<lambda>d. (d, 32)) ds) else Inl OutOfBounds)"
  using assms(1)
proof (induction ds arbitrary: inputs)
  case (Cons d ds)
  let ?n = "length inputs"
  let ?P = "\<lambda>k. 8 * k + 8 \<le> usable (4 * (k + 1))"
  have split: "(\<forall>k. ?n \<le> k \<and> k < ?n + length (d # ds) \<longrightarrow> ?P k)
      \<longleftrightarrow> ?P ?n \<and> (\<forall>k. Suc ?n \<le> k \<and> k < Suc ?n + length ds \<longrightarrow> ?P k)"
    by (rule split_first)
  show ?case
  proof (cases "?P ?n")
    case True
    have "store_input usable garbage (hex_string d) inputs = Inr (inputs @ [(d, 32)])"
      by (rule store_input_hex) (use Cons.prems assms(2) True in auto)
    with Cons.IH [of "inputs @ [(d, 32)]"] Cons.prems True show ?thesis
      unfolding split by simp
  next
    case False
    then have "store_input usable garbage (hex_string d) inputs = Inl OutOfBounds"
      by (simp add: store_input_def check_def Let_def)
    with False show ?thesis unfolding split by simp
  qed
qed simp

text \<open>
  C11. For SHA-256 digests on the command line the program prints the successive values of the
  register, the last of which is their replay, as long as the allocator provides twice the
  number of bytes that the code requests for the array of lengths, and otherwise writes
  outside that array.
\<close>

theorem pcr_extend_replays:
  assumes H: "digest_ok H" and ds: "\<And>d. d \<in> set ds \<Longrightarrow> length d = 32" and g: "\<And>n. length (garbage n) = n"
  shows "pcr_extend_main H usable garbage [''-i'', digest_list ds]
    = (if \<forall>k<length ds. 8 * k + 8 \<le> usable (4 * (k + 1)) then Inr (extend_trace H ds (zeros 32)) else Inl OutOfBounds)
    \<and> (\<exists>t. extend_trace H ds (zeros 32) = t @ extend_line ''PCR'' (replay H EVP_sha256 (zeros 32) ds))"
proof -
  have "hex_string d \<noteq> [] \<and> CHR '','' \<notin> set (hex_string d)" if "d \<in> set ds" for d
  proof -
    have "length (hex_string d) = 64" using ds [OF that] by simp
    then show ?thesis using hex_string_no_comma [of d] by force
  qed
  then have tok: "strtok_all (\<lambda>c. c = CHR '','') (digest_list ds) = map hex_string ds"
    unfolding strtok_all_def digest_list_def by (intro strtok_go_tokens) auto
  show ?thesis
    using store_inputs [of ds garbage usable "[]", OF ds g] extend_loop_trace [where pcr = "zeros 32", OF H ds] extend_trace_last
    by (simp add: pcr_extend_main_def extend_option_def tok)
qed

theorem pcr_extend_replays_witness:
  "pcr_extend_main sum_digest (\<lambda>n. 24) (\<lambda>n. replicate n 0xEE) [''-i'', digest_list [replicate 32 1, replicate 32 2]]
    = Inr (extend_trace sum_digest [replicate 32 1, replicate 32 2] (zeros 32))
  \<and> pcr_extend_main sum_digest (\<lambda>n. n) (\<lambda>n. replicate n 0xEE) [''-i'', digest_list [replicate 32 1]] = Inl OutOfBounds"
  using pcr_extend_replays [OF sum_digest_ok, of "[replicate 32 1, replicate 32 2]" "\<lambda>n. replicate n 0xEE" "\<lambda>n. 24"]
    pcr_extend_replays [OF sum_digest_ok, of "[replicate 32 1]" "\<lambda>n. replicate n 0xEE" "\<lambda>n. n"]
  by (force simp: less_Suc_eq)

section \<open>Long inputs\<close>

lemma hex_loop_cases:
  "hex_loop i pos n out = Inl OutOfBounds \<or> (\<exists>r out'. hex_loop i pos n out = Inr (r, out') \<and> length out' = length out)"
  by (induction i pos n out rule: hex_loop.induct) (auto split: option.splits)

lemma convert_cases:
  assumes "2 \<le> inlen"
  shows "convert_hex_to_bin inp inlen out outlen = Inl OutOfBounds
    \<or> (\<exists>r out'. convert_hex_to_bin inp inlen out outlen = Inr (r, out') \<and> length out' = length out)"
  using assms hex_loop_cases by (auto simp: convert_hex_to_bin_def Let_def check_def)

text \<open>
  Fact. An argument of more than 65 characters without a comma, such as a SHA-256 digest
  with the prefix \<open>0x\<close> or a SHA-384 digest, makes the program read beyond the register:
  \<open>hash_extend\<close> takes the length of the input for the length of the register, and the error
  that the conversion of the prefix returns is ignored.
\<close>

theorem pcr_extend_long_input:
  assumes "66 \<le> length s" and "CHR '','' \<notin> set s" and g: "\<And>n. length (garbage n) = n"
  shows "pcr_extend_main H usable garbage [''-i'', s] = Inl OutOfBounds"
proof -
  have "s \<noteq> []" using assms(1) by auto
  then have tok: "strtok_all (\<lambda>c. c = CHR '','') s = [s]"
    using strtok_go_tokens [of "[s]"] assms(2) by (simp add: strtok_all_def)
  let ?len = "length s div 2"
  have len: "32 < ?len" using assms(1) by simp
  have run: "extend_loop H [(out, ?len)] (zeros 32) = Inl OutOfBounds" if "length out = ?len" for out
    using that len by (simp add: print_data_def hash_extend_def rd_def zeros_def)
  show ?thesis
    using convert_cases [of "length s" "bytes_of s @ [0]" "garbage ?len" ?len] assms(1) g run
    by (auto simp: pcr_extend_main_def extend_option_def tok store_input_def check_def Let_def)
qed

theorem pcr_extend_long_input_witness:
  "pcr_extend_main sum_digest (\<lambda>n. 24) (\<lambda>n. replicate n 0) [''-i'', ''0x'' @ replicate 64 (CHR ''a'')] = Inl OutOfBounds"
  by (rule pcr_extend_long_input) simp_all

end
