(* ===== verification/Spec2Isabelle.thy ===== *)
theory Spec2Isabelle
  imports TdxMainSpec SnpMain ImaMain ParseIma BootCheck TpmMachine PcrExtend
begin

text \<open>
  A model of the measured-boot tools. The programs under \<^verbatim>\<open>src/\<close> compute the values that the
  measurement registers of a platform must have after a measured boot, or parse the log of a
  boot that took place: \<^verbatim>\<open>calculate-srtm-pcrs\<close> (TPM registers PCR 0 to 9), \<^verbatim>\<open>calculate-tdx-mrs\<close>
  (Intel TDX: MRSEAM, MRTD, RTMR 0 to 3), \<^verbatim>\<open>calculate-snp-mr\<close> (AMD SEV-SNP launch digest),
  \<^verbatim>\<open>calculate-ima-pcr\<close> and \<^verbatim>\<open>parse-ima-pcr\<close> (the Linux IMA measurement list),
  \<^verbatim>\<open>parse-srtm-pcrs\<close> (the TCG boot log) and \<^verbatim>\<open>pcr-extend\<close>. They share \<^verbatim>\<open>src/common\<close> and the
  PE/COFF and firmware volume code the project adapted from EDK II.

  \<^bold>\<open>Conventions.\<close> A byte is an \<open>8 word\<close>, a buffer a list of bytes, a string a list of
  characters. Sizes and offsets are natural numbers, cut to their width with \<open>u16\<close>, \<open>u32\<close>,
  \<open>u64\<close> where the code computes at that width. A function that can fail returns
  \<open>'a res = fault + 'a\<close>; \<open>Fail n\<close> is the C return code n, \<open>OutOfBounds\<close> any undefined
  behaviour of the code (an access outside a buffer, a double free, the use of an indeterminate
  pointer), \<open>Hangs\<close> a loop without end. Reads and writes of buffers go through \<open>rd\<close> and \<open>wr\<close>,
  which check bounds, so an access the code does not check is \<open>OutOfBounds\<close> in the model.
  Mutable state is passed explicitly, mostly as the record \<open>mstate\<close>: the register and the log.

  \<^bold>\<open>Parameters.\<close> The digest functions of OpenSSL are \<open>H\<close>, with the hypothesis \<open>digest_ok H\<close>
  that a digest has the length of its algorithm; \<open>sum_digest\<close> is the instance of the
  witnesses. The file system is a partial map \<open>fs\<close> from names to contents, for the tools that
  walk directories a tree \<open>T\<close>. The decoder of the LZMA SDK, OpenSSL's decoders of PKCS 7
  structures (the record \<open>pkcs7_api\<close>) and of hexadecimal strings (\<open>hexstr\<close>), the sizes that
  the allocator provides (\<open>usable\<close> in \<open>PcrExtend\<close>), the room for written files (\<open>disk\<close>, \<open>None\<close> for a
  file that cannot be opened), the contents of fresh memory and of indeterminate variables are
  parameters too. Assumed: \<open>malloc\<close> succeeds, x86-64, files below 2 GiB where a size is an \<open>int\<close>.

  \<^bold>\<open>Theories.\<close>
  \<^item> \<open>Prelude\<close>: faults and sequencing, buffers, little-endian numbers, the \<open>printf\<close>
    conversions, \<open>strtok\<close>.
  \<^item> \<open>Common\<close> (\<^verbatim>\<open>common.c\<close>, \<^verbatim>\<open>guid.c\<close>), \<open>Hash\<close> (\<^verbatim>\<open>hash.c\<close>; \<open>extend\<close> and \<open>replay\<close>),
    \<open>KernelConfig\<close> (\<^verbatim>\<open>kernel_config.c\<close>, \<open>strtol\<close>), \<open>Gpt\<close> (\<^verbatim>\<open>gpt.c\<close>): round trips of the
    conversions and of the configuration file, the exact effect on a kernel image.
  \<^item> \<open>Measure\<close>: the calling convention of every measurement function and its abstract
    specification \<open>measures\<close>, a list of events that is appended to the log and replayed into the
    register. The locale \<open>measurement_log\<close> is the contract of an event log; \<open>EventLog\<close> models
    the logs of the TPM and TDX tools, both interpret it.
  \<^item> \<open>Acpi\<close>, \<open>SecureBoot\<close>, \<open>EfiBoot\<close> (\<^verbatim>\<open>src/common\<close>): each measurement function equals
    \<open>measures\<close> of an event list written down from its inputs.
  \<^item> \<open>PeCoff\<close>, \<open>Authenticode\<close> (\<^verbatim>\<open>MeasureBootPeCoff.c\<close>): the image parser never leaves an
    untrusted file (locale \<open>image_reader\<close>, the contract of the read callback), and the digest is
    that of the Authenticode stream, invariant under signing.
  \<^item> \<open>Ffs\<close> (\<^verbatim>\<open>SecMain.c\<close>, \<^verbatim>\<open>LzmaDecompress.c\<close>), \<open>Walk\<close>, \<open>Paths\<close> (\<^verbatim>\<open>paths.c\<close>): firmware
    volumes; directory traversal with a depth bound as fuel, enough for a tree of that depth.
  \<^item> \<open>Pcrs\<close>, \<open>PcrSpec\<close> (\<^verbatim>\<open>pcrs.c\<close>): PCR 0 to 9 and their event lists. \<open>Cli\<close>, \<open>SrtmMain\<close>,
    \<open>SrtmSpec\<close> (\<^verbatim>\<open>calculate-srtm-pcrs/main.c\<close>): options, calculation, report; end to end, each
    printed value is the replay of the printed events.
  \<^item> \<open>Mrtd\<close>, \<open>TdxMrs\<close>, \<open>TdxSpec\<close>, \<open>TdxMain\<close>, \<open>TdxMainSpec\<close> (\<^verbatim>\<open>calculate-tdx-mrs\<close>): the search for
    the firmware metadata and when it ends, the byte stream of MRTD, the TD handoff block,
    read back as the memory map of the machine, and the defect of its debug listing, the runtime
    registers, what a failing dump leaves of RTMR1, the
    report of the program.
  \<^item> \<open>Snp\<close> (\<^verbatim>\<open>snp.c\<close>), \<open>SnpMain\<close> (\<^verbatim>\<open>calculate-snp-mr/main.c\<close>): the launch digest as a hash chain,
    the page of the register state byte for byte, the printed reference value.
  \<^item> \<open>ImaCalc\<close>, \<open>ImaMain\<close> (\<^verbatim>\<open>calculate-ima-pcr/main.c\<close>), \<open>Modsig\<close> (\<^verbatim>\<open>modsig.c\<close>), \<open>ImaParse\<close>
    (\<^verbatim>\<open>ima_measure.c\<close>), \<open>ParseIma\<close> (\<^verbatim>\<open>parse-ima-pcr/main.c\<close>): calculation and parser of the IMA
    list; the parser inverts the serialisation however often its reads block, both tools print
    the same for the same files, and a crafted entry leads to freed memory.
  \<^item> \<open>EventCb\<close>, \<open>TcgLog\<close>, \<open>TcgSpec\<close> (\<^verbatim>\<open>eventcb.c\<close>, \<^verbatim>\<open>tpm2_eventlog.c\<close>), \<open>ParseSrtm\<close>
    (\<^verbatim>\<open>parse-srtm-pcrs/main.c\<close>): the parser of the boot log computes, and the program prints, the
    replay of each PCR; cases where it departs from it. \<open>TcgShape\<close> states the interface between
    the loops of the parser and their callbacks as the locales \<open>log_invariant\<close> and
    \<open>register_invariant\<close>, under which every input keeps an invariant; \<open>TpmMachine\<close> interprets
    them with the step relation of a TPM, so the registers of any accepted log are reachable.
    \<open>BootCheck\<close> composes the two programs for TPM registers: their text reports for one boot are
    equal exactly when the registers agree.
  \<^item> \<open>PcrExtend\<close> (\<^verbatim>\<open>pcr-extend/main.c\<close>): the successive values of a register, up to the input at
    which the array of lengths overflows.

  \<^bold>\<open>Not modelled.\<close> Usage texts, error messages and debug output; the output of runs that fail.
  The output a model returns is the report of the program. Diagnostics that the code prints on
  the way to standard output, which can happen in a run that succeeds too (a digest algorithm
  without a name, a path that cannot be resolved, a file skipped), are no part of it, so
  equality of outputs is equality of the reports.
  The programs are modelled without debug output: \<^verbatim>\<open>--verbose\<close> is accepted and changes nothing.
  The one listing where this matters for safety, that of the TD handoff block, is modelled with
  both settings in \<open>TdxMrs\<close>.
  The LZMA SDK, the EDK II and TSS headers beyond the types and constants used, and the part of
  \<^verbatim>\<open>tpm2_alg_util.c\<close> that no tool calls are third-party code.
\<close>

end
